(* ===== verification/GoBase.thy ===== *)
theory GoBase
  imports
    Main
    "HOL-Library.Char_ord"
    "HOL-Library.List_Lexorder"
    "HOL-Library.Product_Lexorder"
    "HOL-Library.Multiset"
    "HOL-Library.AList"
    "HOL-Library.Word"
begin

section \<open>Prelude: Go values, errors, maps, slices and sorting\<close>

text \<open>
  What every component shares: Go errors and the three ways a Go call can end, finite maps,
  the functions of the packages \<^verbatim>\<open>slices\<close> and \<^verbatim>\<open>cmp\<close> that the program calls, and the
  contract of a three-way comparison function with the sorting lemmas that follow from it.

  Go strings are byte sequences; \<^typ>\<open>string\<close> is a list of 8-bit characters, so it is one too,
  and the order on it (\<^theory_text>\<open>HOL-Library.List_Lexorder\<close> over \<^theory_text>\<open>Char_ord\<close>) is the
  bytewise order of Go's operator \<^verbatim>\<open><\<close>.
\<close>

named_theorems go_simps \<open>characteristic equations of the Go primitives\<close>
named_theorems outcome_simps \<open>inversion of successful, failed and panicking calls\<close>

subsection \<open>Machine integers and time\<close>

text \<open>
  Go's \<^verbatim>\<open>int\<close> and \<^verbatim>\<open>int64\<close> on the 64-bit targets of the program. A \<^verbatim>\<open>time.Duration\<close> is an
  \<^verbatim>\<open>int64\<close> of nanoseconds; a point in time is its number of nanoseconds since the epoch.
\<close>

type_synonym int64 = "64 word"
type_synonym duration = int64
type_synonym time = int

definition time_Add :: "time \<Rightarrow> duration \<Rightarrow> time" where
  "time_Add t d = t + sint d"

subsection \<open>Errors\<close>

text \<open>
  An error is kept as a value that records how it was built: \<open>Errorf\<close> for \<^verbatim>\<open>errors.New\<close> and for
  \<^verbatim>\<open>fmt.Errorf\<close> without \<^verbatim>\<open>%w\<close> (format and arguments), \<open>Wrapf\<close> for \<^verbatim>\<open>fmt.Errorf\<close> with \<^verbatim>\<open>%w\<close>,
  \<open>JoinErr\<close> for \<^verbatim>\<open>errors.Join\<close>, the sentinels that the program compares with, and \<open>ExtErr\<close> for
  the errors of third-party calls. The rendered text of an error is a parameter of the one
  operation that shows it.
\<close>

datatype fmtarg = FStr string | FNat nat | FInt int

datatype goerror =
    Errorf string "fmtarg list"
  | Wrapf string "fmtarg list" goerror
  | JoinErr "goerror list"
  | ErrNoShoots
  | Canceled
  | DeadlineExceeded
  | ExtErr string

text \<open>\<^verbatim>\<open>errors.Is\<close> walks the tree of wrapped errors.\<close>

fun errors_Is :: "goerror \<Rightarrow> goerror \<Rightarrow> bool" where
  "errors_Is (Wrapf f as e) t = (Wrapf f as e = t \<or> errors_Is e t)"
| "errors_Is (JoinErr es) t = (JoinErr es = t \<or> (\<exists>e\<in>set es. errors_Is e t))"
| "errors_Is e t = (e = t)"

definition is_ctx_error :: "goerror \<Rightarrow> bool" where
  "is_ctx_error e \<longleftrightarrow> errors_Is e Canceled \<or> errors_Is e DeadlineExceeded"

text \<open>\<^verbatim>\<open>errors.Join\<close> of no errors is nil.\<close>

definition errors_Join :: "goerror list \<Rightarrow> goerror option" where
  "errors_Join es = (if es = [] then None else Some (JoinErr es))"

subsection \<open>The ways a call ends\<close>

datatype 'a outcome = Ok 'a | Fail goerror | Panic

primrec bindO :: "'a outcome \<Rightarrow> ('a \<Rightarrow> 'b outcome) \<Rightarrow> 'b outcome" where
  "bindO (Ok a) f = f a"
| "bindO (Fail e) f = Fail e"
| "bindO Panic f = Panic"

text \<open>\<open>wrapO\<close> is the idiom \<^verbatim>\<open>if err != nil { return fmt.Errorf("...: %w", err) }\<close>.\<close>

primrec wrapO :: "string \<Rightarrow> fmtarg list \<Rightarrow> 'a outcome \<Rightarrow> 'a outcome" where
  "wrapO f as (Ok a) = Ok a"
| "wrapO f as (Fail e) = Fail (Wrapf f as e)"
| "wrapO f as Panic = Panic"

lemma bindO_eq_Ok [outcome_simps]:
  "bindO m f = Ok b \<longleftrightarrow> (\<exists>a. m = Ok a \<and> f a = Ok b)"
  by (cases m) auto

lemma bindO_eq_Panic [outcome_simps]:
  "bindO m f = Panic \<longleftrightarrow> m = Panic \<or> (\<exists>a. m = Ok a \<and> f a = Panic)"
  by (cases m) auto

lemma bindO_eq_Fail [outcome_simps]:
  "bindO m f = Fail e \<longleftrightarrow> m = Fail e \<or> (\<exists>a. m = Ok a \<and> f a = Fail e)"
  by (cases m) auto

lemma wrapO_eq_Ok [outcome_simps]: "wrapO f as m = Ok a \<longleftrightarrow> m = Ok a"
  by (cases m) auto

lemma wrapO_eq_Panic [outcome_simps]: "wrapO f as m = Panic \<longleftrightarrow> m = Panic"
  by (cases m) auto

lemma wrapO_eq_Fail [outcome_simps]:
  "wrapO f as m = Fail e \<longleftrightarrow> (\<exists>e'. m = Fail e' \<and> e = Wrapf f as e')"
  by (cases m) auto

subsection \<open>Maps\<close>

text \<open>
  A Go map is a finite map; it is held as the list of its entries in the order in which one
  \<^verbatim>\<open>range\<close> loop visits them, which Go leaves unspecified. Reading is \<^const>\<open>map_of\<close>, writing is
  \<^const>\<open>AList.update\<close>. A map has one entry per key (\<open>gomap_ok\<close>). Sets, which the program writes as
  \<^verbatim>\<open>map[string]struct{}\<close>, are HOL sets.

  Where the order of a \<^verbatim>\<open>range\<close> loop, or the order in which goroutines deliver their results, can
  be seen in a result, the order is an argument: a function that permutes the list.
\<close>

type_synonym ('k, 'v) gomap = "('k \<times> 'v) list"

abbreviation map_put :: "'k \<Rightarrow> 'v \<Rightarrow> ('k, 'v) gomap \<Rightarrow> ('k, 'v) gomap" where
  "map_put \<equiv> AList.update"

abbreviation gomap_ok :: "('k, 'v) gomap \<Rightarrow> bool" where
  "gomap_ok m \<equiv> distinct (map fst m)"

definition permuting :: "('a list \<Rightarrow> 'a list) \<Rightarrow> bool" where
  "permuting f \<longleftrightarrow> (\<forall>xs. mset (f xs) = mset xs)"

lemma permuting_mset: "permuting f \<Longrightarrow> mset (f xs) = mset xs"
  by (simp add: permuting_def)

lemma permuting_set: "permuting f \<Longrightarrow> set (f xs) = set xs"
  by (metis permuting_mset set_mset_mset)

lemma permuting_length: "permuting f \<Longrightarrow> length (f xs) = length xs"
  by (metis permuting_mset size_mset)

lemma permuting_Nil [simp]: "permuting f \<Longrightarrow> f [] = [] "
  by (metis permuting_length length_0_conv)

lemma permuting_id [intro, simp]: "permuting (\<lambda>xs. xs)"
  by (simp add: permuting_def)

lemma permuting_rev [intro, simp]: "permuting rev"
  by (simp add: permuting_def)

lemma map_of_map_put [go_simps]: "map_of (map_put k v m) = (map_of m)(k \<mapsto> v)"
  by (rule update_conv')

lemma map_put_SomeD:
  "map_of (map_put k0 v m) k = Some w \<Longrightarrow> (k = k0 \<and> w = v) \<or> map_of m k = Some w"
  by (auto simp: map_of_map_put split: if_splits)

lemma gomap_ok_put: "gomap_ok m \<Longrightarrow> gomap_ok (map_put k v m)"
  by (rule distinct_update)

lemma gomap_ok_length: "gomap_ok m \<Longrightarrow> length m = card (dom (map_of m))"
  by (metis distinct_card dom_map_of_conv_image_fst length_map list.set_map)

subsection \<open>The functions used of packages slices and cmp\<close>

fun IndexFunc :: "('a \<Rightarrow> bool) \<Rightarrow> 'a list \<Rightarrow> nat option" where
  "IndexFunc P [] = None"
| "IndexFunc P (x # xs) = (if P x then Some 0 else map_option Suc (IndexFunc P xs))"

lemma IndexFunc_None: "IndexFunc P xs = None \<longleftrightarrow> (\<forall>x\<in>set xs. \<not> P x)"
  by (induction xs) auto

lemma IndexFunc_Some:
  "IndexFunc P xs = Some i \<Longrightarrow> i < length xs \<and> P (xs ! i) \<and> (\<forall>j<i. \<not> P (xs ! j))"
proof (induction xs arbitrary: i)
  case Nil
  then show ?case by simp
next
  case (Cons x xs)
  then show ?case
    by (auto split: if_splits simp: nth_Cons' less_Suc_eq_0_disj)
qed

lemma IndexFunc_append:
  "IndexFunc P (xs @ ys) =
     (case IndexFunc P xs of Some i \<Rightarrow> Some i
      | None \<Rightarrow> map_option (\<lambda>i. i + length xs) (IndexFunc P ys))"
  by (induction xs) (auto split: option.splits simp: option.map_comp comp_def option.map_ident)

text \<open>\<^verbatim>\<open>cmp.Compare\<close> and \<^verbatim>\<open>cmp.Or\<close> (on pointers: the first that is not nil).\<close>

definition cmp_Compare :: "'a::linorder \<Rightarrow> 'a \<Rightarrow> int" where
  "cmp_Compare a b = (if a < b then - 1 else if b < a then 1 else 0)"

definition cmp_Or :: "'a option \<Rightarrow> 'a option \<Rightarrow> 'a option" where
  "cmp_Or a b = (case a of None \<Rightarrow> b | Some x \<Rightarrow> Some x)"

lemma cmp_Or_simps [simp]: "cmp_Or None b = b" "cmp_Or (Some x) b = Some x" "cmp_Or a None = a"
  by (auto simp: cmp_Or_def split: option.splits)

lemma cmp_Compare_le [simp]: "cmp_Compare a b \<le> 0 \<longleftrightarrow> a \<le> b"
  by (auto simp: cmp_Compare_def)

lemma cmp_Compare_less [simp]: "cmp_Compare a b < 0 \<longleftrightarrow> a < b"
  by (auto simp: cmp_Compare_def)

lemma cmp_Compare_eq [simp]: "cmp_Compare a b = 0 \<longleftrightarrow> a = b"
  by (auto simp: cmp_Compare_def)

lemma cmp_Compare_gr [simp]: "0 < cmp_Compare a b \<longleftrightarrow> b < a"
  by (auto simp: cmp_Compare_def)

text \<open>
  \<^verbatim>\<open>slices.SortFunc\<close> as a stable insertion sort. Go leaves the order of elements that compare as
  equal unspecified; \<open>SortFunc_reaches\<close> below shows that every sorted permutation of a
  list is the model's result on some permutation of that list, so where the input comes in an
  arbitrary order the model allows every result that Go does.
\<close>

fun insert_by :: "('a \<Rightarrow> 'a \<Rightarrow> int) \<Rightarrow> 'a \<Rightarrow> 'a list \<Rightarrow> 'a list" where
  "insert_by cmp x [] = [x]"
| "insert_by cmp x (y # ys) = (if cmp x y \<le> 0 then x # y # ys else y # insert_by cmp x ys)"

definition SortFunc :: "('a \<Rightarrow> 'a \<Rightarrow> int) \<Rightarrow> 'a list \<Rightarrow> 'a list" where
  "SortFunc cmp xs = foldr (insert_by cmp) xs []"

abbreviation sorted_by :: "('a \<Rightarrow> 'a \<Rightarrow> int) \<Rightarrow> 'a list \<Rightarrow> bool" where
  "sorted_by cmp \<equiv> sorted_wrt (\<lambda>a b. cmp a b \<le> 0)"

lemma SortFunc_Nil [simp]: "SortFunc cmp [] = []"
  by (simp add: SortFunc_def)

lemma SortFunc_Cons: "SortFunc cmp (x # xs) = insert_by cmp x (SortFunc cmp xs)"
  by (simp add: SortFunc_def)

lemma mset_insert_by: "mset (insert_by cmp x xs) = {#x#} + mset xs"
  by (induction xs) auto

lemma mset_SortFunc [simp]: "mset (SortFunc cmp xs) = mset xs"
  by (induction xs) (auto simp: SortFunc_Cons mset_insert_by)

lemma set_SortFunc [simp]: "set (SortFunc cmp xs) = set xs"
  by (metis mset_SortFunc set_mset_mset)

lemma length_SortFunc [simp]: "length (SortFunc cmp xs) = length xs"
  by (metis mset_SortFunc size_mset)

lemma SortFunc_eq_Nil [simp]: "SortFunc cmp xs = [] \<longleftrightarrow> xs = []"
  by (metis length_SortFunc length_0_conv)

lemma set_insert_by [simp]: "set (insert_by cmp x xs) = insert x (set xs)"
  by (induction xs) auto

lemma SortFunc_id: "sorted_by cmp xs \<Longrightarrow> SortFunc cmp xs = xs"
proof (induction xs)
  case Nil
  then show ?case by simp
next
  case (Cons x xs)
  then show ?case by (cases xs) (auto simp: SortFunc_Cons)
qed

subsection \<open>Comparison functions\<close>

text \<open>
  The contract that \<^verbatim>\<open>slices.SortFunc\<close> asks of its comparison: the sign of a comparison is
  antisymmetric and \<open>\<le> 0\<close> is transitive. Everything a caller needs of a sorted slice is proved once
  from the contract; each comparison function of the program is an instance.
\<close>

locale comparator =
  fixes cmp :: "'a \<Rightarrow> 'a \<Rightarrow> int"
  assumes cmp_antisym: "cmp a b < 0 \<longleftrightarrow> 0 < cmp b a"
    and cmp_trans: "cmp a b \<le> 0 \<Longrightarrow> cmp b c \<le> 0 \<Longrightarrow> cmp a c \<le> 0"
begin

lemma cmp_refl: "cmp a a = 0"
  using cmp_antisym [of a a] by linarith

lemma cmp_total: "cmp a b \<le> 0 \<or> cmp b a \<le> 0"
  using cmp_antisym [of a b] by linarith

lemma cmp_eq_sym: "cmp a b = 0 \<longleftrightarrow> cmp b a = 0"
  using cmp_antisym [of a b] cmp_antisym [of b a] by linarith

lemma insert_by_sorted: "sorted_by cmp xs \<Longrightarrow> sorted_by cmp (insert_by cmp x xs)"
proof (induction xs)
  case Nil
  then show ?case by simp
next
  case (Cons y ys)
  show ?case
  proof (cases "cmp x y \<le> 0")
    case True
    with Cons.prems show ?thesis by (auto intro: cmp_trans)
  next
    case False
    then have "cmp y x \<le> 0" using cmp_total by blast
    with False Cons show ?thesis by auto
  qed
qed

lemma SortFunc_sorted: "sorted_by cmp (SortFunc cmp xs)"
  by (induction xs) (auto simp: SortFunc_Cons insert_by_sorted)

lemma sorted_head_least: "sorted_by cmp (x # xs) \<Longrightarrow> y \<in> set (x # xs) \<Longrightarrow> cmp x y \<le> 0"
  using cmp_refl [of x] by auto

text \<open>
  Where comparing as equal means being equal, the sorted permutation is unique: the result does not
  depend on the order of the input, nor on how the sort treats ties.
\<close>

lemma sorted_perm_unique:
  assumes "mset xs = mset ys" "sorted_by cmp xs" "sorted_by cmp ys"
    and "\<And>a b. a \<in> set xs \<Longrightarrow> b \<in> set xs \<Longrightarrow> cmp a b = 0 \<Longrightarrow> a = b"
  shows "xs = ys"
  using assms
proof (induction xs arbitrary: ys)
  case Nil
  then show ?case by simp
next
  case (Cons x xs)
  then obtain y ys' where ys: "ys = y # ys'"
    by (metis list.exhaust mset_zero_iff_right list.distinct(1))
  have mem: "y \<in> set (x # xs)" "x \<in> set ys"
    using Cons.prems(1) ys by (metis list.set_intros(1) set_mset_mset)+
  have "cmp x y \<le> 0" "cmp y x \<le> 0"
    using sorted_head_least [OF Cons.prems(2) mem(1)]
      sorted_head_least [of y ys' x] Cons.prems(3) mem(2) ys by auto
  then have "cmp x y = 0" using cmp_antisym [of x y] cmp_antisym [of y x] by linarith
  then have "x = y" using Cons.prems(4) mem(1) by simp
  with Cons ys show ?case by simp
qed

lemma SortFunc_perm_invariant:
  assumes "mset xs = mset ys"
    and "\<And>a b. a \<in> set xs \<Longrightarrow> b \<in> set xs \<Longrightarrow> cmp a b = 0 \<Longrightarrow> a = b"
  shows "SortFunc cmp xs = SortFunc cmp ys"
  by (rule sorted_perm_unique) (use assms in \<open>auto simp: SortFunc_sorted\<close>)

end

text \<open>\<^verbatim>\<open>cmp.Compare\<close> itself, on a key, and lexicographically on two keys.\<close>

definition compare_key2 :: "('a \<Rightarrow> 'b::linorder) \<Rightarrow> ('a \<Rightarrow> 'c::linorder) \<Rightarrow> 'a \<Rightarrow> 'a \<Rightarrow> int" where
  "compare_key2 f g a b =
     (let c = cmp_Compare (f a) (f b) in if c \<noteq> 0 then c else cmp_Compare (g a) (g b))"

lemma compare_key2_le: "compare_key2 f g a b \<le> 0 \<longleftrightarrow> (f a, g a) \<le> (f b, g b)"
  by (auto simp: compare_key2_def Let_def cmp_Compare_def)

lemma compare_key2_less: "compare_key2 f g a b < 0 \<longleftrightarrow> (f a, g a) < (f b, g b)"
  by (auto simp: compare_key2_def Let_def cmp_Compare_def)

lemma compare_key2_gr: "0 < compare_key2 f g a b \<longleftrightarrow> (f b, g b) < (f a, g a)"
  by (auto simp: compare_key2_def Let_def cmp_Compare_def)

lemma compare_key2_eq: "compare_key2 f g a b = 0 \<longleftrightarrow> f a = f b \<and> g a = g b"
  by (auto simp: compare_key2_def Let_def cmp_Compare_def)

lemma comparator_key2: "comparator (compare_key2 f g)"
  by unfold_locales (auto simp: compare_key2_less compare_key2_gr compare_key2_le)

interpretation string_cmp: comparator "cmp_Compare :: string \<Rightarrow> string \<Rightarrow> int"
  by unfold_locales auto

lemma SortFunc_reaches:
  assumes "mset ys = mset xs" "sorted_by cmp ys"
  shows "\<exists>zs. mset zs = mset xs \<and> SortFunc cmp zs = ys"
  using assms SortFunc_id by blast

end
