(* ===== verification/ApiTypes.thy ===== *)
theory ApiTypes
  imports GoBase
begin

section \<open>The API types\<close>

text \<open>
  The types of \<^verbatim>\<open>api/v1alpha1/managedcloudprofile.go\<close>, and of the Gardener API the parts that the
  program reads or writes. A field of a Gardener type that the program only copies has type
  \<open>opaque\<close>: an uninterpreted text that stands for its serialised value, empty for the zero value.
  A pointer is an \<^typ>\<open>'a option\<close>, a slice a list (the program never distinguishes a nil slice from an
  empty one), a map a list of entries; only of a capabilities map does the program test for nil, so
  \<open>Capabilities\<close> is optional.
\<close>

type_synonym opaque = string
type_synonym RawExtension = string
type_synonym Capabilities = "(string, string list) gomap option"

subsection \<open>Gardener: versions, images, cloud profiles, shoots\<close>

datatype VersionClassification =
    ClassificationPreview
  | ClassificationSupported
  | ClassificationDeprecated
  | OtherClassification string

record ExpirableVersion =
  ev_Version :: string
  ev_Classification :: "VersionClassification option"
  ev_ExpirationDate :: "time option"

record InPlaceUpdates =
  ip_Supported :: bool
  ip_MinVersionForUpdate :: "string option"

record MachineImageFlavor =
  mf_Capabilities :: Capabilities
  mf_other :: opaque

record MachineImageVersion =
  mv_Version :: string
  mv_Classification :: "VersionClassification option"
  mv_ExpirationDate :: "time option"
  mv_Architectures :: "string list"
  mv_InPlaceUpdates :: "InPlaceUpdates option"
  mv_CapabilityFlavors :: "MachineImageFlavor list"
  mv_other :: opaque

record MachineImage =
  mi_Name :: string
  mi_Versions :: "MachineImageVersion list"
  mi_other :: opaque

record CapabilityDefinition =
  cd_Name :: string
  cd_Values :: "string list"

record KubernetesSettings =
  ks_Versions :: "ExpirableVersion list"

record GardenerCloudProfileSpec =
  gs_CABundle :: "string option"
  gs_Kubernetes :: KubernetesSettings
  gs_MachineImages :: "MachineImage list"
  gs_MachineTypes :: opaque
  gs_ProviderConfig :: "RawExtension option"
  gs_Regions :: opaque
  gs_SeedSelector :: opaque
  gs_Type :: string
  gs_VolumeTypes :: opaque
  gs_Bastion :: opaque
  gs_Limits :: opaque
  gs_MachineCapabilities :: "CapabilityDefinition list"
  gs_ControlPlane :: opaque

record CloudProfile =
  cp_Name :: string
  cp_meta :: opaque
  cp_Spec :: GardenerCloudProfileSpec

record ShootMachineImage =
  sm_Name :: string
  sm_Version :: "string option"

record Shoot =
  sh_CloudProfile :: "string option" \<comment> \<open>\<^verbatim>\<open>Spec.CloudProfile.Name\<close>, None for a nil reference\<close>
  sh_WorkerImages :: "ShootMachineImage option list" \<comment> \<open>\<^verbatim>\<open>Spec.Provider.Workers[i].Machine.Image\<close>\<close>
  sh_GardenerVersion :: string \<comment> \<open>\<^verbatim>\<open>Status.Gardener.Version\<close>\<close>

subsection \<open>The specification of a ManagedCloudProfile\<close>

record SecretReference =
  sr_Name :: string
  sr_Namespace :: string
  sr_Key :: string

record ImageFilter =
  if_RequiredFeatureSetValues :: "string list"

record GarbageCollectionConfig =
  gc_Enabled :: bool
  gc_MaxAge :: duration

record OCI =
  oci_Registry :: string
  oci_Repository :: string
  oci_Username :: string
  oci_Password :: SecretReference
  oci_Insecure :: bool
  oci_ImageFilter :: "ImageFilter option"
  oci_FeatureToCapabilityMap :: "(string, string) gomap"

record LandscapeSetup =
  ls_OCI :: OCI
  ls_Provider :: string

record KubernetesVersionUpdateConfig =
  ku_ExpirationThreshold :: duration
  ku_LandscapeSetup :: "LandscapeSetup option"

record GlanceSource =
  gl_AuthURLFormat :: string
  gl_Regions :: "string list"
  gl_NamePrefix :: string
  gl_KeepLatest :: int64
  gl_VersionOffset :: int64
  gl_ExcludedSuffixes :: "string list"
  gl_RequireAllRegions :: bool
  gl_Parallel :: int64
  gl_ProjectName :: string
  gl_ProjectDomainName :: string
  gl_Username :: string
  gl_UserDomainName :: string
  gl_PasswordSecret :: SecretReference

record MachineImageUpdateSource =
  us_OCI :: "OCI option"
  us_Glance :: "GlanceSource option"

record MachineImagesUpdateProviderIroncoreMetal =
  im_Registry :: string
  im_Repository :: string

record MachineImageUpdateProvider =
  up_IroncoreMetal :: "MachineImagesUpdateProviderIroncoreMetal option"
  up_OpenStack :: "unit option"

record MachineImageUpdate =
  mu_Source :: MachineImageUpdateSource
  mu_Provider :: MachineImageUpdateProvider
  mu_ImageName :: string
  mu_MinVersionForUpdate :: "string option"

record CloudProfileSpec =
  cs_CABundle :: "string option"
  cs_Kubernetes :: KubernetesSettings
  cs_MachineImages :: "MachineImage list"
  cs_MachineTypes :: opaque
  cs_ProviderConfig :: "RawExtension option"
  cs_Regions :: opaque
  cs_SeedSelector :: opaque
  cs_Type :: string
  cs_VolumeTypes :: opaque
  cs_Bastion :: opaque
  cs_Limits :: opaque
  cs_MachineCapabilities :: "CapabilityDefinition list"
  cs_ControlPlane :: opaque

record ManagedCloudProfileSpec =
  ms_CloudProfile :: CloudProfileSpec
  ms_MachineImagesPaused :: bool
  ms_MachineImageUpdates :: "MachineImageUpdate list"
  ms_GarbageCollection :: "GarbageCollectionConfig option"
  ms_KubernetesUpdate :: "KubernetesVersionUpdateConfig option"

subsection \<open>Its status\<close>

datatype ReconcileStatus = UnsetReconcileStatus | SucceededReconcileStatus | FailedReconcileStatus

text \<open>
  A condition; the zero value of its transition time is \<^const>\<open>None\<close>, the zero value of its status the
  empty string.
\<close>

record Condition =
  co_Type :: string
  co_Status :: string
  co_ObservedGeneration :: int64
  co_LastTransitionTime :: "time option"
  co_Reason :: string
  co_Message :: string

definition ConditionTrue :: string where "ConditionTrue = ''True''"
definition ConditionFalse :: string where "ConditionFalse = ''False''"

record ManagedCloudProfileStatus =
  st_Status :: ReconcileStatus
  st_Conditions :: "Condition list"

record ManagedCloudProfile =
  mcp_Name :: string
  mcp_Generation :: int64
  mcp_Spec :: ManagedCloudProfileSpec
  mcp_Status :: ManagedCloudProfileStatus

record ManagedCloudProfileList =
  ml_meta :: opaque
  ml_Items :: "ManagedCloudProfile list"

text \<open>The zero values the program starts from.\<close>

definition zero_CloudProfileSpec :: GardenerCloudProfileSpec where
  "zero_CloudProfileSpec =
     \<lparr>gs_CABundle = None, gs_Kubernetes = \<lparr>ks_Versions = []\<rparr>, gs_MachineImages = [],
      gs_MachineTypes = [], gs_ProviderConfig = None, gs_Regions = [], gs_SeedSelector = [],
      gs_Type = [], gs_VolumeTypes = [], gs_Bastion = [], gs_Limits = [],
      gs_MachineCapabilities = [], gs_ControlPlane = []\<rparr>"

definition zero_Condition :: Condition where
  "zero_Condition =
     \<lparr>co_Type = [], co_Status = [], co_ObservedGeneration = 0, co_LastTransitionTime = None,
      co_Reason = [], co_Message = []\<rparr>"

end
