(* ===== verification/Capabilities.thy ===== *)
theory Capabilities
  imports ApiTypes
begin

section \<open>Machine image capabilities\<close>

text \<open>
  Models \<^verbatim>\<open>cloudprofilesync/ossync/capabilities.go\<close>: comparing two capability maps, merging a
  capability flavor into the flavors of an image version, and restricting the capabilities of an
  image to those that the CloudProfile declares.
\<close>

definition ArchitectureCapability :: string where
  "ArchitectureCapability = ''architecture''"

definition FeatureSetAnnotation :: string where
  "FeatureSetAnnotation = ''feature_set''"

definition caps_entries :: "Capabilities \<Rightarrow> (string, string list) gomap" where
  "caps_entries c = (case c of None \<Rightarrow> [] | Some m \<Rightarrow> m)"

abbreviation caps_ok :: "Capabilities \<Rightarrow> bool" where
  "caps_ok c \<equiv> gomap_ok (caps_entries c)"

abbreviation caps_map :: "Capabilities \<Rightarrow> string \<rightharpoonup> string list" where
  "caps_map c \<equiv> map_of (caps_entries c)"

lemma caps_entries_simps [simp]: "caps_entries None = []" "caps_entries (Some m) = m"
  by (simp_all add: caps_entries_def)

subsection \<open>Comparing capabilities\<close>

text \<open>The loop of \<^verbatim>\<open>CapabilitiesEqual\<close> over the entries of its first argument.\<close>

fun caps_all_in :: "(string, string list) gomap \<Rightarrow> (string, string list) gomap \<Rightarrow> bool" where
  "caps_all_in [] b = True"
| "caps_all_in ((k, aVals) # rest) b =
     (case map_of b k of
        None \<Rightarrow> False
      | Some bVals \<Rightarrow> if aVals \<noteq> bVals then False else caps_all_in rest b)"

definition CapabilitiesEqual :: "Capabilities \<Rightarrow> Capabilities \<Rightarrow> bool" where
  "CapabilitiesEqual a b =
     (if length (caps_entries a) \<noteq> length (caps_entries b) then False
      else caps_all_in (caps_entries a) (caps_entries b))"

lemma caps_all_in_iff: "caps_all_in a b \<longleftrightarrow> (\<forall>(k, v)\<in>set a. map_of b k = Some v)"
  by (induction a b rule: caps_all_in.induct) (auto split: option.splits)

lemma caps_all_in_map_le:
  assumes "gomap_ok a"
  shows "caps_all_in a b \<longleftrightarrow> map_of a \<subseteq>\<^sub>m map_of b"
  unfolding caps_all_in_iff map_le_def
  using assms by (auto simp: dom_def dest: map_of_SomeD)

text \<open>
  A map of the same size that contains another one is the other one: the entry count and the one-sided
  loop together decide equality of the maps.
\<close>

lemma map_le_same_size:
  assumes "gomap_ok a" "gomap_ok b" "length a = length b" "map_of a \<subseteq>\<^sub>m map_of b"
  shows "map_of a = map_of b"
proof -
  have "dom (map_of a) \<subseteq> dom (map_of b)"
    using assms(4) by (auto simp: map_le_def dom_def)
  moreover have "card (dom (map_of a)) = card (dom (map_of b))"
    using assms(1-3) by (simp flip: gomap_ok_length)
  ultimately have "dom (map_of a) = dom (map_of b)"
    by (simp add: card_subset_eq finite_dom_map_of)
  with assms(4) show ?thesis
    by (intro ext) (metis domIff map_le_def)
qed

lemma CapabilitiesEqual_iff_map:
  assumes "caps_ok a" "caps_ok b"
  shows "CapabilitiesEqual a b \<longleftrightarrow> caps_map a = caps_map b"
proof
  assume "CapabilitiesEqual a b"
  then have "length (caps_entries a) = length (caps_entries b)"
    "caps_all_in (caps_entries a) (caps_entries b)"
    by (auto simp: CapabilitiesEqual_def split: if_splits)
  with assms show "caps_map a = caps_map b"
    by (intro map_le_same_size) (simp_all add: caps_all_in_map_le)
next
  assume eq: "caps_map a = caps_map b"
  have "length (caps_entries a) = length (caps_entries b)"
    using eq assms gomap_ok_length by metis
  with assms eq show "CapabilitiesEqual a b"
    by (simp add: CapabilitiesEqual_def caps_all_in_map_le)
qed

lemma CapabilitiesEqual_refl: "caps_ok a \<Longrightarrow> CapabilitiesEqual a a"
  by (simp add: CapabilitiesEqual_iff_map)

subsection \<open>Flavors\<close>

fun has_flavor :: "MachineImageFlavor list \<Rightarrow> Capabilities \<Rightarrow> bool" where
  "has_flavor [] caps = False"
| "has_flavor (f # fs) caps =
     (if CapabilitiesEqual (mf_Capabilities f) caps then True else has_flavor fs caps)"

definition mergeCapabilityFlavor ::
  "MachineImageFlavor list \<Rightarrow> Capabilities \<Rightarrow> MachineImageFlavor list" where
  "mergeCapabilityFlavor existing caps =
     (if length (caps_entries caps) = 0 then existing
      else if has_flavor existing caps then existing
      else existing @ [\<lparr>mf_Capabilities = caps, mf_other = []\<rparr>])"

lemma has_flavor_iff:
  "has_flavor fs caps \<longleftrightarrow> (\<exists>f\<in>set fs. CapabilitiesEqual (mf_Capabilities f) caps)"
  by (induction fs) auto

lemma mergeCapabilityFlavor_has:
  "caps_ok caps \<Longrightarrow> caps_entries caps \<noteq> [] \<Longrightarrow> has_flavor (mergeCapabilityFlavor fs caps) caps"
  by (auto simp: mergeCapabilityFlavor_def has_flavor_iff CapabilitiesEqual_refl)

lemma has_flavor_merge_mono: "has_flavor fs c \<Longrightarrow> has_flavor (mergeCapabilityFlavor fs c') c"
  by (auto simp: mergeCapabilityFlavor_def has_flavor_iff)

lemma mergeCapabilityFlavor_id:
  "has_flavor fs caps \<or> caps_entries caps = [] \<Longrightarrow> mergeCapabilityFlavor fs caps = fs"
  by (auto simp: mergeCapabilityFlavor_def)

text \<open>The flavors of a version are pairwise different as capability maps.\<close>

definition flavors_ok :: "MachineImageFlavor list \<Rightarrow> bool" where
  "flavors_ok fs \<longleftrightarrow>
     (\<forall>f\<in>set fs. caps_ok (mf_Capabilities f)) \<and>
     distinct (map (\<lambda>f. caps_map (mf_Capabilities f)) fs)"

lemma mergeCapabilityFlavor_ok:
  assumes "flavors_ok fs" "caps_ok caps"
  shows "flavors_ok (mergeCapabilityFlavor fs caps)"
  using assms by (auto simp: mergeCapabilityFlavor_def flavors_ok_def has_flavor_iff
      CapabilitiesEqual_iff_map)

subsection \<open>Restricting to the declared capabilities\<close>

fun allowedCapabilityValues_loop ::
  "CapabilityDefinition list \<Rightarrow> (string, string set) gomap \<Rightarrow> (string, string set) gomap" where
  "allowedCapabilityValues_loop [] allowed = allowed"
| "allowedCapabilityValues_loop (cap # caps) allowed =
     allowedCapabilityValues_loop caps (map_put (cd_Name cap) (set (cd_Values cap)) allowed)"

definition allowedCapabilityValues :: "CapabilityDefinition list \<Rightarrow> (string, string set) gomap" where
  "allowedCapabilityValues caps = allowedCapabilityValues_loop caps []"

fun filterCapabilities_loop ::
  "(string, string set) gomap \<Rightarrow> (string, string list) gomap \<Rightarrow> (string, string list) gomap
   \<Rightarrow> (string, string list) gomap" where
  "filterCapabilities_loop allowed [] result = result"
| "filterCapabilities_loop allowed ((key, values) # rest) result =
     (case map_of allowed key of
        None \<Rightarrow> filterCapabilities_loop allowed rest result
      | Some allowedVals \<Rightarrow>
          (let filtered = filter (\<lambda>v. v \<in> allowedVals) values in
           filterCapabilities_loop allowed rest
             (if length filtered > 0 then map_put key filtered result else result)))"

definition filterCapabilities :: "Capabilities \<Rightarrow> (string, string set) gomap \<Rightarrow> Capabilities" where
  "filterCapabilities caps allowed =
     (if length allowed = 0 then None
      else let result = filterCapabilities_loop allowed (caps_entries caps) [] in
        if length result = 0 then None else Some result)"

text \<open>What the filter leaves of one entry.\<close>

definition allowed_part :: "(string, string set) gomap \<Rightarrow> string \<Rightarrow> string list \<Rightarrow> string list option" where
  "allowed_part allowed key values =
     (case map_of allowed key of
        None \<Rightarrow> None
      | Some vs \<Rightarrow> let f = filter (\<lambda>v. v \<in> vs) values in if f = [] then None else Some f)"

lemma filterCapabilities_loop_ok:
  "gomap_ok result \<Longrightarrow> gomap_ok (filterCapabilities_loop allowed caps result)"
  by (induction allowed caps result rule: filterCapabilities_loop.induct)
    (auto simp: Let_def gomap_ok_put split: option.splits)

lemma filterCapabilities_loop_map:
  assumes "gomap_ok caps" "fst ` set caps \<inter> dom (map_of result) = {}"
  shows "map_of (filterCapabilities_loop allowed caps result) k =
    (case map_of caps k of
       None \<Rightarrow> map_of result k
     | Some vs \<Rightarrow> allowed_part allowed k vs)"
  using assms
proof (induction allowed caps result rule: filterCapabilities_loop.induct)
  case (1 allowed result)
  then show ?case by simp
next
  case (2 allowed key vals rest result)
  have rest: "gomap_ok rest" "key \<notin> fst ` set rest" "map_of result key = None"
    using "2.prems" by auto
  then have key_rest: "map_of rest key = None" by (simp add: map_of_eq_None_iff)
  show ?case
  proof (cases "map_of allowed key")
    case None
    then have "map_of (filterCapabilities_loop allowed rest result) k =
        (case map_of rest k of None \<Rightarrow> map_of result k | Some vs \<Rightarrow> allowed_part allowed k vs)"
      using "2.IH"(1) "2.prems" by simp
    with None key_rest rest(3) show ?thesis by (auto simp: allowed_part_def)
  next
    case (Some av)
    let ?f = "filter (\<lambda>v. v \<in> av) vals"
    let ?r = "if length ?f > 0 then map_put key ?f result else result"
    have "fst ` set rest \<inter> dom (map_of ?r) = {}"
      using "2.prems"(2) rest(2) by (auto simp: map_of_map_put)
    then have "map_of (filterCapabilities_loop allowed rest ?r) k =
        (case map_of rest k of None \<Rightarrow> map_of ?r k | Some vs \<Rightarrow> allowed_part allowed k vs)"
      using "2.IH"(2) [OF Some refl] rest(1) by simp
    with Some key_rest rest(3) show ?thesis
      by (auto simp: allowed_part_def Let_def map_of_map_put split: option.split)
  qed
qed

lemma filterCapabilities_map:
  assumes "caps_ok caps"
  shows "caps_map (filterCapabilities caps allowed) k =
    Option.bind (caps_map caps k) (allowed_part allowed k)"
proof (cases "length allowed = 0")
  case True
  then show ?thesis
    by (cases "caps_map caps k") (simp_all add: filterCapabilities_def allowed_part_def)
next
  case False
  then have "caps_map (filterCapabilities caps allowed) k =
      map_of (filterCapabilities_loop allowed (caps_entries caps) []) k"
    by (simp add: filterCapabilities_def Let_def)
  also have "\<dots> = Option.bind (caps_map caps k) (allowed_part allowed k)"
    using assms by (simp add: filterCapabilities_loop_map split: option.split)
  finally show ?thesis .
qed

lemma filterCapabilities_ok: "caps_ok (filterCapabilities caps allowed)"
  by (simp add: filterCapabilities_def Let_def filterCapabilities_loop_ok)

text \<open>A filtered map is nil or has an entry: it is never an empty, non-nil map.\<close>

lemma filterCapabilities_nil:
  "filterCapabilities caps allowed = None \<longleftrightarrow> caps_entries (filterCapabilities caps allowed) = []"
  by (simp add: filterCapabilities_def Let_def)

lemma allowed_part_idem:
  "allowed_part allowed k vs = Some vs' \<Longrightarrow> allowed_part allowed k vs' = Some vs'"
  by (auto simp: allowed_part_def Let_def split: option.splits if_splits)

lemma filterCapabilities_idem:
  assumes "caps_ok caps"
  shows "caps_map (filterCapabilities (filterCapabilities caps allowed) allowed) =
    caps_map (filterCapabilities caps allowed)"
proof
  fix k
  show "caps_map (filterCapabilities (filterCapabilities caps allowed) allowed) k =
    caps_map (filterCapabilities caps allowed) k"
    using assms
    by (cases "caps_map caps k")
      (auto simp: filterCapabilities_map filterCapabilities_ok allowed_part_idem
        split: option.split bind_splits)
qed

lemma map_of_allowedCapabilityValues_loop:
  "map_of (allowedCapabilityValues_loop caps m) k =
     (case map_of (rev (map (\<lambda>c. (cd_Name c, set (cd_Values c))) caps)) k of
        None \<Rightarrow> map_of m k | Some vs \<Rightarrow> Some vs)"
  by (induction caps m rule: allowedCapabilityValues_loop.induct)
    (auto simp: map_of_map_put map_add_def split: option.splits)

lemma map_of_allowedCapabilityValues:
  "map_of (allowedCapabilityValues caps) k =
     map_of (rev (map (\<lambda>c. (cd_Name c, set (cd_Values c))) caps)) k"
  by (simp add: allowedCapabilityValues_def map_of_allowedCapabilityValues_loop split: option.split)

end
