(* ===== verification/KeyedList.thy ===== *)
theory KeyedList
  imports GoBase
begin

section \<open>Slices with an index map\<close>

text \<open>
  Three operations of the program (\<^verbatim>\<open>ImageUpdater.Apply\<close> and the two \<^verbatim>\<open>Configure\<close> methods) keep a map
  from a version to the position of its entry in a slice, and update or append entries through it.
  Here are the map, the indexed write (which panics out of range), the invariant that ties map and
  slice together, and the refinement of an indexed update to an update by key.
\<close>

text \<open>\<^verbatim>\<open>for i, v := range xs { m[key(v)] = i }\<close>\<close>

fun index_from :: "('a \<Rightarrow> string) \<Rightarrow> nat \<Rightarrow> 'a list \<Rightarrow> (string, nat) gomap \<Rightarrow> (string, nat) gomap" where
  "index_from key i [] m = m"
| "index_from key i (x # xs) m = index_from key (Suc i) xs (map_put (key x) i m)"

definition index_by :: "('a \<Rightarrow> string) \<Rightarrow> 'a list \<Rightarrow> (string, nat) gomap" where
  "index_by key xs = index_from key 0 xs []"

text \<open>\<^verbatim>\<open>xs[i] = f(xs[i])\<close>, with \<^const>\<open>None\<close> for the out-of-range panic.\<close>

definition modify_at :: "nat \<Rightarrow> ('a \<Rightarrow> 'a) \<Rightarrow> 'a list \<Rightarrow> 'a list option" where
  "modify_at i f xs = (if i < length xs then Some (xs[i := f (xs ! i)]) else None)"

text \<open>A loop whose body may panic.\<close>

fun fold_opt :: "('s \<Rightarrow> 'a \<Rightarrow> 's option) \<Rightarrow> 's \<Rightarrow> 'a list \<Rightarrow> 's option" where
  "fold_opt f s [] = Some s"
| "fold_opt f s (x # xs) = (case f s x of None \<Rightarrow> None | Some s' \<Rightarrow> fold_opt f s' xs)"

lemma fold_opt_append:
  "fold_opt f s (xs @ ys) = (case fold_opt f s xs of None \<Rightarrow> None | Some s' \<Rightarrow> fold_opt f s' ys)"
  by (induction xs arbitrary: s) (auto split: option.splits)

text \<open>A loop invariant of \<^const>\<open>fold_opt\<close>, with totality: no iteration panics.\<close>

lemma fold_opt_invariant:
  assumes "P s" and "\<And>s x. P s \<Longrightarrow> x \<in> set xs \<Longrightarrow> \<exists>s'. f s x = Some s' \<and> P s'"
  shows "\<exists>s'. fold_opt f s xs = Some s' \<and> P s'"
  using assms
proof (induction xs arbitrary: s)
  case Nil
  then show ?case by simp
next
  case (Cons x xs)
  then obtain s' where s': "f s x = Some s'" "P s'" by (meson list.set_intros(1))
  have "\<exists>t. fold_opt f s' xs = Some t \<and> P t"
    by (rule Cons.IH) (use Cons.prems s' in auto)
  with s' show ?case by simp
qed

text \<open>A simulation of a panicking loop by a total fold under an invariant.\<close>

lemma fold_opt_simulation:
  assumes "P s" and "\<And>s x. P s \<Longrightarrow> x \<in> set xs \<Longrightarrow> \<exists>s'. f s x = Some s' \<and> P s' \<and> view s' = g (view s) x"
  shows "\<exists>s'. fold_opt f s xs = Some s' \<and> P s' \<and> view s' = foldl g (view s) xs"
  using assms
proof (induction xs arbitrary: s)
  case Nil
  then show ?case by simp
next
  case (Cons x xs)
  then obtain s' where s': "f s x = Some s'" "P s'" "view s' = g (view s) x"
    by (meson list.set_intros(1))
  have "\<exists>t. fold_opt f s' xs = Some t \<and> P t \<and> view t = foldl g (view s') xs"
    by (rule Cons.IH) (use Cons.prems s' in auto)
  with s' show ?case by simp
qed

text \<open>The invariant: the map knows exactly the keys of the slice, at a position that has the key.\<close>

definition keys_ok :: "string list \<Rightarrow> (string, nat) gomap \<Rightarrow> bool" where
  "keys_ok ks m \<longleftrightarrow>
     (\<forall>k i. map_of m k = Some i \<longrightarrow> i < length ks \<and> ks ! i = k) \<and>
     (\<forall>k\<in>set ks. map_of m k \<noteq> None)"

abbreviation index_ok :: "('a \<Rightarrow> string) \<Rightarrow> 'a list \<Rightarrow> (string, nat) gomap \<Rightarrow> bool" where
  "index_ok key xs m \<equiv> keys_ok (map key xs) m"

lemma keys_okD: "keys_ok ks m \<Longrightarrow> map_of m k = Some i \<Longrightarrow> i < length ks \<and> ks ! i = k"
  unfolding keys_ok_def by blast

lemma index_okD:
  "index_ok key xs m \<Longrightarrow> map_of m k = Some i \<Longrightarrow> i < length xs \<and> key (xs ! i) = k"
  by (drule (1) keys_okD) auto

lemma keys_ok_None: "keys_ok ks m \<Longrightarrow> map_of m k = None \<longleftrightarrow> k \<notin> set ks"
  unfolding keys_ok_def by (metis nth_mem option.exhaust)

lemma keys_ok_Nil [simp]: "keys_ok [] []"
  by (simp add: keys_ok_def)

lemma keys_ok_snoc:
  assumes "keys_ok ks m"
  shows "keys_ok (ks @ [k]) (map_put k (length ks) m)"
  unfolding keys_ok_def
proof (intro conjI allI impI ballI)
  fix k' i
  assume "map_of (map_put k (length ks) m) k' = Some i"
  then have "k' = k \<and> i = length ks \<or> map_of m k' = Some i"
    by (rule map_put_SomeD)
  then have "i < length (ks @ [k]) \<and> (ks @ [k]) ! i = k'"
  proof
    assume "map_of m k' = Some i"
    from keys_okD [OF assms this] show ?thesis by (simp add: nth_append)
  qed simp
  then show "i < length (ks @ [k])" "(ks @ [k]) ! i = k'" by simp_all
next
  fix y assume "y \<in> set (ks @ [k])"
  then show "map_of (map_put k (length ks) m) y \<noteq> None"
    using keys_ok_None [OF assms, of y] by (auto simp: map_of_map_put)
qed

lemma index_ok_snoc:
  "index_ok key xs m \<Longrightarrow> index_ok key (xs @ [x]) (map_put (key x) (length xs) m)"
  using keys_ok_snoc [of "map key xs" m "key x"] by simp

lemma index_from_ok:
  "index_ok key ys m \<Longrightarrow> index_ok key (ys @ xs) (index_from key (length ys) xs m)"
proof (induction xs arbitrary: ys m)
  case Nil
  then show ?case by simp
next
  case (Cons x xs)
  have "index_ok key ((ys @ [x]) @ xs)
      (index_from key (length (ys @ [x])) xs (map_put (key x) (length ys) m))"
    by (rule Cons.IH) (rule index_ok_snoc [OF Cons.prems])
  then show ?case by simp
qed

lemma index_by_ok: "index_ok key xs (index_by key xs)"
  using index_from_ok [of key "[]" "[]" xs] by (simp add: index_by_def)

lemma index_ok_update:
  assumes "index_ok key xs m" "i < length xs" "key y = key (xs ! i)"
  shows "index_ok key (xs[i := y]) m"
proof -
  have "map key (xs[i := y]) = map key xs"
    using assms(2,3) by (simp add: map_update list_update_same_conv)
  with assms(1) show ?thesis by simp
qed

lemma modify_at_Some: "i < length xs \<Longrightarrow> modify_at i f xs = Some (xs[i := f (xs ! i)])"
  by (simp add: modify_at_def)

text \<open>
  The abstract update: change the entry with the key, or append. Under the invariant and distinct
  keys an indexed write is that update.
\<close>

definition update_key :: "('a \<Rightarrow> string) \<Rightarrow> string \<Rightarrow> ('a \<Rightarrow> 'a) \<Rightarrow> 'a list \<Rightarrow> 'a list" where
  "update_key key k f xs = map (\<lambda>x. if key x = k then f x else x) xs"

definition upsert_key ::
  "('a \<Rightarrow> string) \<Rightarrow> string \<Rightarrow> ('a \<Rightarrow> 'a) \<Rightarrow> 'a list \<Rightarrow> 'a list \<Rightarrow> 'a list" where
  "upsert_key key k f new xs = (if k \<in> key ` set xs then update_key key k f xs else xs @ new)"

lemma update_key_nth:
  assumes "distinct (map key xs)" "i < length xs"
  shows "xs[i := f (xs ! i)] = update_key key (key (xs ! i)) f xs"
proof (rule nth_equalityI)
  fix j assume j: "j < length (xs[i := f (xs ! i)])"
  have "key (xs ! j) = key (xs ! i) \<longleftrightarrow> j = i"
    using assms j by (metis distinct_conv_nth length_list_update length_map nth_map)
  with j assms(2) show "xs[i := f (xs ! i)] ! j = update_key key (key (xs ! i)) f xs ! j"
    by (simp add: update_key_def nth_list_update)
qed (simp add: update_key_def)

lemma update_key_keys [simp]:
  "(\<And>x. key (f x) = key x) \<Longrightarrow> map key (update_key key k f xs) = map key xs"
  by (simp add: update_key_def comp_def if_distrib cong: if_cong)

lemma update_key_comp:
  "(\<And>x. key (f x) = key x) \<Longrightarrow>
   update_key key k g (update_key key k f xs) = update_key key k (\<lambda>x. g (f x)) xs"
  by (induction xs) (simp_all add: update_key_def)

lemma update_key_notin: "k \<notin> key ` set xs \<Longrightarrow> update_key key k f xs = xs"
  unfolding update_key_def by (rule map_idI) auto

lemma modify_at_update_key:
  assumes "index_ok key xs m" "distinct (map key xs)" "map_of m k = Some i"
  shows "modify_at i f xs = Some (update_key key k f xs)"
  using index_okD [OF assms(1,3)] update_key_nth [OF assms(2)] by (simp add: modify_at_def)

text \<open>The entry of a key, under distinct keys.\<close>

definition entry_of :: "('a \<Rightarrow> string) \<Rightarrow> 'a list \<Rightarrow> string \<Rightarrow> 'a option" where
  "entry_of key xs k = find (\<lambda>x. key x = k) xs"

lemma entry_of_Nil [simp]: "entry_of key [] k = None"
  by (simp add: entry_of_def)

lemma entry_of_Cons [simp]:
  "entry_of key (x # xs) k = (if key x = k then Some x else entry_of key xs k)"
  by (simp add: entry_of_def)

lemma entry_of_None: "entry_of key xs k = None \<longleftrightarrow> k \<notin> key ` set xs"
  by (induction xs) auto

lemma entry_of_SomeD: "entry_of key xs k = Some x \<Longrightarrow> x \<in> set xs \<and> key x = k"
  by (induction xs) (auto split: if_splits)

lemma entry_of_unique:
  "distinct (map key xs) \<Longrightarrow> x \<in> set xs \<Longrightarrow> entry_of key xs (key x) = Some x"
  by (induction xs) (auto simp: image_iff)

lemma entry_of_append:
  "entry_of key (xs @ ys) k =
     (case entry_of key xs k of None \<Rightarrow> entry_of key ys k | Some x \<Rightarrow> Some x)"
  by (induction xs) auto

lemma entry_of_update_key:
  "(\<And>x. key (f x) = key x) \<Longrightarrow>
   entry_of key (update_key key k f xs) k' =
     (if k' = k then map_option f (entry_of key xs k) else entry_of key xs k')"
  by (induction xs) (auto simp: update_key_def)

text \<open>Slices with the same keys in the same order and the same entries are equal.\<close>

lemma entry_of_ext:
  assumes "map key xs = map key ys" "distinct (map key xs)"
    and "\<And>k. entry_of key xs k = entry_of key ys k"
  shows "xs = ys"
proof (rule nth_equalityI)
  show len: "length xs = length ys" using assms(1) by (metis length_map)
  fix i assume i: "i < length xs"
  have key: "key (xs ! i) = key (ys ! i)" using assms(1) i len by (metis nth_map)
  have d: "distinct (map key ys)" using assms(1,2) by metis
  have "entry_of key xs (key (xs ! i)) = Some (xs ! i)"
    by (rule entry_of_unique [OF assms(2) nth_mem [OF i]])
  moreover have "entry_of key ys (key (ys ! i)) = Some (ys ! i)"
    by (rule entry_of_unique [OF d nth_mem [OF i [unfolded len]]])
  ultimately show "xs ! i = ys ! i" using assms(3) [of "key (xs ! i)"] key by simp
qed

lemma entry_of_perm:
  assumes "mset xs = mset ys" "distinct (map key xs)"
  shows "entry_of key xs k = entry_of key ys k"
proof -
  have d: "distinct (map key ys)" by (metis assms mset_eq_imp_distinct_iff mset_map)
  have s: "set xs = set ys" by (metis assms(1) set_mset_mset)
  show ?thesis
  proof (cases "k \<in> key ` set xs")
    case True
    then obtain x where "x \<in> set xs" "key x = k" by blast
    then show ?thesis
      using entry_of_unique [OF assms(2), of x] entry_of_unique [OF d, of x] s by simp
  next
    case False
    then show ?thesis using s by (metis entry_of_None)
  qed
qed

lemma entry_of_upsert_key:
  assumes "\<And>x. key (f x) = key x" "key n = k"
  shows "entry_of key (upsert_key key k f [n] xs) k' =
    (if k' = k then Some (case entry_of key xs k of None \<Rightarrow> n | Some x \<Rightarrow> f x)
     else entry_of key xs k')"
proof (cases "k \<in> key ` set xs")
  case True
  then have "entry_of key xs k \<noteq> None" by (simp add: entry_of_None)
  with True assms(1) show ?thesis by (auto simp: upsert_key_def entry_of_update_key)
next
  case False
  then have "entry_of key xs k = None" by (simp add: entry_of_None)
  with False assms(2) show ?thesis
    by (auto simp: upsert_key_def entry_of_append split: option.split)
qed

lemma upsert_key_distinct_one:
  assumes "distinct (map key xs)" "\<And>x. key (f x) = key x" "key n = k"
  shows "distinct (map key (upsert_key key k f [n] xs))"
  using assms by (auto simp: upsert_key_def)

text \<open>After a run of upserts, the entry of a key that one item alone has is that item's update.\<close>

lemma entry_of_foldl_upsert:
  fixes item_key :: "'b \<Rightarrow> string"
  assumes "\<And>s x. key (f s x) = key x" "\<And>s. key (n s) = item_key s"
    and "\<forall>t\<in>set pre \<union> set post. item_key t \<noteq> item_key s"
  shows "entry_of key (foldl (\<lambda>xs s. upsert_key key (item_key s) (f s) [n s] xs) xs (pre @ s # post))
      (item_key s) =
    Some (case entry_of key xs (item_key s) of None \<Rightarrow> n s | Some x \<Rightarrow> f s x)"
proof -
  let ?g = "\<lambda>xs s. upsert_key key (item_key s) (f s) [n s] xs"
  have other: "entry_of key (foldl ?g ys ts) (item_key s) = entry_of key ys (item_key s)"
    if "\<forall>t\<in>set ts. item_key t \<noteq> item_key s" for ys ts
    using that
  proof (induction ts arbitrary: ys)
    case (Cons t ts)
    then have "item_key s \<noteq> item_key t" by auto
    then have "entry_of key (?g ys t) (item_key s) = entry_of key ys (item_key s)"
      using entry_of_upsert_key [of key "f t" "n t" "item_key t" ys "item_key s"] assms(1,2) by simp
    with Cons show ?case by simp
  qed simp
  show ?thesis
    using other [of post] other [of pre xs] assms
      entry_of_upsert_key [of key "f s" "n s" "item_key s" "foldl ?g xs pre" "item_key s"]
    by simp
qed

end
