(* ===== verification/GoStrings.thy ===== *)
theory GoStrings
  imports GoBase "HOL-Library.Sublist"
begin

section \<open>The functions used of package strings\<close>

text \<open>
  Executable definitions of the functions of Go's package \<^verbatim>\<open>strings\<close> that the program calls, on byte
  strings: \<^verbatim>\<open>ReplaceAll\<close>, \<^verbatim>\<open>Split\<close> and \<^verbatim>\<open>SplitN\<close> with a one-byte separator, \<^verbatim>\<open>TrimSpace\<close>,
  \<^verbatim>\<open>TrimPrefix\<close>, \<^verbatim>\<open>CutPrefix\<close>, \<^verbatim>\<open>HasSuffix\<close>, \<^verbatim>\<open>Contains\<close>, \<^verbatim>\<open>LastIndex\<close> and \<^verbatim>\<open>ToLower\<close>, with the
  characteristic lemmas the components use.
\<close>

subsection \<open>ReplaceAll\<close>

fun str_ReplaceAll :: "string \<Rightarrow> string \<Rightarrow> string \<Rightarrow> string" where
  "str_ReplaceAll old new [] = []"
| "str_ReplaceAll old new (c # cs) =
     (if old \<noteq> [] \<and> prefix old (c # cs)
      then new @ str_ReplaceAll old new (drop (length old - 1) cs)
      else c # str_ReplaceAll old new cs)"

lemma str_ReplaceAll_char [go_simps]:
  "str_ReplaceAll [a] [b] s = map (\<lambda>c. if c = a then b else c) s"
  by (induction s) auto

subsection \<open>Split and SplitN\<close>

fun str_Split :: "char \<Rightarrow> string \<Rightarrow> string list" where
  "str_Split sep [] = [[]]"
| "str_Split sep (c # cs) =
     (if c = sep then [] # str_Split sep cs
      else (case str_Split sep cs of [] \<Rightarrow> [[c]] | p # ps \<Rightarrow> (c # p) # ps))"

text \<open>\<open>str_Cut sep s\<close> is the part before and the part after the first separator.\<close>

fun str_Cut :: "char \<Rightarrow> string \<Rightarrow> (string \<times> string) option" where
  "str_Cut sep [] = None"
| "str_Cut sep (c # cs) =
     (if c = sep then Some ([], cs)
      else map_option (\<lambda>(p, r). (c # p, r)) (str_Cut sep cs))"

fun str_SplitN :: "char \<Rightarrow> nat \<Rightarrow> string \<Rightarrow> string list" where
  "str_SplitN sep 0 s = []"
| "str_SplitN sep (Suc 0) s = [s]"
| "str_SplitN sep (Suc (Suc n)) s =
     (case str_Cut sep s of
        None \<Rightarrow> [s]
      | Some (p, r) \<Rightarrow> p # str_SplitN sep (Suc n) r)"

fun str_Join :: "char \<Rightarrow> string list \<Rightarrow> string" where
  "str_Join sep [] = []"
| "str_Join sep [p] = p"
| "str_Join sep (p # ps) = p @ sep # str_Join sep ps"

lemma str_Split_ne [simp]: "str_Split sep s \<noteq> []"
  by (induction s) (auto split: list.splits)

lemma str_Join_Cons: "ps \<noteq> [] \<Longrightarrow> str_Join sep (p # ps) = p @ sep # str_Join sep ps"
  by (cases ps) auto

lemma str_Join_Split: "str_Join sep (str_Split sep s) = s"
proof (induction s)
  case Nil
  then show ?case by simp
next
  case (Cons c cs)
  show ?case
  proof (cases "c = sep")
    case True
    with Cons show ?thesis by (simp add: str_Join_Cons)
  next
    case False
    obtain p ps where "str_Split sep cs = p # ps" by (cases "str_Split sep cs") auto
    with False Cons show ?thesis by (cases ps) auto
  qed
qed

lemma str_Split_no_sep: "\<forall>p\<in>set (str_Split sep s). sep \<notin> set p"
proof (induction s)
  case Nil
  then show ?case by simp
next
  case (Cons c cs)
  obtain p ps where "str_Split sep cs = p # ps" by (cases "str_Split sep cs") auto
  with Cons show ?case by auto
qed

lemma str_Split_append_sep: "str_Split sep (a @ sep # b) = str_Split sep a @ str_Split sep b"
  by (induction a) (auto split: list.splits)

lemma str_Split_id: "sep \<notin> set s \<Longrightarrow> str_Split sep s = [s]"
  by (induction s) auto

lemma str_Cut_append [simp]: "sep \<notin> set p \<Longrightarrow> str_Cut sep (p @ sep # r) = Some (p, r)"
  by (induction p) auto

lemma str_Cut_SomeD: "str_Cut sep s = Some (p, r) \<Longrightarrow> s = p @ sep # r \<and> sep \<notin> set p"
proof (induction s arbitrary: p)
  case Nil
  then show ?case by simp
next
  case (Cons c cs)
  then show ?case by (cases "c = sep") auto
qed

lemma str_Cut_Some:
  "str_Cut sep s = Some (p, r) \<longleftrightarrow> s = p @ sep # r \<and> sep \<notin> set p"
  using str_Cut_SomeD by auto

lemma str_Cut_None: "str_Cut sep s = None \<longleftrightarrow> sep \<notin> set s"
  by (induction s) (auto)

subsection \<open>TrimSpace\<close>

text \<open>
  The UTF-8 encodings of the Unicode white space characters, and trimming them on both sides.
  A byte that is not part of one of them stops the trimming, as an invalid or a non-space rune does.
\<close>

definition go_spaces :: "string list" where
  "go_spaces =
     map (\<lambda>n. [char_of (n::nat)]) [9, 10, 11, 12, 13, 32] @
     map (map (\<lambda>n. char_of (n::nat)))
       ([[0xC2, 0x85], [0xC2, 0xA0], [0xE1, 0x9A, 0x80], [0xE2, 0x80, 0xA8], [0xE2, 0x80, 0xA9],
         [0xE2, 0x80, 0xAF], [0xE2, 0x81, 0x9F], [0xE3, 0x80, 0x80]] @
        map (\<lambda>n. [0xE2, 0x80, 0x80 + n]) [0, 1, 2, 3, 4, 5, 6, 7, 8, 9, 10])"

fun leading_space :: "string list \<Rightarrow> string \<Rightarrow> nat" where
  "leading_space [] s = 0"
| "leading_space (w # ws) s = (if w \<noteq> [] \<and> prefix w s then length w else leading_space ws s)"

lemma leading_space_le: "leading_space ws s \<le> length s"
  by (induction ws) (auto dest: prefix_length_le)

function trim_with :: "string list \<Rightarrow> string \<Rightarrow> string" where
  "trim_with ws s =
     (if leading_space ws s = 0 then s else trim_with ws (drop (leading_space ws s) s))"
  by pat_completeness auto
termination
proof (relation "measure (\<lambda>(ws, s). length s)")
  fix ws s
  assume n: "leading_space ws s \<noteq> 0"
  then have "s \<noteq> []" using leading_space_le [of ws s] by auto
  with n show "((ws, drop (leading_space ws s) s), (ws, s)) \<in> measure (\<lambda>(ws, s). length s)"
    by simp
qed simp

declare trim_with.simps [simp del]

definition str_TrimSpace :: "string \<Rightarrow> string" where
  "str_TrimSpace s = rev (trim_with (map rev go_spaces) (rev (trim_with go_spaces s)))"

lemma trim_with_suffix: "suffix (trim_with ws s) s"
proof (induction ws s rule: trim_with.induct)
  case (1 ws s)
  show ?case
  proof (cases "leading_space ws s = 0")
    case True
    then show ?thesis by (simp add: trim_with.simps [of ws s])
  next
    case False
    then have "suffix (trim_with ws s) (drop (leading_space ws s) s)"
      using "1.IH" by (simp add: trim_with.simps [of ws s])
    then show ?thesis by (meson suffix_drop suffix_order.trans)
  qed
qed

lemma trim_with_fixed: "leading_space ws (trim_with ws s) = 0"
proof (induction ws s rule: trim_with.induct)
  case (1 ws s)
  then show ?case by (cases "leading_space ws s = 0") (simp_all add: trim_with.simps [of ws s])
qed

lemma trim_with_id: "leading_space ws s = 0 \<Longrightarrow> trim_with ws s = s"
  by (simp add: trim_with.simps [of ws s])

lemma set_trim_with: "set (trim_with ws s) \<subseteq> set s"
  by (rule set_mono_suffix [OF trim_with_suffix])

lemma str_TrimSpace_set: "set (str_TrimSpace s) \<subseteq> set s"
  using set_trim_with [of "map rev go_spaces" "rev (trim_with go_spaces s)"]
    set_trim_with [of go_spaces s]
  by (auto simp: str_TrimSpace_def)

lemma leading_space_0:
  "leading_space ws s = 0 \<longleftrightarrow> (\<forall>w\<in>set ws. w \<noteq> [] \<longrightarrow> \<not> prefix w s)"
  by (induction ws) auto

lemma str_TrimSpace_id:
  assumes "\<And>w. w \<in> set go_spaces \<Longrightarrow> \<not> prefix w s \<and> \<not> suffix w s"
  shows "str_TrimSpace s = s"
proof -
  have "trim_with go_spaces s = s"
    by (rule trim_with_id) (use assms in \<open>simp add: leading_space_0\<close>)
  moreover have "trim_with (map rev go_spaces) (rev s) = rev s"
    by (rule trim_with_id) (use assms in \<open>simp add: leading_space_0 suffix_to_prefix\<close>)
  ultimately show ?thesis by (simp add: str_TrimSpace_def)
qed

subsection \<open>Subsequences\<close>

lemma subseq_set_subset: "subseq xs ys \<Longrightarrow> set xs \<subseteq> set ys"
  by (induction rule: list_emb.induct) auto

lemma subseq_sorted_wrt: "subseq xs ys \<Longrightarrow> sorted_wrt P ys \<Longrightarrow> sorted_wrt P xs"
proof (induction rule: list_emb.induct)
  case (list_emb_Cons2 x y xs ys)
  then show ?case using subseq_set_subset by auto
qed auto

subsection \<open>Prefixes, suffixes, substrings\<close>

definition str_TrimPrefix :: "string \<Rightarrow> string \<Rightarrow> string" where
  "str_TrimPrefix p s = (if prefix p s then drop (length p) s else s)"

definition str_CutPrefix :: "string \<Rightarrow> string \<Rightarrow> string option" where
  "str_CutPrefix p s = (if prefix p s then Some (drop (length p) s) else None)"

fun str_Contains :: "string \<Rightarrow> string \<Rightarrow> bool" where
  "str_Contains [] sub = (sub = [])"
| "str_Contains (c # cs) sub = (prefix sub (c # cs) \<or> str_Contains cs sub)"

lemma str_CutPrefix_Some: "str_CutPrefix p s = Some r \<longleftrightarrow> s = p @ r"
  by (auto simp: str_CutPrefix_def prefix_def)

lemma str_CutPrefix_None: "str_CutPrefix p s = None \<longleftrightarrow> \<not> prefix p s"
  by (auto simp: str_CutPrefix_def)

lemma str_Contains_sublist: "str_Contains s sub \<longleftrightarrow> sublist sub s"
  by (induction s) (auto simp: sublist_Cons_right)

text \<open>\<^verbatim>\<open>LastIndex\<close> of a one-byte substring, and the parts of a string around it.\<close>

definition str_LastIndex :: "char \<Rightarrow> string \<Rightarrow> nat option" where
  "str_LastIndex c s = map_option (\<lambda>i. length s - 1 - i) (IndexFunc (\<lambda>x. x = c) (rev s))"

lemma IndexFunc_char_append:
  "c \<notin> set a \<Longrightarrow> IndexFunc (\<lambda>x. x = c) (a @ c # b) = Some (length a)"
  by (induction a) auto

lemma str_LastIndex_append: "c \<notin> set b \<Longrightarrow> str_LastIndex c (a @ c # b) = Some (length a)"
  by (simp add: str_LastIndex_def IndexFunc_char_append)

lemma str_LastIndex_None: "str_LastIndex c s = None \<longleftrightarrow> c \<notin> set s"
  by (auto simp: str_LastIndex_def IndexFunc_None)

lemma str_LastIndex_Some:
  assumes "str_LastIndex c s = Some i"
  shows "s = take i s @ c # drop (Suc i) s \<and> c \<notin> set (drop (Suc i) s)"
proof -
  from assms have "c \<in> set s" by (metis option.distinct(1) str_LastIndex_None)
  then obtain a b where s: "s = a @ c # b" "c \<notin> set b" by (meson split_list_last)
  with assms have "i = length a" using str_LastIndex_append [of c b a] by simp
  with s show ?thesis by simp
qed

subsection \<open>ToLower\<close>

text \<open>
  On ASCII strings the 26 capital letters are mapped. For a string with other bytes Go consults its
  Unicode tables, which are the argument \<open>unicode\<close>.
\<close>

definition ascii_lower :: "char \<Rightarrow> char" where
  "ascii_lower c =
     (if 65 \<le> (of_char c :: nat) \<and> (of_char c :: nat) \<le> 90 then char_of (of_char c + 32 :: nat) else c)"

definition str_ToLower :: "(string \<Rightarrow> string) \<Rightarrow> string \<Rightarrow> string" where
  "str_ToLower unicode s =
     (if list_all (\<lambda>c. (of_char c :: nat) < 128) s then map ascii_lower s else unicode s)"

text \<open>A text whose first and last bytes are printable and of ASCII is not trimmed.\<close>

definition printable :: "char \<Rightarrow> bool" where
  "printable c \<longleftrightarrow> 33 \<le> (of_char c :: nat) \<and> (of_char c :: nat) < 128"

lemma go_spaces_ends: "w \<in> set go_spaces \<Longrightarrow> w \<noteq> [] \<and> \<not> printable (hd w) \<and> \<not> printable (last w)"
  by (auto simp: go_spaces_def printable_def)

lemma trim_with_none:
  assumes "\<forall>w\<in>set ws. w \<noteq> [] \<and> \<not> printable (hd w)" "s \<noteq> [] \<Longrightarrow> printable (hd s)"
  shows "trim_with ws s = s"
proof -
  have "leading_space ws s = 0"
    using assms by (induction ws) (auto simp: prefix_def)
  then show ?thesis by (simp add: trim_with.simps)
qed

lemma str_TrimSpace_printable: "s \<noteq> [] \<Longrightarrow> printable (hd s) \<Longrightarrow> printable (last s) \<Longrightarrow> str_TrimSpace s = s"
  by (simp add: str_TrimSpace_def trim_with_none go_spaces_ends hd_rev)

end
