(* ===== verification/Semver.thy ===== *)
theory Semver
  imports GoStrings
begin

section \<open>The semantic-version library as a parameter\<close>

text \<open>
  The program calls \<^verbatim>\<open>github.com/blang/semver/v4\<close>, which is not part of the repository. Its four
  functions are the fields of a record that every definition using them takes as an argument;
  \<open>'v\<close> is the library's type of parsed versions. The behaviour that a theorem relies on is one of the
  named hypotheses below:
  \<^item> \<open>semver_order\<close>: \<^verbatim>\<open>Compare\<close> is a three-way comparison (it ignores build metadata, so different
    versions may compare as equal);
  \<^item> \<open>semver_canonical\<close>: printing a version that the tolerant parser returned gives a string that
    the strict parser reads back;
  \<^item> \<open>semver_tolerant\<close>: the tolerant parser accepts what the strict parser accepts, with the same
    result.
\<close>

record 'v semver =
  sv_Parse :: "string \<Rightarrow> goerror + 'v"
  sv_ParseTolerant :: "string \<Rightarrow> goerror + 'v"
  sv_String :: "'v \<Rightarrow> string"
  sv_Compare :: "'v \<Rightarrow> 'v \<Rightarrow> int"

definition semver_order :: "'v semver \<Rightarrow> bool" where
  "semver_order L \<longleftrightarrow> comparator (sv_Compare L)"

definition semver_canonical :: "'v semver \<Rightarrow> bool" where
  "semver_canonical L \<longleftrightarrow>
     (\<forall>s v. sv_ParseTolerant L s = Inr v \<longrightarrow> sv_Parse L (sv_String L v) = Inr v)"

definition semver_tolerant :: "'v semver \<Rightarrow> bool" where
  "semver_tolerant L \<longleftrightarrow> (\<forall>s v. sv_Parse L s = Inr v \<longrightarrow> sv_ParseTolerant L s = Inr v)"

definition sv_valid :: "'v semver \<Rightarrow> string \<Rightarrow> bool" where
  "sv_valid L s \<longleftrightarrow> (\<exists>v. sv_Parse L s = Inr v)"

definition sv_parsable :: "'v semver \<Rightarrow> string \<Rightarrow> bool" where
  "sv_parsable L s \<longleftrightarrow> (\<exists>v. sv_ParseTolerant L s = Inr v)"

lemma sv_valid_iff: "sv_valid L s \<longleftrightarrow> (case sv_Parse L s of Inl e \<Rightarrow> False | Inr v \<Rightarrow> True)"
  by (auto simp: sv_valid_def split: sum.splits)

lemma semver_canonical_valid:
  "semver_canonical L \<Longrightarrow> sv_ParseTolerant L s = Inr v \<Longrightarrow> sv_valid L (sv_String L v)"
  by (auto simp: semver_canonical_def sv_valid_def)

lemma semver_canonical_fixed:
  "semver_canonical L \<Longrightarrow> semver_tolerant L \<Longrightarrow> sv_ParseTolerant L s = Inr v \<Longrightarrow>
   sv_ParseTolerant L (sv_String L v) = Inr v"
  unfolding semver_canonical_def semver_tolerant_def by blast

subsection \<open>A concrete library for the witnesses\<close>

text \<open>
  Versions of exactly three decimal numbers, compared number by number; the tolerant parser drops
  a leading \<^verbatim>\<open>v\<close> and fills missing numbers with 0. It satisfies the three hypotheses.
\<close>

definition is_digit :: "char \<Rightarrow> bool" where
  "is_digit c \<longleftrightarrow> 48 \<le> (of_char c :: nat) \<and> (of_char c :: nat) \<le> 57"

definition is_number :: "string \<Rightarrow> bool" where
  "is_number s \<longleftrightarrow> s \<noteq> [] \<and> list_all is_digit s"

definition read_nat :: "string \<Rightarrow> nat" where
  "read_nat s = foldl (\<lambda>a c. 10 * a + (of_char c - 48)) 0 s"

fun show_nat :: "nat \<Rightarrow> string" where
  "show_nat n =
     (if n < 10 then [char_of (48 + n)] else show_nat (n div 10) @ [char_of (48 + n mod 10)])"

declare show_nat.simps [simp del]

definition plain_parts :: "string list \<Rightarrow> goerror + nat list" where
  "plain_parts ps =
     (if length ps = 3 \<and> list_all is_number ps then Inr (map read_nat ps)
      else Inl (ExtErr ''invalid version''))"

definition plain_Parse :: "string \<Rightarrow> goerror + nat list" where
  "plain_Parse s = plain_parts (str_Split CHR ''.'' s)"

definition plain_ParseTolerant :: "string \<Rightarrow> goerror + nat list" where
  "plain_ParseTolerant s =
     (let ps = str_Split CHR ''.'' (str_TrimPrefix ''v'' s)
      in plain_parts (ps @ replicate (3 - length ps) ''0''))"

definition plain_String :: "nat list \<Rightarrow> string" where
  "plain_String v = str_Join CHR ''.'' (map show_nat v)"

definition plain_semver :: "nat list semver" where
  "plain_semver =
     \<lparr>sv_Parse = plain_Parse, sv_ParseTolerant = plain_ParseTolerant, sv_String = plain_String,
      sv_Compare = cmp_Compare\<rparr>"

lemma of_char_digit [simp]: "n < 10 \<Longrightarrow> of_char (char_of (48 + n :: nat)) = 48 + n"
  by simp

lemma show_nat_number: "is_number (show_nat n)"
proof (induction n rule: show_nat.induct)
  case (1 n)
  then show ?case
    by (cases "n < 10") (auto simp: show_nat.simps [of n] is_number_def is_digit_def)
qed

lemma read_show_nat: "read_nat (show_nat n) = n"
proof (induction n rule: show_nat.induct)
  case (1 n)
  then show ?case
    by (cases "n < 10") (simp_all add: show_nat.simps [of n] read_nat_def)
qed

lemma is_number_no: "is_number s \<Longrightarrow> \<not> is_digit c \<Longrightarrow> c \<notin> set s"
  by (auto simp: is_number_def list_all_iff)

lemma dot_not_digit: "\<not> is_digit CHR ''.''"
  by (simp add: is_digit_def)

lemma str_Split_Join:
  "ps \<noteq> [] \<Longrightarrow> \<forall>p\<in>set ps. sep \<notin> set p \<Longrightarrow> str_Split sep (str_Join sep ps) = ps"
proof (induction ps rule: induct_list012)
  case (3 p q ps)
  then show ?case by (simp add: str_Split_append_sep str_Split_id)
qed (simp_all add: str_Split_id)

lemma plain_Parse_String: "length v = 3 \<Longrightarrow> plain_Parse (plain_String v) = Inr v"
proof -
  assume v: "length v = 3"
  have "str_Split CHR ''.'' (plain_String v) = map show_nat v"
    unfolding plain_String_def
    by (rule str_Split_Join) (use v in \<open>auto simp: is_number_no [OF show_nat_number dot_not_digit]\<close>)
  with v show ?thesis
    by (simp add: plain_Parse_def plain_parts_def list_all_iff show_nat_number comp_def read_show_nat)
qed

lemma plain_parts_length: "plain_parts ps = Inr v \<Longrightarrow> length v = 3"
  by (auto simp: plain_parts_def split: if_splits)

lemma plain_canonical: "semver_canonical plain_semver"
  unfolding semver_canonical_def plain_semver_def
  by (auto simp: plain_ParseTolerant_def Let_def dest!: plain_parts_length intro!: plain_Parse_String)

lemma plain_Parse_head:
  assumes "plain_Parse s = Inr v"
  shows "\<not> prefix ''v'' s"
proof
  assume "prefix ''v'' s"
  then obtain r where s: "s = CHR ''v'' # r" by (auto simp: prefix_def)
  then obtain p ps where split: "str_Split CHR ''.'' s = (CHR ''v'' # p) # ps"
    by (cases "str_Split CHR ''.'' r") auto
  with assms have "is_number (CHR ''v'' # p)"
    by (auto simp: plain_Parse_def plain_parts_def split: if_splits)
  then show False by (simp add: is_number_def is_digit_def)
qed

lemma plain_tolerant: "semver_tolerant plain_semver"
proof -
  have "plain_ParseTolerant s = Inr v" if "plain_Parse s = Inr v" for s v
  proof -
    from that have "length (str_Split CHR ''.'' s) = 3"
      by (auto simp: plain_Parse_def plain_parts_def split: if_splits)
    with that plain_Parse_head [OF that] show ?thesis
      by (simp add: plain_Parse_def plain_ParseTolerant_def str_TrimPrefix_def)
  qed
  then show ?thesis by (simp add: semver_tolerant_def plain_semver_def)
qed

interpretation plain_cmp: comparator "cmp_Compare :: nat list \<Rightarrow> nat list \<Rightarrow> int"
  by unfold_locales auto

lemma plain_order: "semver_order plain_semver"
  by (simp add: semver_order_def plain_semver_def plain_cmp.comparator_axioms)

end
