(* ===== verification/ImageUpdater.thy ===== *)
theory ImageUpdater
  imports Capabilities KeyedList Semver
begin

section \<open>The machine image updater\<close>

text \<open>
  Models \<^verbatim>\<open>cloudprofilesync/ossync/os_image_updater.go\<close>: the images that a source delivers, their
  validation and ordering (\<^verbatim>\<open>Fetch\<close>), and their entry into the machine images of a CloudProfile
  (\<^verbatim>\<open>Apply\<close>). The semantic-version library is the parameter \<open>L\<close>; source, provider and filter are
  fields of the updater, as the interfaces are in the code.
\<close>

subsection \<open>Source images\<close>

record RegionImage =
  ri_Region :: string
  ri_ID :: string

record SourceImage =
  si_Version :: string
  si_CleanVersion :: string
  si_Architectures :: "string list"
  si_Capabilities :: Capabilities
  si_SupportInPlaceUpdate :: bool
  si_Regions :: "RegionImage list"
  si_Classification :: "VersionClassification option"
  si_ExpirationDate :: "time option"

definition effectiveVersion :: "SourceImage \<Rightarrow> string" where
  "effectiveVersion s = (if si_CleanVersion s \<noteq> [] then si_CleanVersion s else si_Version s)"

subsection \<open>The updater and its interfaces\<close>

type_synonym Configure = "RawExtension option \<Rightarrow> SourceImage list \<Rightarrow> RawExtension option outcome"

record ImageUpdater =
  iu_Source :: "SourceImage list outcome"  \<comment> \<open>what \<^verbatim>\<open>Source.GetVersions\<close> answers\<close>
  iu_Provider :: "Configure option"
  iu_ImageName :: string
  iu_EnableCapabilities :: bool
  iu_MinVersionForUpdate :: "string option"
  iu_Filter :: "(SourceImage list \<Rightarrow> SourceImage list) option"

subsection \<open>Validation\<close>

text \<open>
  One iteration of \<^verbatim>\<open>validateImageVersions\<close>: \<^const>\<open>None\<close> drops the image; an image that stays has its
  clean version normalised, or cleared when it does not parse.
\<close>

definition validate_clean :: "'v semver \<Rightarrow> SourceImage \<Rightarrow> bool \<times> SourceImage" where
  "validate_clean L version =
     (if si_CleanVersion version \<noteq> [] then
        (case sv_ParseTolerant L (si_CleanVersion version) of
           Inr parsed \<Rightarrow> (True, version\<lparr>si_CleanVersion := sv_String L parsed\<rparr>)
         | Inl err \<Rightarrow> (False, version\<lparr>si_CleanVersion := []\<rparr>))
      else (False, version))"

definition validate_one :: "'v semver \<Rightarrow> SourceImage \<Rightarrow> SourceImage option" where
  "validate_one L version =
     (if length (si_Architectures version) = 0 then None
      else
        let validLegacyTag = (case sv_Parse L (si_Version version) of Inr _ \<Rightarrow> True | Inl _ \<Rightarrow> False);
            (validCleanVersion, version') = validate_clean L version
        in if \<not> validLegacyTag \<and> \<not> validCleanVersion then None else Some version')"

fun validateImageVersions :: "'v semver \<Rightarrow> SourceImage list \<Rightarrow> SourceImage list" where
  "validateImageVersions L [] = []"
| "validateImageVersions L (v # vs) =
     (case validate_one L v of
        None \<Rightarrow> validateImageVersions L vs
      | Some v' \<Rightarrow> v' # validateImageVersions L vs)"

lemma validateImageVersions_eq: "validateImageVersions L vs = List.map_filter (validate_one L) vs"
  by (induction vs) (auto simp: List.map_filter_simps split: option.splits)

lemma set_validateImageVersions:
  "y \<in> set (validateImageVersions L vs) \<longleftrightarrow> (\<exists>x\<in>set vs. validate_one L x = Some y)"
  by (induction vs) (auto split: option.splits)

lemma mset_map_filter:
  "mset (List.map_filter f xs) = image_mset (the \<circ> f) (filter_mset (\<lambda>x. f x \<noteq> None) (mset xs))"
  by (simp add: List.map_filter_def)

lemma mset_validateImageVersions:
  "mset xs = mset ys \<Longrightarrow> mset (validateImageVersions L xs) = mset (validateImageVersions L ys)"
  by (simp add: validateImageVersions_eq mset_map_filter)

text \<open>What validation guarantees of an image.\<close>

definition valid_source :: "'v semver \<Rightarrow> SourceImage \<Rightarrow> bool" where
  "valid_source L s \<longleftrightarrow>
     si_Architectures s \<noteq> [] \<and>
     (si_CleanVersion s \<noteq> [] \<longrightarrow> sv_valid L (si_CleanVersion s)) \<and>
     (sv_valid L (si_Version s) \<or> sv_valid L (si_CleanVersion s))"

lemma validate_clean_cases:
  obtains "si_CleanVersion v = []" "validate_clean L v = (False, v)"
  | p where "si_CleanVersion v \<noteq> []" "sv_ParseTolerant L (si_CleanVersion v) = Inr p"
      "validate_clean L v = (True, v\<lparr>si_CleanVersion := sv_String L p\<rparr>)"
  | e where "si_CleanVersion v \<noteq> []" "sv_ParseTolerant L (si_CleanVersion v) = Inl e"
      "validate_clean L v = (False, v\<lparr>si_CleanVersion := []\<rparr>)"
  by (cases "si_CleanVersion v = []"; cases "sv_ParseTolerant L (si_CleanVersion v)")
    (auto simp: validate_clean_def)

lemma validate_one_Some:
  "validate_one L v = Some w \<longleftrightarrow>
     si_Architectures v \<noteq> [] \<and> w = snd (validate_clean L v) \<and>
     (sv_valid L (si_Version v) \<or> fst (validate_clean L v))"
  by (auto simp: validate_one_def Let_def sv_valid_def split: prod.splits sum.splits)

lemma snd_validate_clean [simp]:
  "si_Version (snd (validate_clean L v)) = si_Version v"
  "si_Architectures (snd (validate_clean L v)) = si_Architectures v"
  "si_Capabilities (snd (validate_clean L v)) = si_Capabilities v"
  by (cases v rule: validate_clean_cases [where L = L]; simp)+

lemma validate_one_frame:
  "validate_one L v = Some w \<Longrightarrow>
   si_Version w = si_Version v \<and> si_Architectures w = si_Architectures v \<and>
   si_Capabilities w = si_Capabilities v"
  by (simp add: validate_one_Some)

lemma validate_one_valid:
  assumes "semver_canonical L" "validate_one L v = Some w"
  shows "valid_source L w"
proof (cases v rule: validate_clean_cases [where L = L])
  case 1
  then show ?thesis using assms(2) by (auto simp: validate_one_Some valid_source_def)
next
  case (2 p)
  then have "sv_valid L (sv_String L p)"
    by (intro semver_canonical_valid [OF assms(1)])
  with 2 assms(2) show ?thesis by (auto simp: validate_one_Some valid_source_def)
next
  case (3 e)
  then show ?thesis using assms(2) by (auto simp: validate_one_Some valid_source_def)
qed

subsection \<open>Fetch\<close>

definition source_cmp :: "SourceImage \<Rightarrow> SourceImage \<Rightarrow> int" where
  "source_cmp a b =
     (let c = cmp_Compare (effectiveVersion a) (effectiveVersion b) in
      if c \<noteq> 0 then c else cmp_Compare (si_Version a) (si_Version b))"

definition Fetch :: "'v semver \<Rightarrow> ImageUpdater \<Rightarrow> SourceImage list outcome" where
  "Fetch L iu =
     bindO (wrapO ''failed to retrieve image versions from OCI registry: %w'' [] (iu_Source iu))
       (\<lambda>sourceImages.
         let sourceImages = SortFunc source_cmp (validateImageVersions L sourceImages)
         in Ok (case iu_Filter iu of None \<Rightarrow> sourceImages | Some f \<Rightarrow> f sourceImages))"

lemma source_cmp_key2: "source_cmp = compare_key2 effectiveVersion si_Version"
  by (intro ext) (simp add: source_cmp_def compare_key2_def)

interpretation source_cmp: comparator source_cmp
  unfolding source_cmp_key2 by (rule comparator_key2)

subsection \<open>Apply\<close>

definition resolveExpiration :: "SourceImage \<Rightarrow> time option \<Rightarrow> time option" where
  "resolveExpiration src existing = cmp_Or existing (si_ExpirationDate src)"

definition buildInPlaceUpdates :: "bool \<Rightarrow> string option \<Rightarrow> InPlaceUpdates option" where
  "buildInPlaceUpdates supported minVersionForUpdate =
     (if \<not> supported then None
      else Some \<lparr>ip_Supported = True, ip_MinVersionForUpdate = minVersionForUpdate\<rparr>)"

text \<open>
  The state of the loop of \<^verbatim>\<open>Apply\<close>: the versions of the image that is updated, and the map from a
  version to its position. \<^const>\<open>None\<close> is the panic of an index out of range.
\<close>

type_synonym versions_state = "MachineImageVersion list \<times> (string, nat) gomap"

definition legacy_update ::
  "ImageUpdater \<Rightarrow> SourceImage \<Rightarrow> MachineImageVersion \<Rightarrow> MachineImageVersion" where
  "legacy_update iu src v =
     v\<lparr>mv_Architectures := si_Architectures src,
       mv_Classification := si_Classification src,
       mv_ExpirationDate := resolveExpiration src (mv_ExpirationDate v),
       mv_InPlaceUpdates := buildInPlaceUpdates (si_SupportInPlaceUpdate src) (iu_MinVersionForUpdate iu)\<rparr>"

definition legacy_new :: "ImageUpdater \<Rightarrow> SourceImage \<Rightarrow> MachineImageVersion" where
  "legacy_new iu src =
     \<lparr>mv_Version = si_Version src,
      mv_Classification = si_Classification src,
      mv_ExpirationDate = si_ExpirationDate src,
      mv_Architectures = si_Architectures src,
      mv_InPlaceUpdates = buildInPlaceUpdates (si_SupportInPlaceUpdate src) (iu_MinVersionForUpdate iu),
      mv_CapabilityFlavors = [],
      mv_other = []\<rparr>"

definition upsertLegacyVersion ::
  "'v semver \<Rightarrow> ImageUpdater \<Rightarrow> versions_state \<Rightarrow> SourceImage \<Rightarrow> versions_state option" where
  "upsertLegacyVersion L iu st src =
     (case st of (versions, existingVersions) \<Rightarrow>
       (case map_of existingVersions (si_Version src) of
          Some idx \<Rightarrow>
            map_option (\<lambda>vs. (vs, existingVersions)) (modify_at idx (legacy_update iu src) versions)
        | None \<Rightarrow>
            (case sv_Parse L (si_Version src) of
               Inl parseErr \<Rightarrow> Some (versions, existingVersions)
             | Inr _ \<Rightarrow>
                 Some (versions @ [legacy_new iu src],
                       map_put (si_Version src) (length versions) existingVersions))))"

text \<open>\<^verbatim>\<open>for _, arch := range src.Architectures { if !contains { append } }\<close>\<close>

fun add_archs :: "string list \<Rightarrow> string list \<Rightarrow> string list" where
  "add_archs existing [] = existing"
| "add_archs existing (arch # archs) =
     add_archs (if arch \<notin> set existing then existing @ [arch] else existing) archs"

definition clean_update ::
  "ImageUpdater \<Rightarrow> SourceImage \<Rightarrow> MachineImageVersion \<Rightarrow> MachineImageVersion" where
  "clean_update iu src v =
     v\<lparr>mv_Architectures := add_archs (mv_Architectures v) (si_Architectures src),
       mv_Classification := si_Classification src,
       mv_ExpirationDate := resolveExpiration src (mv_ExpirationDate v),
       mv_InPlaceUpdates := buildInPlaceUpdates (si_SupportInPlaceUpdate src) (iu_MinVersionForUpdate iu),
       mv_CapabilityFlavors := mergeCapabilityFlavor (mv_CapabilityFlavors v) (si_Capabilities src)\<rparr>"

definition clean_new :: "ImageUpdater \<Rightarrow> SourceImage \<Rightarrow> MachineImageVersion" where
  "clean_new iu src =
     \<lparr>mv_Version = si_CleanVersion src,
      mv_Classification = si_Classification src,
      mv_ExpirationDate = si_ExpirationDate src,
      mv_Architectures = si_Architectures src,
      mv_InPlaceUpdates = buildInPlaceUpdates (si_SupportInPlaceUpdate src) (iu_MinVersionForUpdate iu),
      mv_CapabilityFlavors = mergeCapabilityFlavor [] (si_Capabilities src),
      mv_other = []\<rparr>"

definition upsertCleanVersion ::
  "ImageUpdater \<Rightarrow> versions_state \<Rightarrow> SourceImage \<Rightarrow> versions_state option" where
  "upsertCleanVersion iu st src =
     (case st of (versions, existingVersions) \<Rightarrow>
       (case map_of existingVersions (si_CleanVersion src) of
          Some idx \<Rightarrow>
            map_option (\<lambda>vs. (vs, existingVersions)) (modify_at idx (clean_update iu src) versions)
        | None \<Rightarrow>
            Some (versions @ [clean_new iu src],
                  map_put (si_CleanVersion src) (length versions) existingVersions)))"

definition upsert_source ::
  "'v semver \<Rightarrow> ImageUpdater \<Rightarrow> versions_state \<Rightarrow> SourceImage \<Rightarrow> versions_state option" where
  "upsert_source L iu st src =
     (case upsertLegacyVersion L iu st src of
        None \<Rightarrow> None
      | Some st' \<Rightarrow>
          if iu_EnableCapabilities iu \<and> si_CleanVersion src \<noteq> []
          then upsertCleanVersion iu st' src else Some st')"

text \<open>The capabilities of every source image, restricted to the declared ones.\<close>

definition filter_sources ::
  "CapabilityDefinition list \<Rightarrow> SourceImage list \<Rightarrow> SourceImage list" where
  "filter_sources capabilities sourceImages =
     (let allowed = allowedCapabilityValues capabilities in
      map (\<lambda>s. s\<lparr>si_Capabilities := filterCapabilities (si_Capabilities s) allowed\<rparr>) sourceImages)"

text \<open>The position of the image with the updater's name, which is appended when it is missing.\<close>

definition locate_image :: "string \<Rightarrow> MachineImage list \<Rightarrow> MachineImage list \<times> nat" where
  "locate_image name machineImages =
     (case IndexFunc (\<lambda>img. mi_Name img = name) machineImages of
        Some i \<Rightarrow> (machineImages, i)
      | None \<Rightarrow>
          (machineImages @ [\<lparr>mi_Name = name, mi_Versions = [], mi_other = []\<rparr>], length machineImages))"

definition update_versions ::
  "'v semver \<Rightarrow> ImageUpdater \<Rightarrow> SourceImage list \<Rightarrow> MachineImageVersion list
   \<Rightarrow> MachineImageVersion list option" where
  "update_versions L iu srcs versions =
     map_option fst (fold_opt (upsert_source L iu) (versions, index_by mv_Version versions) srcs)"

definition Apply ::
  "'v semver \<Rightarrow> ImageUpdater \<Rightarrow> CapabilityDefinition list \<Rightarrow> MachineImage list
   \<Rightarrow> RawExtension option \<Rightarrow> SourceImage list \<Rightarrow> (MachineImage list \<times> RawExtension option) outcome" where
  "Apply L iu capabilities baseImages baseProviderConfig sourceImages =
     (let srcs = filter_sources capabilities sourceImages;
          (machineImages, imageIndex) = locate_image (iu_ImageName iu) baseImages;
          image = machineImages ! imageIndex
      in case update_versions L iu srcs (mi_Versions image) of
           None \<Rightarrow> Panic
         | Some versions \<Rightarrow>
             (let machineImages = machineImages[imageIndex := image\<lparr>mi_Versions := versions\<rparr>]
              in case iu_Provider iu of
                   None \<Rightarrow> Ok (machineImages, baseProviderConfig)
                 | Some configure \<Rightarrow>
                     bindO (wrapO ''failed to invoke provider: %w'' [] (configure baseProviderConfig srcs))
                       (\<lambda>providerConfig. Ok (machineImages, providerConfig))))"

end
