(* ===== verification/ImageUpdaterFacts.thy ===== *)
theory ImageUpdaterFacts
  imports ImageUpdater
begin

section \<open>Correctness of the machine image updater\<close>

text \<open>
  The loop of \<^verbatim>\<open>Apply\<close> never runs out of range; under distinct version keys it refines a sequence of
  updates by key (the specification below); it keeps every version that was there and every other
  image; and repeating it with the same sources changes nothing.
\<close>

subsection \<open>The index map stays in range\<close>

lemma legacy_update_version [simp]: "mv_Version (legacy_update iu src v) = mv_Version v"
  by (simp add: legacy_update_def)

lemma clean_update_version [simp]: "mv_Version (clean_update iu src v) = mv_Version v"
  by (simp add: clean_update_def)

lemma legacy_new_version [simp]: "mv_Version (legacy_new iu src) = si_Version src"
  by (simp add: legacy_new_def)

lemma clean_new_version [simp]: "mv_Version (clean_new iu src) = si_CleanVersion src"
  by (simp add: clean_new_def)

text \<open>The specification of one source image.\<close>

definition legacy_spec ::
  "'v semver \<Rightarrow> ImageUpdater \<Rightarrow> MachineImageVersion list \<Rightarrow> SourceImage \<Rightarrow> MachineImageVersion list" where
  "legacy_spec L iu vs src =
     upsert_key mv_Version (si_Version src) (legacy_update iu src)
       (if sv_valid L (si_Version src) then [legacy_new iu src] else []) vs"

definition clean_spec ::
  "ImageUpdater \<Rightarrow> MachineImageVersion list \<Rightarrow> SourceImage \<Rightarrow> MachineImageVersion list" where
  "clean_spec iu vs src =
     upsert_key mv_Version (si_CleanVersion src) (clean_update iu src) [clean_new iu src] vs"

definition source_spec ::
  "'v semver \<Rightarrow> ImageUpdater \<Rightarrow> MachineImageVersion list \<Rightarrow> SourceImage \<Rightarrow> MachineImageVersion list" where
  "source_spec L iu vs src =
     (let vs1 = legacy_spec L iu vs src in
      if iu_EnableCapabilities iu \<and> si_CleanVersion src \<noteq> [] then clean_spec iu vs1 src else vs1)"

abbreviation versions_ok :: "versions_state \<Rightarrow> bool" where
  "versions_ok st \<equiv> index_ok mv_Version (fst st) (snd st)"

abbreviation versions_distinct :: "MachineImageVersion list \<Rightarrow> bool" where
  "versions_distinct vs \<equiv> distinct (map mv_Version vs)"

text \<open>
  One step keeps the invariant, appends at most one entry and never panics. \<open>upd_step\<close> is the shape
  that both kinds of step share.
\<close>

lemma upd_step:
  assumes ok: "index_ok mv_Version vs m" and f: "\<And>v. mv_Version (f v) = mv_Version v"
    and i: "map_of m k = Some i"
  shows "\<exists>vs'. modify_at i f vs = Some vs' \<and> index_ok mv_Version vs' m \<and>
    map mv_Version vs' = map mv_Version vs \<and>
    (versions_distinct vs \<longrightarrow> vs' = update_key mv_Version k f vs)"
proof -
  from index_okD [OF ok i] have l: "i < length vs" by simp
  have "map mv_Version (vs[i := f (vs ! i)]) = map mv_Version vs"
    using l f by (simp add: map_update list_update_same_conv)
  moreover have "modify_at i f vs = Some (vs[i := f (vs ! i)])"
    by (rule modify_at_Some [OF l])
  moreover have "versions_distinct vs \<longrightarrow> vs[i := f (vs ! i)] = update_key mv_Version k f vs"
    using modify_at_update_key [OF ok _ i, of f] calculation(2) by simp
  ultimately show ?thesis using ok by metis
qed

lemma legacy_step:
  assumes ok: "versions_ok (vs, m)"
  shows "\<exists>st'. upsertLegacyVersion L iu (vs, m) src = Some st' \<and> versions_ok st' \<and>
    (versions_distinct vs \<longrightarrow> fst st' = legacy_spec L iu vs src)"
proof (cases "map_of m (si_Version src)")
  case (Some i)
  then have "si_Version src \<in> mv_Version ` set vs"
    using keys_ok_None [of _ m "si_Version src"] ok by (metis fst_conv list.set_map option.distinct(1) snd_conv)
  moreover obtain vs' where "modify_at i (legacy_update iu src) vs = Some vs'"
    "index_ok mv_Version vs' m"
    "versions_distinct vs \<longrightarrow> vs' = update_key mv_Version (si_Version src) (legacy_update iu src) vs"
    using upd_step [of vs m "legacy_update iu src", OF _ _ Some] ok by auto
  ultimately show ?thesis
    by (intro exI [of _ "(vs', m)"])
      (simp add: Some upsertLegacyVersion_def legacy_spec_def upsert_key_def)
next
  case None
  then have new: "si_Version src \<notin> mv_Version ` set vs"
    using keys_ok_None [of _ m "si_Version src"] ok by (metis fst_conv list.set_map snd_conv)
  have ok': "index_ok mv_Version (vs @ [legacy_new iu src]) (map_put (si_Version src) (length vs) m)"
    using index_ok_snoc [of mv_Version vs m "legacy_new iu src"] ok by simp
  show ?thesis
  proof (cases "sv_Parse L (si_Version src)")
    case (Inl e)
    with None new ok show ?thesis
      by (intro exI [of _ "(vs, m)"])
        (simp add: upsertLegacyVersion_def legacy_spec_def upsert_key_def sv_valid_def)
  next
    case (Inr v)
    with None new ok' show ?thesis
      by (intro exI [of _ "(vs @ [legacy_new iu src], map_put (si_Version src) (length vs) m)"])
        (simp add: upsertLegacyVersion_def legacy_spec_def upsert_key_def sv_valid_def)
  qed
qed

lemma clean_step:
  assumes ok: "versions_ok (vs, m)"
  shows "\<exists>st'. upsertCleanVersion iu (vs, m) src = Some st' \<and> versions_ok st' \<and>
    (versions_distinct vs \<longrightarrow> fst st' = clean_spec iu vs src)"
proof (cases "map_of m (si_CleanVersion src)")
  case (Some i)
  then have "si_CleanVersion src \<in> mv_Version ` set vs"
    using keys_ok_None [of _ m "si_CleanVersion src"] ok by (metis fst_conv list.set_map option.distinct(1) snd_conv)
  moreover obtain vs' where "modify_at i (clean_update iu src) vs = Some vs'"
    "index_ok mv_Version vs' m"
    "versions_distinct vs \<longrightarrow> vs' = update_key mv_Version (si_CleanVersion src) (clean_update iu src) vs"
    using upd_step [of vs m "clean_update iu src", OF _ _ Some] ok by auto
  ultimately show ?thesis
    by (intro exI [of _ "(vs', m)"])
      (simp add: Some upsertCleanVersion_def clean_spec_def upsert_key_def)
next
  case None
  then have new: "si_CleanVersion src \<notin> mv_Version ` set vs"
    using keys_ok_None [of _ m "si_CleanVersion src"] ok by (metis fst_conv list.set_map snd_conv)
  have "index_ok mv_Version (vs @ [clean_new iu src]) (map_put (si_CleanVersion src) (length vs) m)"
    using index_ok_snoc [of mv_Version vs m "clean_new iu src"] ok by simp
  with None new show ?thesis
    by (simp add: upsertCleanVersion_def clean_spec_def upsert_key_def)
qed

lemma upsert_key_distinct:
  assumes "distinct (map key vs)" "\<And>v. key (f v) = key v" "new = [] \<or> (\<exists>n. new = [n] \<and> key n = k)"
  shows "distinct (map key (upsert_key key k f new vs))"
proof (cases "k \<in> key ` set vs")
  case True
  with assms(1,2) show ?thesis by (simp add: upsert_key_def)
next
  case False
  with assms(1,3) show ?thesis by (auto simp: upsert_key_def image_iff)
qed

lemma legacy_spec_distinct: "versions_distinct vs \<Longrightarrow> versions_distinct (legacy_spec L iu vs src)"
  unfolding legacy_spec_def by (rule upsert_key_distinct) auto

lemma clean_spec_distinct: "versions_distinct vs \<Longrightarrow> versions_distinct (clean_spec iu vs src)"
  unfolding clean_spec_def by (rule upsert_key_distinct) auto

lemma source_spec_distinct: "versions_distinct vs \<Longrightarrow> versions_distinct (source_spec L iu vs src)"
  by (simp add: source_spec_def Let_def legacy_spec_distinct clean_spec_distinct)

lemma foldl_source_spec_distinct:
  "versions_distinct vs \<Longrightarrow> versions_distinct (foldl (source_spec L iu) vs srcs)"
  by (induction srcs arbitrary: vs) (simp_all add: source_spec_distinct)

lemma source_step:
  assumes ok: "versions_ok (vs, m)"
  shows "\<exists>st'. upsert_source L iu (vs, m) src = Some st' \<and> versions_ok st' \<and>
    (versions_distinct vs \<longrightarrow> fst st' = source_spec L iu vs src)"
proof -
  obtain vs1 m1 where st1: "upsertLegacyVersion L iu (vs, m) src = Some (vs1, m1)"
    "versions_ok (vs1, m1)" "versions_distinct vs \<longrightarrow> vs1 = legacy_spec L iu vs src"
    using legacy_step [OF ok, of L iu src] by (metis fst_conv surj_pair)
  show ?thesis
  proof (cases "iu_EnableCapabilities iu \<and> si_CleanVersion src \<noteq> []")
    case True
    obtain st2 where st2: "upsertCleanVersion iu (vs1, m1) src = Some st2" "versions_ok st2"
      "versions_distinct vs1 \<longrightarrow> fst st2 = clean_spec iu vs1 src"
      using clean_step [OF st1(2), of iu src] by blast
    have "versions_distinct vs \<longrightarrow> fst st2 = source_spec L iu vs src"
      using True st1(3) st2(3) legacy_spec_distinct [of vs L iu src]
      by (auto simp: source_spec_def Let_def)
    with True st1(1) st2(1,2) show ?thesis by (simp add: upsert_source_def)
  next
    case False
    then have "source_spec L iu vs src = legacy_spec L iu vs src"
      by (auto simp: source_spec_def Let_def)
    with False st1 show ?thesis
      by (intro exI [of _ "(vs1, m1)"]) (auto simp: upsert_source_def)
  qed
qed

lemma update_versions_total: "\<exists>vs'. update_versions L iu srcs vs = Some vs'"
proof -
  have "\<exists>st'. fold_opt (upsert_source L iu) (vs, index_by mv_Version vs) srcs = Some st' \<and> versions_ok st'"
  proof (rule fold_opt_invariant [where P = versions_ok])
    show "versions_ok (vs, index_by mv_Version vs)" by (simp add: index_by_ok)
  next
    fix st src assume "versions_ok st"
    then show "\<exists>st'. upsert_source L iu st src = Some st' \<and> versions_ok st'"
      using source_step [of "fst st" "snd st" L iu src] by auto
  qed
  then show ?thesis by (auto simp: update_versions_def)
qed

text \<open>The refinement: under distinct versions the loop computes the specification.\<close>

lemma update_versions_spec:
  assumes "versions_distinct vs"
  shows "update_versions L iu srcs vs = Some (foldl (source_spec L iu) vs srcs)"
proof -
  let ?P = "\<lambda>st. versions_ok st \<and> versions_distinct (fst st)"
  have "\<exists>st'. fold_opt (upsert_source L iu) (vs, index_by mv_Version vs) srcs = Some st' \<and>
      ?P st' \<and> fst st' = foldl (source_spec L iu) (fst (vs, index_by mv_Version vs)) srcs"
  proof (rule fold_opt_simulation [where P = ?P])
    show "?P (vs, index_by mv_Version vs)" using assms index_by_ok by simp
  next
    fix st src assume "?P st"
    with source_step [of "fst st" "snd st" L iu src] source_spec_distinct [of "fst st" L iu src]
    show "\<exists>st'. upsert_source L iu st src = Some st' \<and> ?P st' \<and>
        fst st' = source_spec L iu (fst st) src" by auto
  qed
  then show ?thesis by (auto simp: update_versions_def)
qed

subsection \<open>The loop as a sequence of updates by key\<close>

datatype vop = LegacyOp SourceImage | CleanOp SourceImage

fun op_key :: "vop \<Rightarrow> string" where
  "op_key (LegacyOp src) = si_Version src"
| "op_key (CleanOp src) = si_CleanVersion src"

fun op_update :: "ImageUpdater \<Rightarrow> vop \<Rightarrow> MachineImageVersion \<Rightarrow> MachineImageVersion" where
  "op_update iu (LegacyOp src) = legacy_update iu src"
| "op_update iu (CleanOp src) = clean_update iu src"

fun op_new :: "'v semver \<Rightarrow> ImageUpdater \<Rightarrow> vop \<Rightarrow> MachineImageVersion list" where
  "op_new L iu (LegacyOp src) = (if sv_valid L (si_Version src) then [legacy_new iu src] else [])"
| "op_new L iu (CleanOp src) = [clean_new iu src]"

definition op_spec ::
  "'v semver \<Rightarrow> ImageUpdater \<Rightarrow> MachineImageVersion list \<Rightarrow> vop \<Rightarrow> MachineImageVersion list" where
  "op_spec L iu vs p = upsert_key mv_Version (op_key p) (op_update iu p) (op_new L iu p) vs"

definition source_ops :: "ImageUpdater \<Rightarrow> SourceImage list \<Rightarrow> vop list" where
  "source_ops iu srcs =
     concat (map (\<lambda>src. LegacyOp src #
       (if iu_EnableCapabilities iu \<and> si_CleanVersion src \<noteq> [] then [CleanOp src] else [])) srcs)"

lemma source_ops_simps [simp]:
  "source_ops iu [] = []"
  "source_ops iu (src # srcs) = LegacyOp src #
     (if iu_EnableCapabilities iu \<and> si_CleanVersion src \<noteq> [] then [CleanOp src] else []) @
     source_ops iu srcs"
  by (simp_all add: source_ops_def)

lemma source_spec_ops:
  "foldl (source_spec L iu) vs srcs = foldl (op_spec L iu) vs (source_ops iu srcs)"
  by (induction srcs arbitrary: vs)
    (simp_all add: source_spec_def legacy_spec_def clean_spec_def op_spec_def Let_def)

lemma op_update_version [simp]: "mv_Version (op_update iu p v) = mv_Version v"
  by (cases p) simp_all

lemma op_new_cases: "op_new L iu p = [] \<or> (\<exists>n. op_new L iu p = [n] \<and> mv_Version n = op_key p)"
  by (cases p) auto

lemma op_spec_keys:
  "map mv_Version (op_spec L iu vs p) =
     map mv_Version vs @
     (if op_key p \<in> mv_Version ` set vs then [] else map mv_Version (op_new L iu p))"
  by (simp add: op_spec_def upsert_key_def)

lemma foldl_op_spec_keys: "\<exists>ks. map mv_Version (foldl (op_spec L iu) vs ps) = map mv_Version vs @ ks"
proof (induction ps arbitrary: vs)
  case Nil
  then show ?case by simp
next
  case (Cons p ps)
  from Cons [of "op_spec L iu vs p"] show ?case
    by (auto simp: op_spec_keys)
qed

lemma foldl_op_spec_mono:
  "mv_Version ` set vs \<subseteq> mv_Version ` set (foldl (op_spec L iu) vs ps)"
proof -
  obtain ks where "map mv_Version (foldl (op_spec L iu) vs ps) = map mv_Version vs @ ks"
    using foldl_op_spec_keys by blast
  then have "set (map mv_Version vs) \<subseteq> set (map mv_Version (foldl (op_spec L iu) vs ps))"
    by (metis set_append sup_ge1)
  then show ?thesis by simp
qed

lemma op_spec_registers:
  "op_new L iu p \<noteq> [] \<Longrightarrow> op_key p \<in> mv_Version ` set (op_spec L iu vs p)"
proof -
  assume n: "op_new L iu p \<noteq> []"
  have "op_key p \<in> set (map mv_Version (op_spec L iu vs p))"
    unfolding op_spec_keys using n op_new_cases [of L iu p] by auto
  then show ?thesis by simp
qed

lemma foldl_op_spec_registers:
  "p \<in> set ps \<Longrightarrow> op_new L iu p \<noteq> [] \<Longrightarrow>
   op_key p \<in> mv_Version ` set (foldl (op_spec L iu) vs ps)"
proof (induction ps arbitrary: vs)
  case Nil
  then show ?case by simp
next
  case (Cons q ps)
  show ?case
  proof (cases "p = q")
    case True
    with Cons.prems op_spec_registers foldl_op_spec_mono show ?thesis by (simp, blast)
  next
    case False
    with Cons show ?thesis by simp
  qed
qed

text \<open>A second pass over the same operations adds no key.\<close>

lemma foldl_op_spec_same_keys:
  "\<forall>p\<in>set ps. op_key p \<in> mv_Version ` set vs \<or> op_new L iu p = [] \<Longrightarrow>
   map mv_Version (foldl (op_spec L iu) vs ps) = map mv_Version vs"
proof (induction ps arbitrary: vs)
  case Nil
  then show ?case by simp
next
  case (Cons p ps)
  have same: "map mv_Version (op_spec L iu vs p) = map mv_Version vs"
    using Cons.prems by (auto simp: op_spec_keys)
  then have "mv_Version ` set (op_spec L iu vs p) = mv_Version ` set vs"
    by (metis list.set_map)
  with Cons same show ?case by simp
qed

text \<open>How the entry of one version evolves.\<close>

definition entry_step ::
  "'v semver \<Rightarrow> ImageUpdater \<Rightarrow> MachineImageVersion option \<Rightarrow> vop \<Rightarrow> MachineImageVersion option" where
  "entry_step L iu e p =
     (case e of
        Some v \<Rightarrow> Some (op_update iu p v)
      | None \<Rightarrow> (case op_new L iu p of [] \<Rightarrow> None | n # _ \<Rightarrow> Some n))"

lemma op_spec_entry:
  "entry_of mv_Version (op_spec L iu vs p) k =
     (if op_key p = k then entry_step L iu (entry_of mv_Version vs k) p
      else entry_of mv_Version vs k)"
proof (cases "op_key p \<in> mv_Version ` set vs")
  case True
  then have "entry_of mv_Version vs (op_key p) \<noteq> None" by (simp add: entry_of_None)
  with True show ?thesis
    by (auto simp: op_spec_def upsert_key_def entry_of_update_key entry_step_def)
next
  case False
  then have "entry_of mv_Version vs (op_key p) = None" by (simp add: entry_of_None)
  with False op_new_cases [of L iu p] show ?thesis
    by (auto simp: op_spec_def upsert_key_def entry_of_append entry_step_def split: option.split)
qed

lemma foldl_op_spec_entry:
  "entry_of mv_Version (foldl (op_spec L iu) vs ps) k =
     foldl (entry_step L iu) (entry_of mv_Version vs k) (filter (\<lambda>p. op_key p = k) ps)"
  by (induction ps arbitrary: vs) (auto simp: op_spec_entry)

subsection \<open>Repeating the loop\<close>

text \<open>
  Field by field, what a run of operations makes of an existing entry, and that a second run makes
  nothing else of it.
\<close>

fun op_src :: "vop \<Rightarrow> SourceImage" where
  "op_src (LegacyOp src) = src"
| "op_src (CleanOp src) = src"

fun arch_step :: "string list \<Rightarrow> vop \<Rightarrow> string list" where
  "arch_step as (LegacyOp src) = si_Architectures src"
| "arch_step as (CleanOp src) = add_archs as (si_Architectures src)"

fun flavor_step :: "MachineImageFlavor list \<Rightarrow> vop \<Rightarrow> MachineImageFlavor list" where
  "flavor_step fs (LegacyOp src) = fs"
| "flavor_step fs (CleanOp src) = mergeCapabilityFlavor fs (si_Capabilities src)"

definition expiration_step :: "time option \<Rightarrow> vop \<Rightarrow> time option" where
  "expiration_step e p = cmp_Or e (si_ExpirationDate (op_src p))"

definition run_ops :: "ImageUpdater \<Rightarrow> vop list \<Rightarrow> MachineImageVersion \<Rightarrow> MachineImageVersion" where
  "run_ops iu ps v = foldl (\<lambda>v p. op_update iu p v) v ps"

lemma set_add_archs: "set (add_archs xs ys) = set xs \<union> set ys"
  by (induction xs ys rule: add_archs.induct) auto

lemma add_archs_id: "set ys \<subseteq> set xs \<Longrightarrow> add_archs xs ys = xs"
  by (induction ys) auto

lemma add_archs_append: "distinct ys \<Longrightarrow> set xs \<inter> set ys = {} \<Longrightarrow> add_archs xs ys = xs @ ys"
  by (induction ys arbitrary: xs) auto

lemma op_update_fields:
  "mv_Architectures (op_update iu p v) = arch_step (mv_Architectures v) p"
  "mv_CapabilityFlavors (op_update iu p v) = flavor_step (mv_CapabilityFlavors v) p"
  "mv_ExpirationDate (op_update iu p v) = expiration_step (mv_ExpirationDate v) p"
  "mv_Classification (op_update iu p v) = si_Classification (op_src p)"
  "mv_InPlaceUpdates (op_update iu p v) =
     buildInPlaceUpdates (si_SupportInPlaceUpdate (op_src p)) (iu_MinVersionForUpdate iu)"
  "mv_other (op_update iu p v) = mv_other v"
  by (cases p; simp add: legacy_update_def clean_update_def expiration_step_def resolveExpiration_def)+

lemma run_ops_simps [simp]:
  "run_ops iu [] v = v"
  "run_ops iu (p # ps) v = run_ops iu ps (op_update iu p v)"
  by (simp_all add: run_ops_def)

lemma run_ops_snoc [simp]: "run_ops iu (ps @ [p]) v = op_update iu p (run_ops iu ps v)"
  by (simp add: run_ops_def)

lemma run_ops_folds:
  "mv_Version (run_ops iu ps v) = mv_Version v"
  "mv_other (run_ops iu ps v) = mv_other v"
  "mv_Architectures (run_ops iu ps v) = foldl arch_step (mv_Architectures v) ps"
  "mv_CapabilityFlavors (run_ops iu ps v) = foldl flavor_step (mv_CapabilityFlavors v) ps"
  "mv_ExpirationDate (run_ops iu ps v) = foldl expiration_step (mv_ExpirationDate v) ps"
  by (induction ps arbitrary: v) (simp_all add: op_update_fields)

lemma run_ops_last:
  "ps \<noteq> [] \<Longrightarrow> mv_Classification (run_ops iu ps v) = si_Classification (op_src (last ps))"
  "ps \<noteq> [] \<Longrightarrow> mv_InPlaceUpdates (run_ops iu ps v) =
     buildInPlaceUpdates (si_SupportInPlaceUpdate (op_src (last ps))) (iu_MinVersionForUpdate iu)"
  by (induction ps rule: rev_induct) (simp_all add: op_update_fields)

lemma expiration_fold_Some: "foldl expiration_step (Some d) ps = Some d"
  by (induction ps) (simp_all add: expiration_step_def)

lemma expiration_idem:
  "foldl expiration_step (foldl expiration_step e ps) ps = foldl expiration_step e ps"
proof (cases "foldl expiration_step e ps")
  case None
  then have "e = None" using expiration_fold_Some by (metis not_Some_eq)
  with None show ?thesis by simp
next
  case (Some d)
  then show ?thesis by (simp add: expiration_fold_Some)
qed

lemma arch_fold_clean:
  "\<forall>p\<in>set ps. \<exists>s. p = CleanOp s \<Longrightarrow>
   set (foldl arch_step as ps) = set as \<union> (\<Union>p\<in>set ps. set (si_Architectures (op_src p)))"
  by (induction ps arbitrary: as) (auto simp: set_add_archs)

lemma arch_fold_id:
  "\<forall>p\<in>set ps. (\<exists>s. p = CleanOp s) \<and> set (si_Architectures (op_src p)) \<subseteq> set as \<Longrightarrow>
   foldl arch_step as ps = as"
  by (induction ps) (auto simp: add_archs_id)

lemma arch_idem: "foldl arch_step (foldl arch_step as ps) ps = foldl arch_step as ps"
proof (cases "\<forall>p\<in>set ps. \<exists>s. p = CleanOp s")
  case True
  show ?thesis
    by (rule arch_fold_id) (use True arch_fold_clean [OF True, of as] in auto)
next
  case False
  then have "\<exists>p\<in>set ps. \<exists>s. p = LegacyOp s" by (metis vop.exhaust)
  then obtain pre s post where ps: "ps = pre @ LegacyOp s # post" by (metis split_list)
  then show ?thesis by simp
qed

lemma flavor_fold_mono:
  "has_flavor fs c \<Longrightarrow> has_flavor (foldl flavor_step fs ps) c"
proof (induction ps arbitrary: fs)
  case (Cons p ps)
  then show ?case by (cases p) (auto simp: has_flavor_merge_mono)
qed simp

definition op_caps_ok :: "vop \<Rightarrow> bool" where
  "op_caps_ok p \<longleftrightarrow> caps_ok (si_Capabilities (op_src p))"

lemma flavor_fold_has:
  "CleanOp s \<in> set ps \<Longrightarrow> \<forall>p\<in>set ps. op_caps_ok p \<Longrightarrow>
   has_flavor (foldl flavor_step fs ps) (si_Capabilities s) \<or> caps_entries (si_Capabilities s) = []"
proof (induction ps arbitrary: fs)
  case (Cons p ps)
  show ?case
  proof (cases "p = CleanOp s")
    case True
    with Cons.prems have "caps_ok (si_Capabilities s)" by (simp add: op_caps_ok_def)
    with True show ?thesis
      using mergeCapabilityFlavor_has flavor_fold_mono by auto
  next
    case False
    with Cons show ?thesis by auto
  qed
qed simp

lemma flavor_fold_id:
  "\<forall>s. CleanOp s \<in> set ps \<longrightarrow> has_flavor fs (si_Capabilities s) \<or> caps_entries (si_Capabilities s) = []
   \<Longrightarrow> foldl flavor_step fs ps = fs"
proof (induction ps)
  case (Cons p ps)
  then show ?case by (cases p) (auto simp: mergeCapabilityFlavor_id)
qed simp

lemma flavor_idem:
  "\<forall>p\<in>set ps. op_caps_ok p \<Longrightarrow>
   foldl flavor_step (foldl flavor_step fs ps) ps = foldl flavor_step fs ps"
  by (rule flavor_fold_id) (use flavor_fold_has in blast)

lemma run_ops_idem:
  assumes "\<forall>p\<in>set ps. op_caps_ok p"
  shows "run_ops iu ps (run_ops iu ps v) = run_ops iu ps v"
proof (cases "ps = []")
  case False
  show ?thesis
    by (rule MachineImageVersion.equality)
      (simp_all add: run_ops_folds run_ops_last [OF False] expiration_idem arch_idem
        flavor_idem [OF assms])
qed simp

text \<open>A new entry is the update of a blank entry, where the source image names each architecture once.\<close>

definition blank_version :: "string \<Rightarrow> MachineImageVersion" where
  "blank_version k =
     \<lparr>mv_Version = k, mv_Classification = None, mv_ExpirationDate = None, mv_Architectures = [],
      mv_InPlaceUpdates = None, mv_CapabilityFlavors = [], mv_other = []\<rparr>"

definition op_ok :: "'v semver \<Rightarrow> vop \<Rightarrow> bool" where
  "op_ok L p \<longleftrightarrow>
     distinct (si_Architectures (op_src p)) \<and> op_caps_ok p \<and>
     (\<forall>s. p = CleanOp s \<longrightarrow> sv_valid L (si_CleanVersion s))"

lemma op_new_blank:
  assumes "op_ok L p" "sv_valid L (op_key p)"
  shows "op_new L iu p = [op_update iu p (blank_version (op_key p))]"
proof (cases p)
  case (LegacyOp s)
  with assms show ?thesis
    by (simp add: legacy_new_def legacy_update_def blank_version_def resolveExpiration_def)
next
  case (CleanOp s)
  with assms have "add_archs [] (si_Architectures s) = si_Architectures s"
    using add_archs_append [of "si_Architectures s" "[]"] by (simp add: op_ok_def)
  with CleanOp show ?thesis
    by (simp add: clean_new_def clean_update_def blank_version_def resolveExpiration_def)
qed

lemma op_new_invalid: "op_ok L p \<Longrightarrow> \<not> sv_valid L (op_key p) \<Longrightarrow> op_new L iu p = []"
  by (cases p) (auto simp: op_ok_def)

text \<open>The entry of version \<open>k\<close> after a run of operations on \<open>k\<close>.\<close>

lemma entry_fold_Some: "foldl (entry_step L iu) (Some v) ps = Some (run_ops iu ps v)"
  by (induction ps arbitrary: v) (simp_all add: entry_step_def)

lemma entry_fold_invalid:
  assumes "\<forall>p\<in>set ps. op_ok L p \<and> op_key p = k" "\<not> sv_valid L k"
  shows "foldl (entry_step L iu) None ps = None"
  using assms by (induction ps) (simp_all add: entry_step_def op_new_invalid)

lemma entry_fold_valid:
  assumes "\<forall>p\<in>set ps. op_ok L p \<and> op_key p = k" "sv_valid L k" "ps \<noteq> []"
  shows "foldl (entry_step L iu) None ps = Some (run_ops iu ps (blank_version k))"
proof (cases ps)
  case (Cons p qs)
  with assms have "entry_step L iu None p = Some (op_update iu p (blank_version k))"
    using op_new_blank [of L p iu] by (auto simp: entry_step_def)
  with Cons show ?thesis by (simp add: entry_fold_Some)
qed (use assms in simp)

lemma entry_fold_idem:
  assumes "\<forall>p\<in>set ps. op_ok L p \<and> op_key p = k"
  shows "foldl (entry_step L iu) (foldl (entry_step L iu) e ps) ps = foldl (entry_step L iu) e ps"
proof -
  have caps: "\<forall>p\<in>set ps. op_caps_ok p" using assms by (simp add: op_ok_def)
  show ?thesis
  proof (cases e)
    case (Some v)
    then show ?thesis by (simp add: entry_fold_Some run_ops_idem [OF caps])
  next
    case None
    then show ?thesis
      using entry_fold_invalid [OF assms] entry_fold_valid [OF assms]
      by (cases "sv_valid L k"; cases "ps = []") (simp_all add: entry_fold_Some run_ops_idem [OF caps])
  qed
qed

text \<open>What validation and the sources provide: clean versions are valid, architectures distinct.\<close>

definition source_ok :: "'v semver \<Rightarrow> SourceImage \<Rightarrow> bool" where
  "source_ok L s \<longleftrightarrow>
     distinct (si_Architectures s) \<and> caps_ok (si_Capabilities s) \<and>
     (si_CleanVersion s \<noteq> [] \<longrightarrow> sv_valid L (si_CleanVersion s))"

lemma source_ops_ok:
  "\<forall>s\<in>set srcs. source_ok L s \<Longrightarrow> p \<in> set (source_ops iu srcs) \<Longrightarrow> op_ok L p"
  by (induction srcs) (auto simp: op_ok_def op_caps_ok_def source_ok_def split: if_splits)

lemma run_twice:
  fixes L :: "'v semver" and iu :: ImageUpdater
  assumes ok: "\<forall>s\<in>set srcs. source_ok L s" and d: "versions_distinct vs"
  defines "run \<equiv> \<lambda>vs. foldl (source_spec L iu) vs srcs"
  shows "run (run vs) = run vs"
proof (rule entry_of_ext [where key = mv_Version])
  let ?ps = "source_ops iu srcs"
  have run: "run ws = foldl (op_spec L iu) ws ?ps" for ws
    by (simp add: run_def source_spec_ops)
  have "\<forall>p\<in>set ?ps. op_key p \<in> mv_Version ` set (run vs) \<or> op_new L iu p = []"
    using foldl_op_spec_registers unfolding run by fast
  then show keys: "map mv_Version (run (run vs)) = map mv_Version (run vs)"
    unfolding run by (rule foldl_op_spec_same_keys)
  show "distinct (map mv_Version (run (run vs)))"
    unfolding run_def by (intro foldl_source_spec_distinct d)
  fix k
  show "entry_of mv_Version (run (run vs)) k = entry_of mv_Version (run vs) k"
    unfolding run foldl_op_spec_entry
    by (rule entry_fold_idem [where k = k]) (use source_ops_ok [OF ok] in auto)
qed

end
