(* ===== verification/ImageUpdaterProps.thy ===== *)
theory ImageUpdaterProps
  imports ImageUpdaterFacts
begin

section \<open>What Fetch and Apply promise\<close>

text \<open>
  The contract of a version filter as a locale, with the consequences that \<^verbatim>\<open>Fetch\<close> draws from it, and
  the properties of \<^verbatim>\<open>Fetch\<close> and \<^verbatim>\<open>Apply\<close>.
\<close>

subsection \<open>Version filters\<close>

text \<open>
  The interface \<^verbatim>\<open>ossync.VersionFilter\<close>: a filter returns a subsequence of its input, so it neither
  invents, changes, reorders nor duplicates images.
\<close>

locale version_filter =
  fixes flt :: "SourceImage list \<Rightarrow> SourceImage list"
  assumes filter_subseq: "subseq (flt xs) xs"
begin

lemma filter_set: "set (flt xs) \<subseteq> set xs"
  by (rule subseq_set_subset [OF filter_subseq])

lemma filter_sorted: "sorted_by source_cmp xs \<Longrightarrow> sorted_by source_cmp (flt xs)"
  by (rule subseq_sorted_wrt [OF filter_subseq])

lemma Fetch_filtered:
  assumes "iu_Filter iu = Some flt" "Fetch L iu = Ok xs"
  shows "\<exists>raw. iu_Source iu = Ok raw \<and>
    xs = flt (SortFunc source_cmp (validateImageVersions L raw)) \<and>
    set xs \<subseteq> set (validateImageVersions L raw) \<and> sorted_by source_cmp xs"
proof -
  obtain raw where raw: "iu_Source iu = Ok raw"
    "xs = flt (SortFunc source_cmp (validateImageVersions L raw))"
    using assms by (auto simp: Fetch_def Let_def outcome_simps)
  have "set xs \<subseteq> set (validateImageVersions L raw)"
    unfolding raw(2) using filter_set by (metis set_SortFunc)
  moreover have "sorted_by source_cmp xs"
    unfolding raw(2) by (rule filter_sorted [OF source_cmp.SortFunc_sorted])
  ultimately show ?thesis using raw by blast
qed

end

text \<open>No filter at all is the trivial instance: it is what a nil \<^verbatim>\<open>Filter\<close> field means.\<close>

interpretation no_filter: version_filter "\<lambda>xs. xs"
  by unfold_locales simp

lemma Fetch_no_filter: "iu_Filter iu = None \<Longrightarrow> Fetch L iu = Fetch L (iu\<lparr>iu_Filter := Some (\<lambda>xs. xs)\<rparr>)"
  by (simp add: Fetch_def)

subsection \<open>Fetch\<close>

definition filter_lawful :: "ImageUpdater \<Rightarrow> bool" where
  "filter_lawful iu \<longleftrightarrow> (\<forall>f. iu_Filter iu = Some f \<longrightarrow> version_filter f)"

lemma Fetch_Ok:
  assumes "filter_lawful iu" "Fetch L iu = Ok xs"
  shows "\<exists>raw. iu_Source iu = Ok raw \<and> set xs \<subseteq> set (validateImageVersions L raw) \<and>
    sorted_by source_cmp xs"
proof (cases "iu_Filter iu")
  case None
  then show ?thesis
    using no_filter.Fetch_filtered [of "iu\<lparr>iu_Filter := Some (\<lambda>xs. xs)\<rparr>" L xs] assms(2)
      Fetch_no_filter [OF None, of L] by auto
next
  case (Some f)
  with assms(1) have "version_filter f" by (simp add: filter_lawful_def)
  from version_filter.Fetch_filtered [OF this Some assms(2)] show ?thesis by blast
qed

text \<open>C17 Fetch_valid_sorted. Whatever a source delivers, the images that Fetch returns are sorted by effective
  version and tag, each of them validated (it has an architecture, a clean version that is a semantic
  version or none, and a tag or clean version that is one), and each comes from an image of the
  source with the same tag, architectures and capabilities.\<close>

theorem Fetch_valid_sorted:
  assumes "semver_canonical L" "filter_lawful iu" "Fetch L iu = Ok xs"
  shows "sorted_by source_cmp xs \<and> (\<forall>x\<in>set xs. valid_source L x) \<and>
    (\<exists>raw. iu_Source iu = Ok raw \<and>
      (\<forall>x\<in>set xs. \<exists>y\<in>set raw. si_Version y = si_Version x \<and>
        si_Architectures y = si_Architectures x \<and> si_Capabilities y = si_Capabilities x))"
proof -
  from Fetch_Ok [OF assms(2,3)] obtain raw where raw: "iu_Source iu = Ok raw"
    "set xs \<subseteq> set (validateImageVersions L raw)" "sorted_by source_cmp xs" by blast
  have ex: "\<exists>y\<in>set raw. validate_one L y = Some x" if "x \<in> set xs" for x
    using raw(2) that set_validateImageVersions [of x L raw] by blast
  have "valid_source L x" if "x \<in> set xs" for x
    using ex [OF that] validate_one_valid [OF assms(1)] by blast
  moreover have "\<exists>y\<in>set raw. si_Version y = si_Version x \<and>
      si_Architectures y = si_Architectures x \<and> si_Capabilities y = si_Capabilities x"
    if "x \<in> set xs" for x
    using ex [OF that] validate_one_frame [of L _ x] by metis
  ultimately show ?thesis using raw(1,3) by blast
qed

lemma validate_versions_subset:
  "si_Version ` set (validateImageVersions L vs) \<subseteq> si_Version ` set vs"
proof
  fix k assume "k \<in> si_Version ` set (validateImageVersions L vs)"
  then obtain w x where "k = si_Version w" "x \<in> set vs" "validate_one L x = Some w"
    by (auto simp: set_validateImageVersions)
  then show "k \<in> si_Version ` set vs" using validate_one_frame by (metis image_eqI)
qed

lemma validate_versions_distinct:
  "distinct (map si_Version raw) \<Longrightarrow> distinct (map si_Version (validateImageVersions L raw))"
proof (induction raw)
  case (Cons v vs)
  show ?case
  proof (cases "validate_one L v")
    case None
    with Cons show ?thesis by simp
  next
    case (Some w)
    then have "si_Version w = si_Version v" by (simp add: validate_one_frame)
    moreover have "si_Version v \<notin> si_Version ` set (validateImageVersions L vs)"
      using Cons.prems validate_versions_subset [of L vs] by auto
    ultimately show ?thesis using Cons Some by simp
  qed
qed simp

text \<open>The result of Fetch does not depend on the order in which the source delivers its
  images (OCI tags and Glance regions are queried concurrently and arrive in any order), as long as no two
  images have the same tag.\<close>

lemma Fetch_order_independent:
  assumes "mset raw = mset raw'" "distinct (map si_Version raw)"
  shows "Fetch L (iu\<lparr>iu_Source := Ok raw\<rparr>) = Fetch L (iu\<lparr>iu_Source := Ok raw'\<rparr>)"
proof -
  let ?v = "validateImageVersions L"
  have "a = b" if "a \<in> set (?v raw)" "b \<in> set (?v raw)" "source_cmp a b = 0" for a b
  proof -
    have "si_Version a = si_Version b"
      using that(3) unfolding source_cmp_key2 compare_key2_eq by simp
    with that(1,2) validate_versions_distinct [OF assms(2), of L] show ?thesis
      by (meson distinct_map inj_onD)
  qed
  then have "SortFunc source_cmp (?v raw) = SortFunc source_cmp (?v raw')"
    using mset_validateImageVersions [OF assms(1)] by (intro source_cmp.SortFunc_perm_invariant)
  then show ?thesis by (simp add: Fetch_def)
qed

subsection \<open>Apply\<close>

lemma locate_image_cases:
  assumes "locate_image name imgs = (ms, i)"
  shows "i < length ms \<and> mi_Name (ms ! i) = name \<and> (\<forall>j<i. mi_Name (ms ! j) \<noteq> name) \<and>
    (ms = imgs \<or> (\<forall>m\<in>set imgs. mi_Name m \<noteq> name) \<and> i = length imgs \<and>
       ms = imgs @ [\<lparr>mi_Name = name, mi_Versions = [], mi_other = []\<rparr>])"
  using assms
  by (auto simp: locate_image_def IndexFunc_None nth_append split: option.splits
      dest: IndexFunc_Some)

text \<open>The versions of the first image with a name; no image has no versions.\<close>

definition image_versions :: "string \<Rightarrow> MachineImage list \<Rightarrow> MachineImageVersion list" where
  "image_versions name imgs =
     (case IndexFunc (\<lambda>img. mi_Name img = name) imgs of None \<Rightarrow> [] | Some i \<Rightarrow> mi_Versions (imgs ! i))"

lemma IndexFunc_update:
  "IndexFunc P xs = Some i \<Longrightarrow> P y \<Longrightarrow> IndexFunc P (xs[i := y]) = Some i"
proof (induction xs arbitrary: i)
  case (Cons x xs)
  then show ?case by (cases i) (auto split: if_splits)
qed simp

lemma locate_image_index:
  "locate_image name imgs = (ms, i) \<Longrightarrow> IndexFunc (\<lambda>img. mi_Name img = name) ms = Some i"
  by (auto simp: locate_image_def IndexFunc_append split: option.splits)

lemma locate_image_versions:
  "locate_image name imgs = (ms, i) \<Longrightarrow> mi_Versions (ms ! i) = image_versions name imgs"
  by (auto simp: locate_image_def image_versions_def split: option.splits)

lemma Apply_Ok:
  assumes "Apply L iu caps base pc srcs = Ok (imgs, pc')"
  obtains ms i vs where
    "locate_image (iu_ImageName iu) base = (ms, i)"
    "update_versions L iu (filter_sources caps srcs) (image_versions (iu_ImageName iu) base) = Some vs"
    "imgs = ms[i := (ms ! i)\<lparr>mi_Versions := vs\<rparr>]"
    "image_versions (iu_ImageName iu) imgs = vs"
    "(case iu_Provider iu of None \<Rightarrow> Ok pc | Some f \<Rightarrow> f pc (filter_sources caps srcs)) = Ok pc'"
proof -
  obtain ms i where loc: "locate_image (iu_ImageName iu) base = (ms, i)" by fastforce
  note ver = locate_image_versions [OF loc] and idx = locate_image_index [OF loc]
  obtain vs where vs: "update_versions L iu (filter_sources caps srcs) (mi_Versions (ms ! i)) = Some vs"
    using update_versions_total by blast
  have imgs: "imgs = ms[i := (ms ! i)\<lparr>mi_Versions := vs\<rparr>]"
    and pc: "(case iu_Provider iu of None \<Rightarrow> Ok pc | Some f \<Rightarrow> f pc (filter_sources caps srcs)) = Ok pc'"
    using assms loc vs by (auto simp: Apply_def Let_def outcome_simps split: option.splits)
  have "IndexFunc (\<lambda>img. mi_Name img = iu_ImageName iu) imgs = Some i"
    unfolding imgs by (rule IndexFunc_update [OF idx]) (use locate_image_cases [OF loc] in simp)
  moreover have "i < length ms" using locate_image_cases [OF loc] by simp
  ultimately have "image_versions (iu_ImageName iu) imgs = vs"
    by (simp add: image_versions_def imgs)
  with that loc vs imgs pc ver show ?thesis by simp
qed

text \<open>Entering source images into the machine images never runs out of range, whatever the
  images, their versions and duplicates among them: Apply panics only if the provider does.\<close>

lemma Apply_never_panics:
  assumes "\<And>f pc' ss. iu_Provider iu = Some f \<Longrightarrow> f pc' ss \<noteq> Panic"
  shows "Apply L iu caps base pc srcs \<noteq> Panic"
proof -
  obtain ms i where "locate_image (iu_ImageName iu) base = (ms, i)" by fastforce
  moreover obtain vs where
    "update_versions L iu (filter_sources caps srcs) (mi_Versions (ms ! i)) = Some vs"
    using update_versions_total by blast
  ultimately show ?thesis
    using assms by (auto simp: Apply_def Let_def outcome_simps split: option.splits)
qed

lemma source_spec_keeps: "mv_Version ` set vs \<subseteq> mv_Version ` set (foldl (source_spec L iu) vs srcs)"
  unfolding source_spec_ops by (rule foldl_op_spec_mono)

text \<open>Apply touches one image only: every image of the base list stays where it is, unchanged
  unless it is the first one with the updater's image name, and at most one image, with that name, is
  appended.\<close>

lemma Apply_frame:
  assumes "Apply L iu caps base pc srcs = Ok (imgs, pc')"
  shows "length base \<le> length imgs \<and> length imgs \<le> Suc (length base) \<and>
    (\<forall>j<length base. mi_Name (imgs ! j) = mi_Name (base ! j) \<and>
       (mi_Name (base ! j) \<noteq> iu_ImageName iu \<or> (\<exists>k<j. mi_Name (base ! k) = iu_ImageName iu) \<longrightarrow>
          imgs ! j = base ! j)) \<and>
    (length imgs = Suc (length base) \<longrightarrow> mi_Name (last imgs) = iu_ImageName iu \<and>
       (\<forall>m\<in>set base. mi_Name m \<noteq> iu_ImageName iu))"
proof (rule Apply_Ok [OF assms])
  fix ms i vs
  assume loc: "locate_image (iu_ImageName iu) base = (ms, i)"
    and imgs: "imgs = ms[i := (ms ! i)\<lparr>mi_Versions := vs\<rparr>]"
  note l = locate_image_cases [OF loc]
  then consider "ms = base" "i < length base" "\<forall>j<i. mi_Name (base ! j) \<noteq> iu_ImageName iu"
      "mi_Name (base ! i) = iu_ImageName iu"
    | "\<forall>m\<in>set base. mi_Name m \<noteq> iu_ImageName iu" "i = length base"
      "ms = base @ [\<lparr>mi_Name = iu_ImageName iu, mi_Versions = [], mi_other = []\<rparr>]"
    by auto
  then show ?thesis
  proof cases
    case 1
    then show ?thesis unfolding imgs
      by (auto simp: nth_list_update)
  next
    case 2
    then show ?thesis unfolding imgs by (auto simp: nth_append)
  qed
qed

lemma Apply_spec:
  assumes "versions_distinct (image_versions (iu_ImageName iu) base)"
    and "Apply L iu caps base pc srcs = Ok (imgs, pc1)"
  shows "image_versions (iu_ImageName iu) imgs =
      foldl (source_spec L iu) (image_versions (iu_ImageName iu) base) (filter_sources caps srcs) \<and>
    versions_distinct (image_versions (iu_ImageName iu) imgs)"
proof (rule Apply_Ok [OF assms(2)])
  fix vs
  assume "update_versions L iu (filter_sources caps srcs) (image_versions (iu_ImageName iu) base) = Some vs"
    and img: "image_versions (iu_ImageName iu) imgs = vs"
  then have "vs = foldl (source_spec L iu) (image_versions (iu_ImageName iu) base) (filter_sources caps srcs)"
    using update_versions_spec [OF assms(1), of L iu "filter_sources caps srcs"] by simp
  then show ?thesis using img foldl_source_spec_distinct [OF assms(1)] by simp
qed

text \<open>C12 Apply_refines. Apply refines its specification: under distinct versions, the indexed loop over the slice and
  the position map computes exactly the updates by version that \<open>source_spec\<close> describes, one source image
  after the other, on the versions of the image and nowhere else.\<close>

theorem Apply_refines:
  assumes "versions_distinct (image_versions (iu_ImageName iu) base)"
    and "Apply L iu caps base pc srcs = Ok (imgs, pc1)"
  shows "image_versions (iu_ImageName iu) imgs =
      foldl (source_spec L iu) (image_versions (iu_ImageName iu) base) (filter_sources caps srcs) \<and>
    versions_distinct (image_versions (iu_ImageName iu) imgs)"
  by (rule Apply_spec [OF assms])

subsubsection \<open>What happens to one version\<close>

abbreviation version_entry :: "string \<Rightarrow> MachineImage list \<Rightarrow> string \<Rightarrow> MachineImageVersion option" where
  "version_entry name imgs k \<equiv> entry_of mv_Version (image_versions name imgs) k"

lemma Apply_entry:
  assumes "versions_distinct (image_versions (iu_ImageName iu) base)"
    and "Apply L iu caps base pc srcs = Ok (imgs, pc1)"
  shows "version_entry (iu_ImageName iu) imgs k =
    foldl (entry_step L iu) (version_entry (iu_ImageName iu) base k)
      (filter (\<lambda>p. op_key p = k) (source_ops iu (filter_sources caps srcs)))"
  using Apply_spec [OF assms] by (simp add: source_spec_ops foldl_op_spec_entry)

lemma entry_foldl_Some_mono:
  "e \<noteq> None \<Longrightarrow> foldl (entry_step L iu) e ps \<noteq> None"
  by (auto simp: entry_fold_Some)

lemma filter_sources_fields:
  "s \<in> set (filter_sources caps srcs) \<longleftrightarrow>
     (\<exists>r\<in>set srcs. s = r\<lparr>si_Capabilities := filterCapabilities (si_Capabilities r) (allowedCapabilityValues caps)\<rparr>)"
  by (auto simp: filter_sources_def Let_def)

lemma source_ops_LegacyOp: "LegacyOp s \<in> set (source_ops iu srcs) \<longleftrightarrow> s \<in> set srcs"
  by (induction srcs) auto

lemma source_ops_CleanOp:
  "CleanOp s \<in> set (source_ops iu srcs) \<longleftrightarrow>
     s \<in> set srcs \<and> iu_EnableCapabilities iu \<and> si_CleanVersion s \<noteq> []"
  by (induction srcs) auto

lemma source_ops_key:
  "p \<in> set (source_ops iu srcs) \<Longrightarrow> \<exists>s\<in>set srcs. op_key p = si_Version s \<or> op_key p = si_CleanVersion s"
  by (induction srcs) (auto split: if_splits)

text \<open>Every source image gets its entries: a tag that is a semantic version is a version of the
  updated image afterwards, and with capabilities enabled so is a clean version; and no version that was
  there is lost.\<close>

lemma Apply_registers:
  assumes d: "versions_distinct (image_versions (iu_ImageName iu) base)"
    and A: "Apply L iu caps base pc srcs = Ok (imgs, pc1)"
  shows "(\<forall>s\<in>set srcs. sv_valid L (si_Version s) \<longrightarrow>
      version_entry (iu_ImageName iu) imgs (si_Version s) \<noteq> None) \<and>
    (\<forall>s\<in>set srcs. iu_EnableCapabilities iu \<and> si_CleanVersion s \<noteq> [] \<longrightarrow>
      version_entry (iu_ImageName iu) imgs (si_CleanVersion s) \<noteq> None) \<and>
    (\<forall>k. version_entry (iu_ImageName iu) base k \<noteq> None \<longrightarrow>
      version_entry (iu_ImageName iu) imgs k \<noteq> None)"
proof -
  let ?ps = "source_ops iu (filter_sources caps srcs)"
  let ?c = "\<lambda>r. r\<lparr>si_Capabilities := filterCapabilities (si_Capabilities r) (allowedCapabilityValues caps)\<rparr>"
  have reg: "version_entry (iu_ImageName iu) imgs (op_key p) \<noteq> None"
    if "p \<in> set ?ps" "op_new L iu p \<noteq> []" for p
    using foldl_op_spec_registers [OF that, of "image_versions (iu_ImageName iu) base"]
      Apply_spec [OF d A] by (simp add: entry_of_None source_spec_ops)
  have "version_entry (iu_ImageName iu) imgs (si_Version s) \<noteq> None"
    if "s \<in> set srcs" "sv_valid L (si_Version s)" for s
    using reg [of "LegacyOp (?c s)"] that by (auto simp: source_ops_LegacyOp filter_sources_fields)
  moreover have "version_entry (iu_ImageName iu) imgs (si_CleanVersion s) \<noteq> None"
    if "s \<in> set srcs" "iu_EnableCapabilities iu \<and> si_CleanVersion s \<noteq> []" for s
    using reg [of "CleanOp (?c s)"] that by (auto simp: source_ops_CleanOp filter_sources_fields)
  moreover have "version_entry (iu_ImageName iu) imgs k \<noteq> None"
    if "version_entry (iu_ImageName iu) base k \<noteq> None" for k
    unfolding Apply_entry [OF d A] by (rule entry_foldl_Some_mono [OF that])
  ultimately show ?thesis by blast
qed

text \<open>C14 Apply_keeps_expiration. An expiration date that a version already has is never overwritten, and the entry
  keeps its other fields that the updater does not own.\<close>

theorem Apply_keeps_expiration:
  assumes d: "versions_distinct (image_versions (iu_ImageName iu) base)"
    and A: "Apply L iu caps base pc srcs = Ok (imgs, pc1)"
    and v: "version_entry (iu_ImageName iu) base k = Some v" "mv_ExpirationDate v = Some t"
  shows "\<exists>w. version_entry (iu_ImageName iu) imgs k = Some w \<and>
    mv_ExpirationDate w = Some t \<and> mv_other w = mv_other v"
  unfolding Apply_entry [OF d A] v(1) entry_fold_Some
  using v(2) by (simp add: run_ops_folds expiration_fold_Some)

text \<open>A version that no source image names is left exactly as it was.\<close>

lemma Apply_other_versions:
  assumes d: "versions_distinct (image_versions (iu_ImageName iu) base)"
    and A: "Apply L iu caps base pc srcs = Ok (imgs, pc1)"
    and k: "\<forall>s\<in>set srcs. si_Version s \<noteq> k \<and> si_CleanVersion s \<noteq> k"
  shows "version_entry (iu_ImageName iu) imgs k = version_entry (iu_ImageName iu) base k"
proof -
  have "op_key p \<noteq> k" if "p \<in> set (source_ops iu (filter_sources caps srcs))" for p
    using source_ops_key [OF that] k by (auto simp: filter_sources_fields) blast+
  then have "filter (\<lambda>p. op_key p = k) (source_ops iu (filter_sources caps srcs)) = []"
    by (simp add: filter_empty_conv)
  then show ?thesis unfolding Apply_entry [OF d A] by simp
qed

text \<open>C13 Apply_idempotent. Reconciling again with the same source images changes nothing: applying them to the result of
  applying them gives the same machine images, with no duplicate entries, architectures or capability
  flavors.\<close>

theorem Apply_idempotent:
  assumes d: "versions_distinct (image_versions (iu_ImageName iu) base)"
    and ok: "\<forall>s\<in>set srcs. source_ok L s"
    and A: "Apply L iu caps base pc srcs = Ok (imgs, pc1)"
    and B: "Apply L iu caps imgs pc2 srcs = Ok (imgs2, pc3)"
  shows "imgs2 = imgs"
proof -
  have ok': "\<forall>s\<in>set (filter_sources caps srcs). source_ok L s"
    using ok by (auto simp: filter_sources_fields source_ok_def filterCapabilities_ok)
  note r = Apply_spec [OF d A]
  have same: "image_versions (iu_ImageName iu) imgs2 = image_versions (iu_ImageName iu) imgs"
    using Apply_spec [OF conjunct2 [OF r] B] r run_twice [OF ok' d] by simp
  obtain ms i vs where 1: "locate_image (iu_ImageName iu) base = (ms, i)"
    "imgs = ms[i := (ms ! i)\<lparr>mi_Versions := vs\<rparr>]" using Apply_Ok [OF A] by metis
  then have idx: "IndexFunc (\<lambda>img. mi_Name img = iu_ImageName iu) imgs = Some i"
    using IndexFunc_update [OF locate_image_index [OF 1(1)]] locate_image_cases [OF 1(1)] by simp
  then have loc: "locate_image (iu_ImageName iu) imgs = (imgs, i)" by (simp add: locate_image_def)
  obtain ws where 2: "imgs2 = imgs[i := (imgs ! i)\<lparr>mi_Versions := ws\<rparr>]"
    "image_versions (iu_ImageName iu) imgs2 = ws" using Apply_Ok [OF B] loc by (metis Pair_inject)
  have "ws = mi_Versions (imgs ! i)"
    using same 2(2) idx by (simp add: image_versions_def)
  then show ?thesis unfolding 2(1) by simp
qed

subsubsection \<open>Only declared capabilities are written\<close>

definition declared :: "CapabilityDefinition list \<Rightarrow> MachineImageFlavor \<Rightarrow> bool" where
  "declared caps f \<longleftrightarrow>
     (\<forall>k vs. caps_map (mf_Capabilities f) k = Some vs \<longrightarrow>
        (\<exists>d\<in>set caps. cd_Name d = k \<and> set vs \<subseteq> set (cd_Values d)))"

lemma allowed_part_declared:
  assumes "allowed_part (allowedCapabilityValues caps) k vs = Some ws"
  shows "\<exists>d\<in>set caps. cd_Name d = k \<and> set ws \<subseteq> set (cd_Values d)"
proof -
  obtain av where av: "map_of (allowedCapabilityValues caps) k = Some av" "ws = filter (\<lambda>v. v \<in> av) vs"
    using assms by (auto simp: allowed_part_def Let_def split: option.splits if_splits)
  then have "(k, av) \<in> set (map (\<lambda>c. (cd_Name c, set (cd_Values c))) caps)"
    by (metis map_of_SomeD map_of_allowedCapabilityValues set_rev)
  with av(2) show ?thesis by auto
qed

lemma filterCapabilities_declared:
  "caps_ok c \<Longrightarrow>
   declared caps \<lparr>mf_Capabilities = filterCapabilities c (allowedCapabilityValues caps), mf_other = x\<rparr>"
  by (auto simp: declared_def filterCapabilities_map Option.bind_eq_Some_conv
      dest!: allowed_part_declared)

text \<open>A predicate on versions that every update keeps and every new entry has, holds of the result.\<close>

lemma foldl_op_spec_all:
  assumes "\<forall>v\<in>set vs. Q v"
    and "\<And>p v. p \<in> set ps \<Longrightarrow> Q v \<Longrightarrow> Q (op_update iu p v)"
    and "\<And>p n. p \<in> set ps \<Longrightarrow> n \<in> set (op_new L iu p) \<Longrightarrow> Q n"
  shows "\<forall>v\<in>set (foldl (op_spec L iu) vs ps). Q v"
  using assms
proof (induction ps arbitrary: vs)
  case (Cons p ps)
  have "\<forall>n\<in>set (op_new L iu p). Q n" "\<forall>v\<in>set vs. Q (op_update iu p v)"
    using Cons.prems(2,3) [of p] Cons.prems(1) by simp_all
  with Cons.prems(1) have "\<forall>v\<in>set (op_spec L iu vs p). Q v"
    by (simp add: op_spec_def upsert_key_def update_key_def) blast
  moreover have "\<forall>v\<in>set ws. Q v \<Longrightarrow> \<forall>v\<in>set (foldl (op_spec L iu) ws ps). Q v" for ws
    by (rule Cons.IH) (blast intro: Cons.prems(2,3) list.set_intros(2))+
  ultimately show ?case by simp
qed simp

definition version_flavors_ok :: "CapabilityDefinition list \<Rightarrow> MachineImageVersion \<Rightarrow> bool" where
  "version_flavors_ok caps v \<longleftrightarrow>
     flavors_ok (mv_CapabilityFlavors v) \<and> (\<forall>f\<in>set (mv_CapabilityFlavors v). declared caps f)"

lemma merge_declared:
  assumes "caps_ok c" "\<forall>f\<in>set fs. declared caps f"
  shows "\<forall>f\<in>set (mergeCapabilityFlavor fs (filterCapabilities c (allowedCapabilityValues caps))).
    declared caps f"
  using assms by (auto simp: mergeCapabilityFlavor_def filterCapabilities_declared)

lemma flavors_ok_Nil [simp]: "flavors_ok []"
  by (simp add: flavors_ok_def)

text \<open>C15 Apply_declared_flavors. Only declared capabilities reach the CloudProfile: every flavor of every version of the
  updated image uses capability names and values that the profile's MachineCapabilities declare, and no two
  flavors of a version are equal, provided this held before.\<close>

theorem Apply_declared_flavors:
  assumes d: "versions_distinct (image_versions (iu_ImageName iu) base)"
    and c: "\<forall>s\<in>set srcs. caps_ok (si_Capabilities s)"
    and q: "\<forall>v\<in>set (image_versions (iu_ImageName iu) base). version_flavors_ok caps v"
    and A: "Apply L iu caps base pc srcs = Ok (imgs, pc1)"
  shows "\<forall>v\<in>set (image_versions (iu_ImageName iu) imgs). version_flavors_ok caps v"
proof -
  let ?al = "allowedCapabilityValues caps"
  have src: "\<exists>c. caps_ok c \<and> si_Capabilities s = filterCapabilities c ?al"
    if "s \<in> set (filter_sources caps srcs)" for s
    using that c by (auto simp: filter_sources_fields)
  have clean: "version_flavors_ok caps (v\<lparr>mv_CapabilityFlavors := mergeCapabilityFlavor (mv_CapabilityFlavors v) (si_Capabilities s)\<rparr>)"
    if "s \<in> set (filter_sources caps srcs)" "version_flavors_ok caps v" for s v
    using src [OF that(1)] that(2) merge_declared mergeCapabilityFlavor_ok filterCapabilities_ok
    by (auto simp: version_flavors_ok_def)
  let ?ps = "source_ops iu (filter_sources caps srcs)"
  have "\<forall>v\<in>set (foldl (op_spec L iu) (image_versions (iu_ImageName iu) base) ?ps). version_flavors_ok caps v"
  proof (rule foldl_op_spec_all [OF q])
    fix p v assume "p \<in> set ?ps" "version_flavors_ok caps v"
    then show "version_flavors_ok caps (op_update iu p v)"
      using clean [of _ v]
      by (cases p rule: vop.exhaust) (auto simp: version_flavors_ok_def legacy_update_def clean_update_def source_ops_CleanOp)
  next
    fix p n assume "p \<in> set ?ps" "n \<in> set (op_new L iu p)"
    then show "version_flavors_ok caps n"
      using clean [of _ "blank_version []"]
      by (cases p rule: vop.exhaust) (auto simp: version_flavors_ok_def legacy_new_def clean_new_def blank_version_def
          source_ops_CleanOp split: if_splits)
  qed
  then show ?thesis using Apply_spec [OF d A] by (simp add: source_spec_ops)
qed

end
