(* ===== verification/Fanout.thy ===== *)
theory Fanout
  imports GoBase
begin

section \<open>Fan-out over goroutines\<close>

text \<open>
  Both image sources have the same concurrent core (\<^verbatim>\<open>OCI.GetVersions\<close> in \<^verbatim>\<open>source/oci/os_source.go\<close>,
  \<^verbatim>\<open>Glance.GetVersions\<close> in \<^verbatim>\<open>source/glance/os_source.go\<close>): one goroutine per tag or region acquires a
  permit of a weighted semaphore, works, sends its result on a channel and releases the permit; a
  collector receives as many results as there are goroutines, and may return early on a result that makes
  it halt. Here it is a step relation. The parameters are the number of goroutines, the permits, the
  capacity of the channel (0 for an unbuffered one), the results a goroutine may produce, the results it
  sends when acquiring the permit fails because the context ended (none if it never ends), and the
  results on which the collector halts.

  A goroutine that could not acquire sends without a permit and has none to release, as in the code,
  where the deferred release is registered after the acquisition. The deferred release runs after the
  send: a goroutine keeps its permit while it waits for the collector.
\<close>

datatype 'r phase =
    Waiting
  | Working
  | Offering 'r    \<comment> \<open>has a permit and is about to send\<close>
  | Refused 'r     \<comment> \<open>has no permit and is about to send the error\<close>
  | Releasing 'r   \<comment> \<open>has sent and still has its permit\<close>
  | Finished 'r

record 'r fan =
  fn_count :: nat
  fn_permits :: nat
  fn_cap :: nat
  fn_work :: "nat \<Rightarrow> 'r set"
  fn_refuse :: "nat \<Rightarrow> 'r set"
  fn_halt :: "'r \<Rightarrow> bool"

record 'r fan_state =
  fs_workers :: "'r phase list"
  fs_held :: nat
  fs_buf :: "'r list"
  fs_got :: "'r list"

definition fan_init :: "'r fan \<Rightarrow> 'r fan_state" where
  "fan_init F = \<lparr>fs_workers = replicate (fn_count F) Waiting, fs_held = 0, fs_buf = [], fs_got = []\<rparr>"

text \<open>The collector is still receiving.\<close>

definition receiving :: "'r fan \<Rightarrow> 'r fan_state \<Rightarrow> bool" where
  "receiving F s \<longleftrightarrow> length (fs_got s) < fn_count F \<and> \<not> (\<exists>r\<in>set (fs_got s). fn_halt F r)"

text \<open>What a goroutine becomes once its result is on the channel.\<close>

fun sent :: "'r phase \<Rightarrow> 'r phase" where
  "sent (Offering r) = Releasing r"
| "sent (Refused r) = Finished r"
| "sent p = p"

fun pending :: "'r phase \<Rightarrow> 'r option" where
  "pending (Offering r) = Some r"
| "pending (Refused r) = Some r"
| "pending p = None"

inductive fan_step :: "'r fan \<Rightarrow> 'r fan_state \<Rightarrow> 'r fan_state \<Rightarrow> bool" for F where
  acquire:
    "i < length (fs_workers s) \<Longrightarrow> fs_workers s ! i = Waiting \<Longrightarrow> fs_held s < fn_permits F \<Longrightarrow>
     fan_step F s (s\<lparr>fs_workers := (fs_workers s)[i := Working], fs_held := Suc (fs_held s)\<rparr>)"
| refuse:
    "i < length (fs_workers s) \<Longrightarrow> fs_workers s ! i = Waiting \<Longrightarrow> r \<in> fn_refuse F i \<Longrightarrow>
     fan_step F s (s\<lparr>fs_workers := (fs_workers s)[i := Refused r]\<rparr>)"
| work:
    "i < length (fs_workers s) \<Longrightarrow> fs_workers s ! i = Working \<Longrightarrow> r \<in> fn_work F i \<Longrightarrow>
     fan_step F s (s\<lparr>fs_workers := (fs_workers s)[i := Offering r]\<rparr>)"
| send:
    "i < length (fs_workers s) \<Longrightarrow> pending (fs_workers s ! i) = Some r \<Longrightarrow>
     length (fs_buf s) < fn_cap F \<Longrightarrow>
     fan_step F s (s\<lparr>fs_workers := (fs_workers s)[i := sent (fs_workers s ! i)], fs_buf := fs_buf s @ [r]\<rparr>)"
| handoff:
    "i < length (fs_workers s) \<Longrightarrow> pending (fs_workers s ! i) = Some r \<Longrightarrow>
     receiving F s \<Longrightarrow> fs_buf s = [] \<Longrightarrow>
     fan_step F s (s\<lparr>fs_workers := (fs_workers s)[i := sent (fs_workers s ! i)], fs_got := fs_got s @ [r]\<rparr>)"
| recv:
    "receiving F s \<Longrightarrow> fs_buf s = r # rs \<Longrightarrow>
     fan_step F s (s\<lparr>fs_buf := rs, fs_got := fs_got s @ [r]\<rparr>)"
| release:
    "i < length (fs_workers s) \<Longrightarrow> fs_workers s ! i = Releasing r \<Longrightarrow>
     fan_step F s (s\<lparr>fs_workers := (fs_workers s)[i := Finished r], fs_held := fs_held s - 1\<rparr>)"

inductive_cases fan_stepE: "fan_step F s t"

inductive fan_reach :: "'r fan \<Rightarrow> 'r fan_state \<Rightarrow> bool" for F where
  start: "fan_reach F (fan_init F)"
| move: "fan_reach F s \<Longrightarrow> fan_step F s t \<Longrightarrow> fan_reach F t"

subsection \<open>Invariants\<close>

fun holds_permit :: "'r phase \<Rightarrow> bool" where
  "holds_permit Working = True"
| "holds_permit (Offering r) = True"
| "holds_permit (Releasing r) = True"
| "holds_permit p = False"

fun delivered :: "'r phase \<Rightarrow> 'r list" where
  "delivered (Releasing r) = [r]"
| "delivered (Finished r) = [r]"
| "delivered p = []"

fun phase_ok :: "'r fan \<Rightarrow> nat \<Rightarrow> 'r phase \<Rightarrow> bool" where
  "phase_ok F i Waiting = True"
| "phase_ok F i Working = True"
| "phase_ok F i (Offering r) = (r \<in> fn_work F i)"
| "phase_ok F i (Refused r) = (r \<in> fn_refuse F i)"
| "phase_ok F i (Releasing r) = (r \<in> fn_work F i)"
| "phase_ok F i (Finished r) = (r \<in> fn_work F i \<or> r \<in> fn_refuse F i)"

definition held_count :: "'r phase list \<Rightarrow> nat" where
  "held_count ws = length (filter holds_permit ws)"

definition delivered_all :: "'r phase list \<Rightarrow> 'r list" where
  "delivered_all ws = concat (map delivered ws)"

definition fan_inv :: "'r fan \<Rightarrow> 'r fan_state \<Rightarrow> bool" where
  "fan_inv F s \<longleftrightarrow>
     length (fs_workers s) = fn_count F \<and>
     fs_held s = held_count (fs_workers s) \<and> fs_held s \<le> fn_permits F \<and>
     length (fs_buf s) \<le> fn_cap F \<and>
     mset (fs_got s @ fs_buf s) = mset (delivered_all (fs_workers s)) \<and>
     (\<forall>i<length (fs_workers s). phase_ok F i (fs_workers s ! i))"

lemma held_count_update:
  "i < length ws \<Longrightarrow>
   held_count (ws[i := p]) + (if holds_permit (ws ! i) then 1 else 0) =
   held_count ws + (if holds_permit p then 1 else 0)"
proof (induction ws arbitrary: i)
  case (Cons w ws)
  show ?case
  proof (cases i)
    case (Suc j)
    with Cons show ?thesis by (auto simp: held_count_def split: if_splits)
  qed (simp add: held_count_def)
qed simp

lemma delivered_all_update:
  "i < length ws \<Longrightarrow>
   mset (delivered_all (ws[i := p])) + mset (delivered (ws ! i)) =
   mset (delivered_all ws) + mset (delivered p)"
proof (induction ws arbitrary: i)
  case (Cons w ws)
  show ?case
  proof (cases i)
    case (Suc j)
    with Cons.IH [of j] Cons.prems show ?thesis
      by (simp add: delivered_all_def)
  qed (simp add: delivered_all_def)
qed simp

text \<open>One goroutine moves, and nothing else that the invariant speaks of.\<close>

lemma held_count_same:
  "i < length ws \<Longrightarrow> holds_permit p = holds_permit (ws ! i) \<Longrightarrow> held_count (ws[i := p]) = held_count ws"
  using held_count_update [of i ws p] by (simp split: if_splits)

lemma delivered_all_same:
  "i < length ws \<Longrightarrow> delivered p = delivered (ws ! i) \<Longrightarrow>
   mset (delivered_all (ws[i := p])) = mset (delivered_all ws)"
  using delivered_all_update [of i ws p] by simp

lemma phases_update:
  assumes "\<forall>j<length ws. phase_ok F j (ws ! j)" "phase_ok F i p"
  shows "\<forall>j<length (ws[i := p]). phase_ok F j (ws[i := p] ! j)"
proof (intro allI impI)
  fix j assume "j < length (ws[i := p])"
  with assms show "phase_ok F j (ws[i := p] ! j)" by (cases "j = i") simp_all
qed

lemma pending_cases:
  assumes "pending p = Some r"
  obtains "p = Offering r" | "p = Refused r"
  using assms by (cases p rule: phase.exhaust) auto

lemma fan_inv_sent:
  assumes "i < length ws" "pending (ws ! i) = Some r" "phase_ok F i (ws ! i)"
  shows "held_count (ws[i := sent (ws ! i)]) = held_count ws"
    "mset (delivered_all (ws[i := sent (ws ! i)])) = add_mset r (mset (delivered_all ws))"
    "phase_ok F i (sent (ws ! i))"
proof -
  have "holds_permit (sent (ws ! i)) = holds_permit (ws ! i) \<and> delivered (ws ! i) = [] \<and>
    delivered (sent (ws ! i)) = [r] \<and> phase_ok F i (sent (ws ! i))"
    by (rule pending_cases [OF assms(2)]) (use assms(3) in simp_all)
  then have *: "holds_permit (sent (ws ! i)) = holds_permit (ws ! i)" "delivered (ws ! i) = []"
    "delivered (sent (ws ! i)) = [r]" "phase_ok F i (sent (ws ! i))" by simp_all
  show "held_count (ws[i := sent (ws ! i)]) = held_count ws"
    by (rule held_count_same [OF assms(1) *(1)])
  show "mset (delivered_all (ws[i := sent (ws ! i)])) = add_mset r (mset (delivered_all ws))"
    using delivered_all_update [OF assms(1), of "sent (ws ! i)"] * by simp
  show "phase_ok F i (sent (ws ! i))" by (rule *(4))
qed

lemma fan_inv_init: "fan_inv F (fan_init F)"
  by (simp add: fan_inv_def fan_init_def held_count_def delivered_all_def filter_empty_conv)

lemma fan_inv_step:
  assumes inv: "fan_inv F s" and step: "fan_step F s t"
  shows "fan_inv F t"
proof -
  note i = inv [unfolded fan_inv_def]
  show ?thesis using step
  proof cases
    case (acquire j)
    then show ?thesis using i held_count_update [of j "fs_workers s" Working]
      by (simp add: fan_inv_def delivered_all_same phases_update)
  next
    case (refuse j r)
    then show ?thesis using i
      by (simp add: fan_inv_def held_count_same delivered_all_same phases_update)
  next
    case (work j r)
    then show ?thesis using i
      by (simp add: fan_inv_def held_count_same delivered_all_same phases_update)
  next
    case (send j r)
    have "phase_ok F j (fs_workers s ! j)" using i send by simp
    from fan_inv_sent [OF send(2,3) this] show ?thesis using i send
      by (simp add: fan_inv_def phases_update)
  next
    case (handoff j r)
    have "phase_ok F j (fs_workers s ! j)" using i handoff by simp
    from fan_inv_sent [OF handoff(2,3) this] show ?thesis using i handoff
      by (simp add: fan_inv_def phases_update)
  next
    case (recv r rs)
    then show ?thesis using i by (simp add: fan_inv_def)
  next
    case (release j r)
    then have "phase_ok F j (Releasing r)" using i by metis
    then have "phase_ok F j (Finished r)" by simp
    moreover have "Suc (held_count ((fs_workers s)[j := Finished r])) = held_count (fs_workers s)"
      using release held_count_update [of j "fs_workers s" "Finished r"] by simp
    ultimately show ?thesis using release i
      by (simp add: fan_inv_def delivered_all_same phases_update)
        (metis One_nat_def diff_Suc_1 Suc_leD)
  qed
qed

lemma fan_reach_inv: "fan_reach F s \<Longrightarrow> fan_inv F s"
  by (induction rule: fan_reach.induct) (auto simp: fan_inv_init intro: fan_inv_step)

subsection \<open>No deadlock, no endless run\<close>

text \<open>
  Each step makes this measure smaller: a goroutine moves on, or a buffered result is received.
\<close>

fun weight :: "'r phase \<Rightarrow> nat" where
  "weight Waiting = 5"
| "weight Working = 4"
| "weight (Offering r) = 3"
| "weight (Refused r) = 2"
| "weight (Releasing r) = 1"
| "weight (Finished r) = 0"

definition fan_measure :: "'r fan_state \<Rightarrow> nat" where
  "fan_measure s = sum_list (map weight (fs_workers s)) + length (fs_buf s)"

lemma weight_update:
  "i < length ws \<Longrightarrow>
   sum_list (map weight (ws[i := p])) + weight (ws ! i) = sum_list (map weight ws) + weight p"
proof (induction ws arbitrary: i)
  case (Cons w ws)
  show ?case
  proof (cases i)
    case (Suc j)
    then show ?thesis using Cons.IH [of j] Cons.prems by simp
  qed simp
qed simp

lemma weight_sent: "pending p = Some r \<Longrightarrow> weight p = weight (sent p) + 2"
  by (erule pending_cases) simp_all

lemma fan_step_decreases: "fan_step F s t \<Longrightarrow> fan_measure t < fan_measure s"
proof (erule fan_stepE, goal_cases)
  case (1 i) then show ?case using weight_update [of i "fs_workers s" Working] by (simp add: fan_measure_def)
next
  case (2 i r) then show ?case using weight_update [of i "fs_workers s" "Refused r"] by (simp add: fan_measure_def)
next
  case (3 i r) then show ?case using weight_update [of i "fs_workers s" "Offering r"] by (simp add: fan_measure_def)
next
  case (4 i r)
  then show ?case
    using weight_update [of i "fs_workers s" "sent (fs_workers s ! i)"] weight_sent [of "fs_workers s ! i" r]
    by (simp add: fan_measure_def)
next
  case (5 i r)
  then show ?case
    using weight_update [of i "fs_workers s" "sent (fs_workers s ! i)"] weight_sent [of "fs_workers s ! i" r]
    by (simp add: fan_measure_def)
next
  case (6 r rs) then show ?case by (simp add: fan_measure_def)
next
  case (7 i r) then show ?case using weight_update [of i "fs_workers s" "Finished r"] by (simp add: fan_measure_def)
qed

text \<open>Every run is finite: no sequence of steps is longer than five per goroutine.\<close>

inductive fan_run :: "'r fan \<Rightarrow> 'r fan_state \<Rightarrow> nat \<Rightarrow> 'r fan_state \<Rightarrow> bool" for F where
  none: "fan_run F s 0 s"
| more: "fan_step F s t \<Longrightarrow> fan_run F t n u \<Longrightarrow> fan_run F s (Suc n) u"

lemma fan_run_bound: "fan_run F s n t \<Longrightarrow> n + fan_measure t \<le> fan_measure s"
  by (induction rule: fan_run.induct) (auto dest: fan_step_decreases)

lemma fan_run_reach: "fan_run F s n t \<Longrightarrow> fan_reach F s \<Longrightarrow> fan_reach F t"
  by (induction rule: fan_run.induct) (auto intro: fan_reach.move)

text \<open>A state without a successor, and what it looks like.\<close>

definition stuck :: "'r fan \<Rightarrow> 'r fan_state \<Rightarrow> bool" where
  "stuck F s \<longleftrightarrow> \<not> (\<exists>t. fan_step F s t)"

definition all_finished :: "'r fan_state \<Rightarrow> bool" where
  "all_finished s \<longleftrightarrow> (\<forall>p\<in>set (fs_workers s). \<exists>r. p = Finished r)"

text \<open>
  What the program's parameters have: a permit, and results for every goroutine. The channel either
  takes all results (Glance) or the collector never halts early (OCI).
\<close>

definition fan_ok :: "'r fan \<Rightarrow> bool" where
  "fan_ok F \<longleftrightarrow>
     0 < fn_permits F \<and> (\<forall>i. fn_work F i \<noteq> {}) \<and>
     (fn_count F \<le> fn_cap F \<or> (\<forall>r. \<not> fn_halt F r))"

lemma length_delivered: "length (delivered_all ws) + length (filter (\<lambda>p. delivered p = []) ws) = length ws"
proof (induction ws)
  case (Cons w ws)
  then show ?case by (cases w rule: phase.exhaust) (simp_all add: delivered_all_def)
qed (simp add: delivered_all_def)

lemma fan_got_length:
  assumes "fan_inv F s"
  shows "length (fs_got s) + length (fs_buf s) + length (filter (\<lambda>p. delivered p = []) (fs_workers s)) =
    fn_count F"
proof -
  have "length (fs_got s @ fs_buf s) = length (delivered_all (fs_workers s))"
    using assms unfolding fan_inv_def by (metis size_mset)
  with length_delivered [of "fs_workers s"] assms show ?thesis by (simp add: fan_inv_def)
qed

lemma some_undelivered:
  "i < length ws \<Longrightarrow> delivered (ws ! i) = [] \<Longrightarrow> 0 < length (filter (\<lambda>p. delivered p = []) ws)"
  by (metis (mono_tags, lifting) filter_empty_conv length_greater_0_conv nth_mem)

text \<open>A goroutine with a result can hand it over, into the channel or to the collector.\<close>

lemma can_send:
  assumes ok: "fan_ok F" and inv: "fan_inv F s" and st: "stuck F s"
    and i: "i < length (fs_workers s)" and p: "pending (fs_workers s ! i) = Some r"
  shows False
proof -
  have "delivered (fs_workers s ! i) = []" by (rule pending_cases [OF p]) simp_all
  then have less: "length (fs_got s) + length (fs_buf s) < fn_count F"
    using fan_got_length [OF inv] some_undelivered [OF i] by linarith
  show False
  proof (cases "length (fs_buf s) < fn_cap F")
    case True
    then show False using fan_step.send [OF i p] st unfolding stuck_def by blast
  next
    case False
    then have "\<forall>r. \<not> fn_halt F r" using ok less unfolding fan_ok_def by auto
    then have rec: "receiving F s" using less by (simp add: receiving_def)
    show False
    proof (cases "fs_buf s")
      case Nil
      then show False using fan_step.handoff [OF i p rec] st unfolding stuck_def by blast
    next
      case (Cons r rs)
      then show False using fan_step.recv [OF rec] st unfolding stuck_def by blast
    qed
  qed
qed

lemma stuck_no_holder:
  assumes ok: "fan_ok F" and inv: "fan_inv F s" and st: "stuck F s" and i: "i < length (fs_workers s)"
  shows "\<not> holds_permit (fs_workers s ! i)"
proof (cases "fs_workers s ! i" rule: phase.exhaust)
  case Working
  moreover obtain r where "r \<in> fn_work F i" using ok unfolding fan_ok_def by blast
  ultimately show ?thesis using fan_step.work [OF i] st unfolding stuck_def by blast
next
  case (Offering r)
  then show ?thesis using can_send [OF ok inv st i] by simp
next
  case (Releasing r)
  then show ?thesis using fan_step.release [OF i] st unfolding stuck_def by blast
qed simp_all

text \<open>The only states without a successor are those in which every goroutine has finished.\<close>

lemma stuck_all_finished:
  assumes ok: "fan_ok F" and inv: "fan_inv F s" and st: "stuck F s"
  shows "all_finished s"
proof -
  have "filter holds_permit (fs_workers s) = []"
    using stuck_no_holder [OF ok inv st] by (auto simp: filter_empty_conv in_set_conv_nth)
  then have "fs_held s = 0" using inv by (simp add: fan_inv_def held_count_def)
  then have free: "fs_held s < fn_permits F" using ok by (simp add: fan_ok_def)
  have "\<exists>r. fs_workers s ! i = Finished r" if i: "i < length (fs_workers s)" for i
  proof (cases "fs_workers s ! i" rule: phase.exhaust)
    case Waiting
    then show ?thesis using fan_step.acquire [OF i _ free] st unfolding stuck_def by blast
  next
    case (Refused r)
    then show ?thesis using can_send [OF ok inv st i] by simp
  qed (use stuck_no_holder [OF ok inv st i] in simp_all)
  then show ?thesis unfolding all_finished_def by (metis in_set_conv_nth)
qed

lemma stuck_collector_done:
  assumes ok: "fan_ok F" and inv: "fan_inv F s" and st: "stuck F s"
  shows "\<not> receiving F s"
proof
  assume rec: "receiving F s"
  have "fs_buf s = []"
    using fan_step.recv [OF rec] st unfolding stuck_def by (cases "fs_buf s") blast+
  moreover have "filter (\<lambda>p. delivered p = []) (fs_workers s) = []"
    using stuck_all_finished [OF ok inv st] by (auto simp: all_finished_def filter_empty_conv)
  ultimately show False using fan_got_length [OF inv] rec by (simp add: receiving_def)
qed

subsection \<open>Properties\<close>

text \<open>C23 fanout_bounded. The semaphore works: in every reachable state the goroutines that are fetching, sending or about to
  release are as many as the permits taken, and never more than the semaphore has.\<close>

theorem fanout_bounded:
  assumes "fan_reach F s"
  shows "length (filter holds_permit (fs_workers s)) = fs_held s \<and> fs_held s \<le> fn_permits F"
  using fan_reach_inv [OF assms] by (simp add: fan_inv_def held_count_def)

text \<open>From every state some run leads to a state without a successor.\<close>

lemma fan_run_exists: "\<exists>k t. fan_run F s k t \<and> stuck F t"
proof (induction "fan_measure s" arbitrary: s rule: less_induct)
  case less
  show ?case
  proof (cases "stuck F s")
    case True
    then show ?thesis using fan_run.none by blast
  next
    case False
    then obtain t where t: "fan_step F s t" unfolding stuck_def by blast
    from less [OF fan_step_decreases [OF t]] obtain k u where "fan_run F t k u" "stuck F u" by blast
    then show ?thesis using fan_run.more [OF t] by blast
  qed
qed

fun result_of :: "'r phase \<Rightarrow> 'r" where
  "result_of (Finished r) = r"
| "result_of (Releasing r) = r"
| "result_of (Offering r) = r"
| "result_of (Refused r) = r"
| "result_of p = undefined"

lemma delivered_all_finished: "all_finished s \<Longrightarrow> delivered_all (fs_workers s) = map result_of (fs_workers s)"
proof -
  have "\<forall>p\<in>set ws. \<exists>r. p = Finished r \<Longrightarrow> delivered_all ws = map result_of ws" for ws :: "'a phase list"
    by (induction ws) (auto simp: delivered_all_def)
  then show "all_finished s \<Longrightarrow> ?thesis" by (simp add: all_finished_def)
qed

lemma fan_results:
  assumes ok: "fan_ok F" and inv: "fan_inv F s" and st: "stuck F s"
    and nh: "\<forall>r\<in>set (fs_got s). \<not> fn_halt F r"
  shows "\<exists>rs. length rs = fn_count F \<and> mset (fs_got s) = mset rs \<and>
    (\<forall>i<fn_count F. rs ! i \<in> fn_work F i \<union> fn_refuse F i)"
proof (intro exI conjI allI impI)
  let ?rs = "map result_of (fs_workers s)"
  note fin = stuck_all_finished [OF ok inv st]
  note i = inv [unfolded fan_inv_def]
  show "length ?rs = fn_count F" using i by simp
  have "fn_count F \<le> length (fs_got s)"
    using stuck_collector_done [OF ok inv st] nh by (auto simp: receiving_def)
  then have "length (fs_buf s) = 0" using fan_got_length [OF inv] by linarith
  then have "fs_buf s = []" by simp
  then show "mset (fs_got s) = mset ?rs" using i delivered_all_finished [OF fin] by simp
  fix j assume j: "j < fn_count F"
  then obtain r where "fs_workers s ! j = Finished r"
    using fin i unfolding all_finished_def by (metis nth_mem)
  with i j show "?rs ! j \<in> fn_work F j \<union> fn_refuse F j" by (metis UnI1 UnI2 nth_map phase_ok.simps(6) result_of.simps(1))
qed

text \<open>C22 fanout_completes. Fan-out always completes: however the goroutines are scheduled, a run has at most five steps per
  goroutine, and it only stops when every goroutine has finished and all permits are back, so none is
  blocked or leaked, even when the collector returned early; unless it returned early, the collector has
  received exactly one result of every goroutine, in some order.\<close>

theorem fanout_completes:
  assumes ok: "fan_ok F" and run: "fan_run F (fan_init F) k s"
  shows "k \<le> 5 * fn_count F \<and> (\<exists>l t. fan_run F s l t \<and> stuck F t) \<and>
    (stuck F s \<longrightarrow> all_finished s \<and> fs_held s = 0 \<and>
      ((\<forall>r\<in>set (fs_got s). \<not> fn_halt F r) \<longrightarrow>
        (\<exists>rs. length rs = fn_count F \<and> mset (fs_got s) = mset rs \<and>
          (\<forall>i<fn_count F. rs ! i \<in> fn_work F i \<union> fn_refuse F i))))"
proof (intro conjI impI)
  have inv: "fan_inv F s" using fan_run_reach [OF run fan_reach.start] by (rule fan_reach_inv)
  show "k \<le> 5 * fn_count F"
    using fan_run_bound [OF run] by (simp add: fan_measure_def fan_init_def sum_list_replicate)
  show "\<exists>l t. fan_run F s l t \<and> stuck F t" by (rule fan_run_exists)
  assume st: "stuck F s"
  show fin: "all_finished s" by (rule stuck_all_finished [OF ok inv st])
  then have "filter holds_permit (fs_workers s) = []"
    by (auto simp: all_finished_def filter_empty_conv)
  then show "fs_held s = 0" using inv by (simp add: fan_inv_def held_count_def)
  assume "\<forall>r\<in>set (fs_got s). \<not> fn_halt F r"
  from fan_results [OF ok inv st this] show "\<exists>rs. length rs = fn_count F \<and> mset (fs_got s) = mset rs \<and>
      (\<forall>i<fn_count F. rs ! i \<in> fn_work F i \<union> fn_refuse F i)" .
qed

end
