(* ===== verification/SourceContract.thy ===== *)
theory SourceContract
  imports ImageUpdaterProps Fanout
begin

section \<open>The contract of a machine image source\<close>

text \<open>
  The interface \<^verbatim>\<open>ossync.Source\<close>: what \<^verbatim>\<open>GetVersions\<close> answers in an environment \<open>e\<close> (the registry or the
  regions, and the order in which the goroutines deliver), for the environments that are possible. The
  law: every image has an architecture, no
  architecture twice, and its capabilities are a map. Both sources keep it, and it is what \<^verbatim>\<open>Fetch\<close> needs
  to hand \<^verbatim>\<open>Apply\<close> images that it can apply again without a change.
\<close>

definition delivered_ok :: "SourceImage \<Rightarrow> bool" where
  "delivered_ok x \<longleftrightarrow>
     si_Architectures x \<noteq> [] \<and> distinct (si_Architectures x) \<and> caps_ok (si_Capabilities x)"

locale image_source =
  fixes possible :: "'e \<Rightarrow> bool"
    and get :: "'e \<Rightarrow> SourceImage list outcome"
  assumes get_ok: "possible e \<Longrightarrow> get e = Ok xs \<Longrightarrow> x \<in> set xs \<Longrightarrow> delivered_ok x"
begin

lemma Fetch_source_ok:
  assumes e: "possible e" and "semver_canonical L" "filter_lawful iu" "iu_Source iu = get e" "Fetch L iu = Ok xs"
  shows "\<forall>x\<in>set xs. source_ok L x"
proof
  fix x assume x: "x \<in> set xs"
  from Fetch_Ok [OF assms(3,5)] obtain raw where raw: "get e = Ok raw"
    "set xs \<subseteq> set (validateImageVersions L raw)" using assms(4) by auto
  with x obtain y where y: "y \<in> set raw" "validate_one L y = Some x"
    using set_validateImageVersions [of x L raw] by blast
  have "delivered_ok y" by (rule get_ok [OF e raw(1) y(1)])
  with validate_one_frame [OF y(2)] validate_one_valid [OF assms(2) y(2)]
  show "source_ok L x" by (simp add: source_ok_def delivered_ok_def valid_source_def)
qed

text \<open>Validation never drops a delivered image for want of an architecture.\<close>

lemma Fetch_keeps:
  assumes e: "possible e" and "iu_Source iu = get e" "get e = Ok raw" "iu_Filter iu = None" "Fetch L iu = Ok xs"
    and "x \<in> set raw" "sv_valid L (si_Version x)"
  shows "\<exists>y\<in>set xs. si_Version y = si_Version x"
proof -
  have "delivered_ok x" by (rule get_ok [OF e assms(3,6)])
  then obtain y where y: "validate_one L x = Some y" "si_Version y = si_Version x"
    using assms(7) by (auto simp: validate_one_Some delivered_ok_def)
  have "xs = SortFunc source_cmp (validateImageVersions L raw)"
    using assms(2-5) by (simp add: Fetch_def Let_def)
  moreover have "y \<in> set (validateImageVersions L raw)"
    using y(1) assms(6) by (auto simp: set_validateImageVersions)
  ultimately show ?thesis using y(2) by auto
qed

end

end
