(* ===== verification/GarbageCollection.thy ===== *)
theory GarbageCollection
  imports ImageUpdaterProps
begin

section \<open>Garbage collection of image versions\<close>

text \<open>
  Models \<^verbatim>\<open>cloudprofilesync/ossync/gc/gc.go\<close> (asking a Keppel registry for the push times of its tags)
  and \<^verbatim>\<open>controllers/garbage_collection.go\<close> (the filter that drops old, unreferenced images, and how it
  is built). The HTTP round trip and the JSON decoder are fields of a record; the list of shoots is
  optional, as the code passes a pointer that may be nil and dereferences it.
\<close>

subsection \<open>Tags and registries\<close>

definition NormalizeTag :: "string \<Rightarrow> string" where
  "NormalizeTag tag = str_ReplaceAll ''_'' ''+'' tag"

lemma NormalizeTag_map: "NormalizeTag tag = map (\<lambda>c. if c = CHR ''_'' then CHR ''+'' else c) tag"
  by (simp add: NormalizeTag_def str_ReplaceAll_char)

lemma NormalizeTag_idem [simp]: "NormalizeTag (NormalizeTag tag) = NormalizeTag tag"
  by (simp add: NormalizeTag_map)

lemma NormalizeTag_eq_Nil [simp]: "NormalizeTag tag = [] \<longleftrightarrow> tag = []"
  by (simp add: NormalizeTag_map)

record KeppelTag =
  kt_Name :: string
  kt_PushedAt :: int64

record KeppelManifest =
  km_Digest :: string
  km_PushedAt :: int64
  km_Tags :: "KeppelTag list"

record http =
  ht_NewRequest :: "string \<Rightarrow> goerror option"
  ht_Do :: "string \<Rightarrow> goerror + (int \<times> string)" \<comment> \<open>status code and body of the response\<close>
  ht_Decode :: "string \<Rightarrow> goerror + KeppelManifest list"

text \<open>\<^verbatim>\<open>time.Unix(sec, 0)\<close>\<close>

definition time_Unix :: "int64 \<Rightarrow> time" where
  "time_Unix sec = sint sec * 1000000000"

definition splitKeppelRepository :: "string \<Rightarrow> (string \<times> string) outcome" where
  "splitKeppelRepository repository =
     (let parts = str_SplitN CHR ''/'' 2 repository in
      if length parts \<noteq> 2 \<or> parts ! 0 = [] \<or> parts ! 1 = []
      then Fail (Errorf ''invalid repository format %q, must be <account>/<repository-path>'' [FStr repository])
      else Ok (parts ! 0, parts ! 1))"

text \<open>
  \<^verbatim>\<open>url.URL{Scheme, Host}.String()\<close>: in a host, every byte besides letters, digits and the listed
  punctuation is percent-encoded; an empty host leaves out the two slashes.
\<close>

definition hex_digit :: "nat \<Rightarrow> char" where
  "hex_digit n = ''0123456789ABCDEF'' ! n"

definition host_char_ok :: "char \<Rightarrow> bool" where
  "host_char_ok c \<longleftrightarrow>
     (let n = (of_char c :: nat) in
      48 \<le> n \<and> n \<le> 57 \<or> 65 \<le> n \<and> n \<le> 90 \<or> 97 \<le> n \<and> n \<le> 122) \<or>
     c \<in> set ''!$&()*+,;=:[]<>-_.~'' \<or> c = CHR 0x22 \<or> c = CHR 0x27"

definition escape_host :: "string \<Rightarrow> string" where
  "escape_host s =
     concat (map (\<lambda>c. if host_char_ok c then [c]
       else [CHR ''%'', hex_digit (of_char c div 16), hex_digit (of_char c mod 16)]) s)"

definition registryBaseURL :: "string \<Rightarrow> bool \<Rightarrow> string" where
  "registryBaseURL registryHost insecure =
     (let scheme = (if insecure then ''http'' else ''https'') in
      scheme @ '':'' @ (if registryHost = [] then [] else ''//'' @ escape_host registryHost))"

definition keppelURL :: "string \<Rightarrow> string \<Rightarrow> string outcome" where
  "keppelURL baseURL repository =
     bindO (splitKeppelRepository repository)
       (\<lambda>(account, repo).
          Ok (baseURL @ ''/keppel/v1/accounts/'' @ account @ ''/repositories/'' @ repo @ ''/_manifests''))"

fun collect_tags :: "KeppelTag list \<Rightarrow> (string, time) gomap \<Rightarrow> (string, time) gomap" where
  "collect_tags [] tagMap = tagMap"
| "collect_tags (t # ts) tagMap =
     collect_tags ts
       (if kt_PushedAt t = 0 then tagMap else map_put (kt_Name t) (time_Unix (kt_PushedAt t)) tagMap)"

fun collect_manifests :: "KeppelManifest list \<Rightarrow> (string, time) gomap \<Rightarrow> (string, time) gomap" where
  "collect_manifests [] tagMap = tagMap"
| "collect_manifests (m # ms) tagMap = collect_manifests ms (collect_tags (km_Tags m) tagMap)"

definition FetchKeppelTags :: "http \<Rightarrow> string \<Rightarrow> string \<Rightarrow> (string, time) gomap outcome" where
  "FetchKeppelTags H registry repository =
     (let baseURL = registryBaseURL registry False in
      bindO (wrapO ''failed to build keppel URL: %w'' [] (keppelURL baseURL repository)) (\<lambda>url.
        case ht_NewRequest H url of
          Some err \<Rightarrow> Fail (Wrapf ''failed to create keppel request: %w'' [] err)
        | None \<Rightarrow>
            (case ht_Do H url of
               Inl err \<Rightarrow> Fail err
             | Inr (status, body) \<Rightarrow>
                 if status \<noteq> 200 then Fail (Errorf ''keppel API returned status %d'' [FInt status])
                 else (case ht_Decode H body of
                         Inl err \<Rightarrow> Fail err
                       | Inr manifests \<Rightarrow> Ok (collect_manifests manifests [])))))"

type_synonym RegistryClient = "string \<Rightarrow> string \<Rightarrow> (string, time) gomap outcome"

definition getRegistryProvider :: "http \<Rightarrow> (string \<Rightarrow> string) \<Rightarrow> string \<Rightarrow> RegistryClient outcome" where
  "getRegistryProvider H unicode registry =
     (if registry = [] then Fail (Errorf ''registry cannot be empty'' [])
      else if str_Contains (str_ToLower unicode registry) ''keppel'' then Ok (FetchKeppelTags H)
      else Fail (Errorf ''no registry provider found for registry'' []))"

subsection \<open>The filter\<close>

record GCFilter =
  fl_Tags :: "(string, time) gomap"
  fl_Protected :: "string set"
  fl_Cutoff :: time

definition keep :: "GCFilter \<Rightarrow> SourceImage \<Rightarrow> bool" where
  "keep f img =
     (if si_Version img \<in> fl_Protected f then True
      else if si_CleanVersion img \<noteq> [] \<and> si_CleanVersion img \<in> fl_Protected f then True
      else (case map_of (fl_Tags f) (si_Version img) of
              None \<Rightarrow> True
            | Some pushedAt \<Rightarrow> \<not> pushedAt < fl_Cutoff f))"

fun Filter_loop :: "GCFilter \<Rightarrow> SourceImage list \<Rightarrow> SourceImage list \<Rightarrow> SourceImage list" where
  "Filter_loop f [] kept = kept"
| "Filter_loop f (img # imgs) kept = Filter_loop f imgs (if keep f img then kept @ [img] else kept)"

definition Filter :: "GCFilter \<Rightarrow> SourceImage list \<Rightarrow> SourceImage list" where
  "Filter f images = Filter_loop f images []"

lemma Filter_loop_eq: "Filter_loop f imgs kept = kept @ filter (keep f) imgs"
  by (induction f imgs kept rule: Filter_loop.induct) auto

lemma Filter_eq: "Filter f imgs = filter (keep f) imgs"
  by (simp add: Filter_def Filter_loop_eq)

interpretation gc_filter: version_filter "Filter f" for f
  by unfold_locales (simp add: Filter_eq)

subsection \<open>Building the filter\<close>

text \<open>The loops over the workers of a shoot and over the shoots.\<close>

fun referenced_workers :: "string \<Rightarrow> ShootMachineImage option list \<Rightarrow> string set \<Rightarrow> string set" where
  "referenced_workers imageName [] referenced = referenced"
| "referenced_workers imageName (img # workers) referenced =
     referenced_workers imageName workers
       (case img of
          None \<Rightarrow> referenced
        | Some i \<Rightarrow>
            if sm_Name i \<noteq> imageName then referenced
            else (case sm_Version i of
                    None \<Rightarrow> referenced
                  | Some v \<Rightarrow> insert (NormalizeTag v) referenced))"

fun referenced_shoots :: "string \<Rightarrow> string \<Rightarrow> Shoot list \<Rightarrow> string set \<Rightarrow> string set" where
  "referenced_shoots cloudProfileName imageName [] referenced = referenced"
| "referenced_shoots cloudProfileName imageName (shoot # shoots) referenced =
     referenced_shoots cloudProfileName imageName shoots
       (if sh_CloudProfile shoot \<noteq> Some cloudProfileName then referenced
        else referenced_workers imageName (sh_WorkerImages shoot) referenced)"

definition referencedVersions :: "Shoot list option \<Rightarrow> string \<Rightarrow> string \<Rightarrow> string set outcome" where
  "referencedVersions shoots cloudProfileName imageName =
     (case shoots of
        None \<Rightarrow> Panic
      | Some items \<Rightarrow> Ok (referenced_shoots cloudProfileName imageName items {}))"

fun normalize_tags :: "(string, time) gomap \<Rightarrow> (string, time) gomap \<Rightarrow> (string, time) gomap" where
  "normalize_tags [] tags = tags"
| "normalize_tags ((tag, pushedAt) # rest) tags =
     normalize_tags rest (map_put (NormalizeTag tag) pushedAt tags)"

definition buildGCFilter ::
  "(string \<Rightarrow> RegistryClient outcome) \<Rightarrow> time \<Rightarrow> ManagedCloudProfile \<Rightarrow> Shoot list option
   \<Rightarrow> MachineImageUpdate \<Rightarrow> GCFilter option outcome" where
  "buildGCFilter RegistryProviderFunc now mcp shoots update =
     (case ms_GarbageCollection (mcp_Spec mcp) of
        None \<Rightarrow> Ok None
      | Some gc \<Rightarrow>
          if \<not> gc_Enabled gc then Ok None
          else if ms_MachineImagesPaused (mcp_Spec mcp) then Ok None
          else (case us_OCI (mu_Source update) of
             None \<Rightarrow> Ok None
           | Some oci \<Rightarrow>
               if sint (gc_MaxAge gc) < 0
               then Fail (Errorf ''invalid garbage collection maxAge: %s'' [FInt (sint (gc_MaxAge gc))])
               else
                 bindO (wrapO ''no registry provider found for registry %q: %w'' [FStr (oci_Registry oci)]
                          (RegistryProviderFunc (oci_Registry oci))) (\<lambda>registryClient.
                 bindO (wrapO ''failed to fetch tags: %w'' []
                          (registryClient (oci_Registry oci) (oci_Repository oci))) (\<lambda>rawTags.
                 let tags = normalize_tags rawTags [] in
                 bindO (referencedVersions shoots (mcp_Name mcp) (mu_ImageName update)) (\<lambda>protected.
                 Ok (Some \<lparr>fl_Tags = tags, fl_Protected = protected,
                           fl_Cutoff = time_Add now (- gc_MaxAge gc)\<rparr>))))))"

subsection \<open>What the parts compute\<close>

text \<open>The versions that the workers of the shoots of a cloud profile use of an image.\<close>

definition in_use :: "Shoot list \<Rightarrow> string \<Rightarrow> string \<Rightarrow> string \<Rightarrow> bool" where
  "in_use shoots profile imageName v \<longleftrightarrow>
     (\<exists>shoot\<in>set shoots. sh_CloudProfile shoot = Some profile \<and>
        Some \<lparr>sm_Name = imageName, sm_Version = Some v\<rparr> \<in> set (sh_WorkerImages shoot))"

lemma referenced_workers_eq:
  "referenced_workers n ws R =
     R \<union> {NormalizeTag v | v. Some \<lparr>sm_Name = n, sm_Version = Some v\<rparr> \<in> set ws}"
proof (induction ws arbitrary: R)
  case (Cons img ws)
  show ?case
  proof (cases img)
    case (Some i)
    obtain m v where "i = \<lparr>sm_Name = m, sm_Version = v\<rparr>" by (cases i) simp
    with Some show ?thesis by (cases v) (auto simp: Cons.IH)
  qed (simp add: Cons.IH)
qed simp

lemma referenced_shoots_eq:
  "referenced_shoots p n shoots R = R \<union> {NormalizeTag v | v. in_use shoots p n v}"
proof (induction p n shoots R rule: referenced_shoots.induct)
  case (2 p n shoot shoots R)
  then show ?case
    by (cases "sh_CloudProfile shoot = Some p") (auto simp: in_use_def referenced_workers_eq)
qed (simp add: in_use_def)

lemma referencedVersions_Ok:
  "referencedVersions (Some shoots) p n = Ok {NormalizeTag v | v. in_use shoots p n v}"
  by (simp add: referencedVersions_def referenced_shoots_eq)

lemma normalize_tags_eq:
  "map_of (normalize_tags raw m) = map_of m ++ map_of (rev (map (\<lambda>(t, p). (NormalizeTag t, p)) raw))"
  by (induction raw m rule: normalize_tags.induct)
    (auto simp: map_of_map_put map_add_def split: option.split)

lemma buildGCFilter_Some:
  assumes "buildGCFilter RP now mcp shoots update = Ok (Some f)"
  obtains gc oci items client raw where
    "ms_GarbageCollection (mcp_Spec mcp) = Some gc" "gc_Enabled gc"
    "\<not> ms_MachineImagesPaused (mcp_Spec mcp)" "us_OCI (mu_Source update) = Some oci"
    "0 \<le> sint (gc_MaxAge gc)" "shoots = Some items"
    "RP (oci_Registry oci) = Ok client" "client (oci_Registry oci) (oci_Repository oci) = Ok raw"
    "f = \<lparr>fl_Tags = normalize_tags raw [],
          fl_Protected = {NormalizeTag v | v. in_use items (mcp_Name mcp) (mu_ImageName update) v},
          fl_Cutoff = time_Add now (- gc_MaxAge gc)\<rparr>"
proof -
  obtain gc where gc: "ms_GarbageCollection (mcp_Spec mcp) = Some gc" "gc_Enabled gc"
    "\<not> ms_MachineImagesPaused (mcp_Spec mcp)"
    using assms by (auto simp: buildGCFilter_def split: option.splits if_splits)
  obtain oci where oci: "us_OCI (mu_Source update) = Some oci" "0 \<le> sint (gc_MaxAge gc)"
    using assms gc by (auto simp: buildGCFilter_def not_less split: option.splits if_splits)
  obtain items where items: "shoots = Some items"
    using assms gc oci
    by (cases shoots) (auto simp: buildGCFilter_def referencedVersions_def outcome_simps Let_def)
  obtain client raw where c: "RP (oci_Registry oci) = Ok client"
    "client (oci_Registry oci) (oci_Repository oci) = Ok raw"
    using assms gc oci by (auto simp: buildGCFilter_def outcome_simps)
  show ?thesis
    by (rule that [OF gc oci items c])
      (use assms gc oci items c in \<open>simp add: buildGCFilter_def referencedVersions_Ok Let_def\<close>)
qed

text \<open>Negating a duration that is not negative does not wrap around.\<close>

lemma sint_uminus_nonneg: "0 \<le> sint (d :: int64) \<Longrightarrow> sint (- d) = - sint d"
proof -
  assume d: "0 \<le> sint d"
  have "sint d \<le> 2 ^ 63 - 1" using sint_lt [of d] by simp
  with d show ?thesis by (simp add: sint_word_ariths signed_take_bit_int_eq_self)
qed

lemma cutoff_eq: "0 \<le> sint d \<Longrightarrow> time_Add now (- d) = now - sint d"
  by (simp add: time_Add_def sint_uminus_nonneg)

subsection \<open>Properties\<close>

lemma keep_protected:
  "si_Version img \<in> fl_Protected f \<or> si_CleanVersion img \<noteq> [] \<and> si_CleanVersion img \<in> fl_Protected f \<Longrightarrow>
   keep f img"
  by (auto simp: keep_def)

text \<open>Garbage collection never drops an image that a Shoot uses: when a worker of a Shoot of this cloud
  profile runs the image at a version, the filter keeps every source image whose tag or whose clean version
  is that version (in normalized form), however old it is.\<close>

lemma gc_keeps_used:
  assumes "buildGCFilter RP now mcp (Some shoots) update = Ok (Some f)"
    and "in_use shoots (mcp_Name mcp) (mu_ImageName update) v"
    and "img \<in> set images" "v \<noteq> []"
    and "si_Version img = NormalizeTag v \<or> si_CleanVersion img = NormalizeTag v"
  shows "img \<in> set (Filter f images)"
  using assms(1)
proof (rule buildGCFilter_Some)
  fix items raw gc
  assume "Some shoots = Some items" "f = \<lparr>fl_Tags = normalize_tags raw [],
      fl_Protected = {NormalizeTag v | v. in_use items (mcp_Name mcp) (mu_ImageName update) v},
      fl_Cutoff = time_Add now (- gc_MaxAge gc)\<rparr>"
  then have "NormalizeTag v \<in> fl_Protected f" using assms(2) by auto
  moreover have "NormalizeTag v \<noteq> []" using assms(4) by simp
  ultimately have "keep f img" using assms(5) keep_protected [of img f] by metis
  with assms(3) show ?thesis by (simp add: Filter_eq)
qed

definition used_by_shoots :: "Shoot list \<Rightarrow> string \<Rightarrow> string \<Rightarrow> SourceImage \<Rightarrow> bool" where
  "used_by_shoots shoots profile imageName img \<longleftrightarrow>
     (\<exists>v. in_use shoots profile imageName v \<and>
        (NormalizeTag v = si_Version img \<or>
         si_CleanVersion img \<noteq> [] \<and> NormalizeTag v = si_CleanVersion img))"

definition pushed_before :: "(string, time) gomap \<Rightarrow> time \<Rightarrow> SourceImage \<Rightarrow> bool" where
  "pushed_before raw t img \<longleftrightarrow>
     (\<exists>(tag, pushedAt)\<in>set raw. NormalizeTag tag = si_Version img \<and> pushedAt < t)"

lemma keep_iff:
  "keep f img \<longleftrightarrow> si_Version img \<in> fl_Protected f \<or>
     si_CleanVersion img \<noteq> [] \<and> si_CleanVersion img \<in> fl_Protected f \<or>
     \<not> (\<exists>p. map_of (fl_Tags f) (si_Version img) = Some p \<and> p < fl_Cutoff f)"
  by (auto simp: keep_def split: option.split)

lemma keep_normalized:
  assumes "distinct (map (NormalizeTag \<circ> fst) raw)"
  shows "keep \<lparr>fl_Tags = normalize_tags raw [],
      fl_Protected = {NormalizeTag v | v. in_use shoots profile n v}, fl_Cutoff = t\<rparr> img \<longleftrightarrow>
    used_by_shoots shoots profile n img \<or> \<not> pushed_before raw t img"
proof -
  let ?f = "\<lparr>fl_Tags = normalize_tags raw [],
    fl_Protected = {NormalizeTag v | v. in_use shoots profile n v}, fl_Cutoff = t\<rparr>"
  let ?n = "map (\<lambda>(t, p). (NormalizeTag t, p)) raw"
  have "distinct (map fst (rev ?n))" using assms by (simp add: comp_def case_prod_unfold flip: rev_map)
  then have "map_of (fl_Tags ?f) (si_Version img) = Some p \<longleftrightarrow>
      (\<exists>tag. (tag, p) \<in> set raw \<and> NormalizeTag tag = si_Version img)" for p
    unfolding normalize_tags_eq by (auto simp: map_of_eq_Some_iff image_iff normalize_tags_eq) force
  then have "(\<exists>p. map_of (fl_Tags ?f) (si_Version img) = Some p \<and> p < t) \<longleftrightarrow> pushed_before raw t img"
    unfolding pushed_before_def by auto
  moreover have "keep ?f img \<longleftrightarrow> si_Version img \<in> fl_Protected ?f \<or>
      si_CleanVersion img \<noteq> [] \<and> si_CleanVersion img \<in> fl_Protected ?f \<or>
      \<not> (\<exists>p. map_of (fl_Tags ?f) (si_Version img) = Some p \<and> p < t)"
    using keep_iff [of ?f img] by simp
  moreover have "used_by_shoots shoots profile n img \<longleftrightarrow> si_Version img \<in> fl_Protected ?f \<or>
      si_CleanVersion img \<noteq> [] \<and> si_CleanVersion img \<in> fl_Protected ?f"
    unfolding used_by_shoots_def by auto
  ultimately show ?thesis by blast
qed

text \<open>C18 gc_collects_exactly. What garbage collection drops: exactly the images that no Shoot of the profile uses, by tag or by
  clean version, and whose tag the registry reports as pushed strictly before now minus the maximal age
  (without wrap-around). Images of unknown age stay, and the order of the remaining images is kept.\<close>

theorem gc_collects_exactly:
  assumes "buildGCFilter RP now mcp (Some shoots) update = Ok (Some f)"
    and "ms_GarbageCollection (mcp_Spec mcp) = Some gc" "us_OCI (mu_Source update) = Some oci"
    and "RP (oci_Registry oci) = Ok client" "client (oci_Registry oci) (oci_Repository oci) = Ok raw"
    and "distinct (map (NormalizeTag \<circ> fst) raw)"
  shows "Filter f images =
    filter (\<lambda>img. used_by_shoots shoots (mcp_Name mcp) (mu_ImageName update) img \<or>
      \<not> pushed_before raw (now - sint (gc_MaxAge gc)) img) images"
  using assms(1)
proof (rule buildGCFilter_Some)
  fix gc' oci' items client' raw'
  assume "ms_GarbageCollection (mcp_Spec mcp) = Some gc'" "us_OCI (mu_Source update) = Some oci'"
    "RP (oci_Registry oci') = Ok client'" "client' (oci_Registry oci') (oci_Repository oci') = Ok raw'"
    "0 \<le> sint (gc_MaxAge gc')" "Some shoots = Some items"
    "f = \<lparr>fl_Tags = normalize_tags raw' [],
      fl_Protected = {NormalizeTag v | v. in_use items (mcp_Name mcp) (mu_ImageName update) v},
      fl_Cutoff = time_Add now (- gc_MaxAge gc')\<rparr>"
  then have "f = \<lparr>fl_Tags = normalize_tags raw [],
      fl_Protected = {NormalizeTag v | v. in_use shoots (mcp_Name mcp) (mu_ImageName update) v},
      fl_Cutoff = now - sint (gc_MaxAge gc)\<rparr>"
    using assms(2-5) by (simp add: cutoff_eq)
  then show ?thesis unfolding Filter_eq
    by (intro filter_cong refl) (simp only: keep_normalized [OF assms(6)])
qed

text \<open>No filter at all is built, and no registry is asked, exactly when garbage collection is missing or
  disabled, the image updates are paused, or the source is not an OCI registry; a negative maximal age is
  an error before any registry is asked.\<close>

lemma gc_off:
  "(buildGCFilter RP now mcp (Some shoots) update = Ok None \<longleftrightarrow>
      (case ms_GarbageCollection (mcp_Spec mcp) of None \<Rightarrow> True | Some gc \<Rightarrow> \<not> gc_Enabled gc) \<or>
      ms_MachineImagesPaused (mcp_Spec mcp) \<or> us_OCI (mu_Source update) = None) \<and>
   (buildGCFilter RP now mcp (Some shoots) update = Ok None \<longrightarrow>
      buildGCFilter RP' now' mcp None update = Ok None) \<and>
   (\<forall>gc. buildGCFilter RP now mcp (Some shoots) update \<noteq> Ok None \<and>
      ms_GarbageCollection (mcp_Spec mcp) = Some gc \<and> sint (gc_MaxAge gc) < 0 \<longrightarrow>
      buildGCFilter RP' now' mcp None update =
        Fail (Errorf ''invalid garbage collection maxAge: %s'' [FInt (sint (gc_MaxAge gc))]))"
  by (auto simp: buildGCFilter_def referencedVersions_def outcome_simps Let_def split: option.split)

lemma splitKeppel_cases:
  "splitKeppelRepository s =
     (case str_Cut CHR ''/'' s of
        None \<Rightarrow> Fail (Errorf ''invalid repository format %q, must be <account>/<repository-path>'' [FStr s])
      | Some (p, r) \<Rightarrow>
          if p = [] \<or> r = []
          then Fail (Errorf ''invalid repository format %q, must be <account>/<repository-path>'' [FStr s])
          else Ok (p, r))"
  by (auto simp: splitKeppelRepository_def numeral_2_eq_2 Let_def split: option.split)

lemma splitKeppel_parts:
  "splitKeppelRepository s = Ok (account, repo) \<longleftrightarrow>
     s = account @ CHR ''/'' # repo \<and> account \<noteq> [] \<and> repo \<noteq> [] \<and> CHR ''/'' \<notin> set account"
proof
  show "splitKeppelRepository s = Ok (account, repo) \<Longrightarrow>
      s = account @ CHR ''/'' # repo \<and> account \<noteq> [] \<and> repo \<noteq> [] \<and> CHR ''/'' \<notin> set account"
    by (auto simp: splitKeppel_cases split: option.splits if_splits dest!: str_Cut_SomeD)
qed (simp add: splitKeppel_cases)

lemma splitKeppel_no_panic: "splitKeppelRepository s \<noteq> Panic"
  by (auto simp: splitKeppel_cases split: option.splits)

text \<open>C38 splitKeppelRepository_iff. Splitting a Keppel repository: it succeeds exactly on an account without a slash, a slash and a
  path, neither of them empty, and returns these two parts; on everything else it fails, and it never
  indexes out of range.\<close>

theorem splitKeppelRepository_iff:
  "(splitKeppelRepository s = Ok (account, repo) \<longleftrightarrow>
      s = account @ ''/'' @ repo \<and> account \<noteq> [] \<and> repo \<noteq> [] \<and> CHR ''/'' \<notin> set account) \<and>
   splitKeppelRepository s \<noteq> Panic"
  by (simp add: splitKeppel_parts splitKeppel_no_panic)

text \<open>The push times in document order, without the tags that have none.\<close>

definition pushed_tags :: "KeppelManifest list \<Rightarrow> (string \<times> time) list" where
  "pushed_tags ms =
     map (\<lambda>t. (kt_Name t, time_Unix (kt_PushedAt t)))
       (filter (\<lambda>t. kt_PushedAt t \<noteq> 0) (concat (map km_Tags ms)))"

lemma collect_tags_map:
  "map_of (collect_tags ts m) =
     map_of m ++ map_of (rev (map (\<lambda>t. (kt_Name t, time_Unix (kt_PushedAt t)))
       (filter (\<lambda>t. kt_PushedAt t \<noteq> 0) ts)))"
  by (induction ts m rule: collect_tags.induct)
    (auto simp: map_of_map_put map_add_def fun_eq_iff split: option.split)

lemma collect_manifests_map:
  "map_of (collect_manifests ms m) = map_of m ++ map_of (rev (pushed_tags ms))"
  by (induction ms m rule: collect_manifests.induct)
    (simp_all add: collect_tags_map pushed_tags_def map_add_assoc)

lemma collect_tags_ok: "gomap_ok m \<Longrightarrow> gomap_ok (collect_tags ts m)"
  by (induction ts m rule: collect_tags.induct) (simp_all add: gomap_ok_put)

lemma collect_manifests_ok: "gomap_ok m \<Longrightarrow> gomap_ok (collect_manifests ms m)"
  by (induction ms m rule: collect_manifests.induct) (simp_all add: collect_tags_ok)

definition manifests_url :: "string \<Rightarrow> string \<Rightarrow> string \<Rightarrow> string" where
  "manifests_url registry account repo =
     registryBaseURL registry False @ ''/keppel/v1/accounts/'' @ account @ ''/repositories/'' @ repo @
     ''/_manifests''"

lemma keppelURL_Ok:
  "keppelURL (registryBaseURL registry False) repository = Ok url \<longleftrightarrow>
     (\<exists>account repo. splitKeppelRepository repository = Ok (account, repo) \<and>
        url = manifests_url registry account repo)"
  by (auto simp: keppelURL_def manifests_url_def outcome_simps)

lemma FetchKeppelTags_Ok:
  assumes "FetchKeppelTags H registry repository = Ok tags"
  shows "\<exists>account repo body ms.
    splitKeppelRepository repository = Ok (account, repo) \<and>
    ht_NewRequest H (manifests_url registry account repo) = None \<and>
    ht_Do H (manifests_url registry account repo) = Inr (200, body) \<and>
    ht_Decode H body = Inr ms \<and> tags = collect_manifests ms []"
proof -
  obtain url where url: "keppelURL (registryBaseURL registry False) repository = Ok url"
    using assms by (auto simp: FetchKeppelTags_def outcome_simps)
  with assms have "ht_NewRequest H url = None \<and> (\<exists>body ms. ht_Do H url = Inr (200, body) \<and>
      ht_Decode H body = Inr ms \<and> tags = collect_manifests ms [])"
    by (auto simp: FetchKeppelTags_def split: option.splits sum.splits if_splits)
  with url show ?thesis unfolding keppelURL_Ok by blast
qed

text \<open>C39 FetchKeppelTags_result. What asking Keppel returns: success means that the repository splits into account and path, that
  the request to the manifests of exactly that account and path on the given registry was answered with
  status 200 and a readable body, and that the result maps each tag to its last push time in document order
  and has no tag without one.\<close>

theorem FetchKeppelTags_result:
  assumes "FetchKeppelTags H registry repository = Ok tags"
  shows "\<exists>account repo body ms.
    repository = account @ ''/'' @ repo \<and> CHR ''/'' \<notin> set account \<and>
    ht_Do H (manifests_url registry account repo) = Inr (200, body) \<and> ht_Decode H body = Inr ms \<and>
    gomap_ok tags \<and> map_of tags = map_of (rev (pushed_tags ms))"
proof -
  from FetchKeppelTags_Ok [OF assms] obtain account repo body ms where
    a: "splitKeppelRepository repository = Ok (account, repo)"
      "ht_Do H (manifests_url registry account repo) = Inr (200, body)"
      "ht_Decode H body = Inr ms" "tags = collect_manifests ms []" by blast
  have "repository = account @ ''/'' @ repo" "CHR ''/'' \<notin> set account"
    using a(1) splitKeppel_parts by simp_all
  moreover have "gomap_ok tags" "map_of tags = map_of (rev (pushed_tags ms))"
    unfolding a(4) by (simp_all add: collect_manifests_ok collect_manifests_map)
  ultimately show ?thesis using a by blast
qed

lemma FetchKeppelTags_no_panic: "FetchKeppelTags H registry repository \<noteq> Panic"
proof -
  have "keppelURL (registryBaseURL registry False) repository \<noteq> Panic"
    using splitKeppel_no_panic by (auto simp: keppelURL_def outcome_simps)
  then show ?thesis
    by (auto simp: FetchKeppelTags_def outcome_simps split: option.splits sum.splits)
qed

end
