(* ===== verification/OciSource.thy ===== *)
theory OciSource
  imports SourceContract GarbageCollection
begin

section \<open>The OCI image source\<close>

text \<open>
  Models \<^verbatim>\<open>cloudprofilesync/ossync/source/oci/os_source.go\<close>: one goroutine per tag reads the manifest of
  the tag and describes the image, the collector sorts the results into images, skipped tags and context
  errors. The registry client (oras-go) and the JSON decoder are fields of a record; the goroutines are
  the fan-out of theory \<open>Fanout\<close> over an unbuffered channel.
\<close>

definition usiImageFeature :: string where
  "usiImageFeature = ''_usi''"

subsection \<open>Annotations\<close>

fun split_loop :: "string list \<Rightarrow> string set \<Rightarrow> string set" where
  "split_loop [] out = out"
| "split_loop (f # fs) out =
     (let f = str_TrimSpace f in split_loop fs (if f \<noteq> [] then insert f out else out))"

definition splitAnnotationRaw :: "string \<Rightarrow> string set" where
  "splitAnnotationRaw raw = split_loop (str_Split CHR '','' raw) {}"

definition supportsInPlaceUpdate :: "(string, string) gomap \<Rightarrow> bool" where
  "supportsInPlaceUpdate annotations =
     (case map_of annotations FeatureSetAnnotation of
        None \<Rightarrow> False
      | Some raw \<Rightarrow> usiImageFeature \<in> splitAnnotationRaw raw)"

definition passesImageFilter :: "string set \<Rightarrow> ImageFilter option \<Rightarrow> bool" where
  "passesImageFilter rawFeatureSet flt =
     (case flt of
        None \<Rightarrow> True
      | Some f \<Rightarrow> list_all (\<lambda>req. req \<in> rawFeatureSet) (if_RequiredFeatureSetValues f))"

record collectedImage =
  ci_image :: SourceImage
  ci_featureSetRaw :: string

fun applyImageFilter :: "collectedImage list \<Rightarrow> ImageFilter option \<Rightarrow> SourceImage list" where
  "applyImageFilter [] flt = []"
| "applyImageFilter (item # items) flt =
     (if flt \<noteq> None \<and> \<not> passesImageFilter (splitAnnotationRaw (ci_featureSetRaw item)) flt
      then applyImageFilter items flt
      else ci_image item # applyImageFilter items flt)"

subsection \<open>The goroutine of a tag\<close>

text \<open>
  The repository client: the pages of tags and the error that ends them, the manifest bytes of a tag, and
  the decoder of the manifest's annotations.
\<close>

record repository =
  rp_Tags :: "string list list \<times> goerror option"
  rp_FetchReference :: "string \<Rightarrow> goerror + string"
  rp_Annotations :: "string \<Rightarrow> goerror + (string, string) gomap"

record OCISource =
  os_repo :: repository
  os_parallel :: int64
  os_featureToCapabilityMap :: "(string, string) gomap"
  os_imageFilter :: "ImageFilter option"

type_synonym result = "goerror + collectedImage"

text \<open>The loop over the map from feature-set values to capability names, in the order of one \<^verbatim>\<open>range\<close>.\<close>

fun feature_caps ::
  "string set \<Rightarrow> (string, string) gomap \<Rightarrow> (string, string list) gomap \<Rightarrow> (string, string list) gomap" where
  "feature_caps rawFeatureSet [] caps = caps"
| "feature_caps rawFeatureSet ((featureSetValue, capabilityName) # rest) caps =
     feature_caps rawFeatureSet rest
       (map_put capabilityName [if featureSetValue \<in> rawFeatureSet then ''true'' else ''false''] caps)"

definition image_capabilities ::
  "(string, string) gomap \<Rightarrow> string \<Rightarrow> string \<Rightarrow> string set \<Rightarrow> Capabilities" where
  "image_capabilities featureToCapabilityMap cleanVersion arch rawFeatureSet =
     (if length featureToCapabilityMap > 0 \<and> cleanVersion \<noteq> []
      then Some (feature_caps rawFeatureSet featureToCapabilityMap [(ArchitectureCapability, [arch])])
      else None)"

definition read_tag :: "OCISource \<Rightarrow> string \<Rightarrow> result" where
  "read_tag src tag =
     (case rp_FetchReference (os_repo src) tag of
        Inl err \<Rightarrow> Inl (Wrapf ''tag %s: failed to fetch manifest: %w'' [FStr tag] err)
      | Inr reader \<Rightarrow>
          (case rp_Annotations (os_repo src) reader of
             Inl err \<Rightarrow> Inl (Wrapf ''tag %s: failed to decode manifest: %w'' [FStr tag] err)
           | Inr annotations \<Rightarrow>
               (case map_of annotations ArchitectureCapability of
                  None \<Rightarrow> Inl (Errorf ''tag %s: architecture annotation not found'' [FStr tag])
                | Some arch \<Rightarrow>
                    (let cleanVersion = (case map_of annotations ''version'' of None \<Rightarrow> [] | Some v \<Rightarrow> v);
                         rawAnnotation =
                           (case map_of annotations FeatureSetAnnotation of None \<Rightarrow> [] | Some v \<Rightarrow> v);
                         rawFeatureSet = splitAnnotationRaw rawAnnotation
                     in Inr \<lparr>ci_image =
                          \<lparr>si_Version = str_ReplaceAll ''_'' ''+'' tag,
                           si_CleanVersion = cleanVersion,
                           si_Architectures = [arch],
                           si_Capabilities =
                             image_capabilities (os_featureToCapabilityMap src) cleanVersion arch rawFeatureSet,
                           si_SupportInPlaceUpdate = supportsInPlaceUpdate annotations,
                           si_Regions = [],
                           si_Classification = None,
                           si_ExpirationDate = None\<rparr>,
                          ci_featureSetRaw = rawAnnotation\<rparr>))))"

subsection \<open>The collector\<close>

text \<open>\<open>items\<close>, \<open>skipped\<close> and \<open>errs\<close> after receiving the results in this order.\<close>

fun collect ::
  "result list \<Rightarrow> collectedImage list \<Rightarrow> goerror list \<Rightarrow> goerror list
   \<Rightarrow> collectedImage list \<times> goerror list \<times> goerror list" where
  "collect [] items skipped errs = (items, skipped, errs)"
| "collect (Inl err # rs) items skipped errs =
     (if is_ctx_error err then collect rs items skipped (errs @ [err])
      else collect rs items (skipped @ [err]) errs)"
| "collect (Inr value # rs) items skipped errs = collect rs (items @ [value]) skipped errs"

text \<open>
  \<^verbatim>\<open>GetVersions\<close> returns the images together with the joined context errors; every caller looks at
  the error first and drops the images, so the outcome is a failure then.
\<close>

definition oci_collected :: "OCISource \<Rightarrow> nat \<Rightarrow> result list \<Rightarrow> SourceImage list outcome" where
  "oci_collected src ntags results =
     (let (items, skipped, errs) = collect results [] [] [];
          images = applyImageFilter items (os_imageFilter src)
      in if length errs = 0 \<and> length images = 0 \<and> length skipped = ntags
         then Fail (Errorf ''all %d tags were skipped; possible registry issue'' [FNat ntags])
         else (case errors_Join errs of Some e \<Rightarrow> Fail e | None \<Rightarrow> Ok images))"

text \<open>
  The whole call; \<open>deliver\<close> is the order (and the cancellations) in which the goroutines' results arrive
  for the tags that were listed.
\<close>

definition oci_GetVersions :: "OCISource \<Rightarrow> (string list \<Rightarrow> result list) \<Rightarrow> SourceImage list outcome" where
  "oci_GetVersions src deliver =
     (case rp_Tags (os_repo src) of
        (pages, Some err) \<Rightarrow> Fail err
      | (pages, None) \<Rightarrow>
          (let tags = concat pages in oci_collected src (length tags) (deliver tags)))"

text \<open>The fan-out of a call, with the errors that an ended context may produce.\<close>

definition oci_fan :: "OCISource \<Rightarrow> goerror set \<Rightarrow> string list \<Rightarrow> result fan" where
  "oci_fan src ctx tags =
     \<lparr>fn_count = length tags, fn_permits = nat (sint (os_parallel src)), fn_cap = 0,
      fn_work = (\<lambda>i. {read_tag src (tags ! i)} \<union> Inl ` ctx), fn_refuse = (\<lambda>i. Inl ` ctx),
      fn_halt = (\<lambda>r. False)\<rparr>"

text \<open>The connection parameters, \<^verbatim>\<open>ocirepo.New\<close>: what the client is created with.\<close>

record Params =
  pr_Registry :: string
  pr_Repository :: string
  pr_Username :: string
  pr_Password :: string
  pr_Insecure :: bool

record remote_config =
  rc_reference :: string
  rc_credential :: "(string \<times> string \<times> string) option" \<comment> \<open>host, user and password\<close>
  rc_PlainHTTP :: bool

definition ocirepo_New :: "(string \<Rightarrow> goerror option) \<Rightarrow> Params \<Rightarrow> remote_config outcome" where
  "ocirepo_New NewRepository params =
     (let reference = pr_Registry params @ ''/'' @ pr_Repository params in
      case NewRepository reference of
        Some err \<Rightarrow> Fail err
      | None \<Rightarrow>
          Ok \<lparr>rc_reference = reference,
              rc_credential =
                (if pr_Username params \<noteq> [] \<and> pr_Password params \<noteq> []
                 then Some (pr_Registry params, pr_Username params, pr_Password params) else None),
              rc_PlainHTTP = pr_Insecure params\<rparr>)"

definition NewOCI ::
  "(string \<Rightarrow> goerror option) \<Rightarrow> (remote_config \<Rightarrow> repository) \<Rightarrow> Params \<Rightarrow> int64
   \<Rightarrow> (string, string) gomap \<Rightarrow> ImageFilter option \<Rightarrow> OCISource outcome" where
  "NewOCI NewRepository connect params permits featureToCapabilityMap imageFilter =
     bindO (ocirepo_New NewRepository params) (\<lambda>repo.
       Ok \<lparr>os_repo = connect repo, os_parallel = permits,
           os_featureToCapabilityMap = featureToCapabilityMap, os_imageFilter = imageFilter\<rparr>)"

subsection \<open>What the parts compute\<close>

lemma split_loop_eq: "split_loop fs out = out \<union> (str_TrimSpace ` set fs - {[]})"
  by (induction fs out rule: split_loop.induct) (auto simp: Let_def)

lemma splitAnnotationRaw_eq:
  "splitAnnotationRaw raw = str_TrimSpace ` set (str_Split CHR '','' raw) - {[]}"
  by (simp add: splitAnnotationRaw_def split_loop_eq)

definition passes :: "ImageFilter option \<Rightarrow> collectedImage \<Rightarrow> bool" where
  "passes flt item \<longleftrightarrow> passesImageFilter (splitAnnotationRaw (ci_featureSetRaw item)) flt"

lemma applyImageFilter_eq: "applyImageFilter items flt = map ci_image (filter (passes flt) items)"
  by (induction items flt rule: applyImageFilter.induct) (auto simp: passes_def passesImageFilter_def)

abbreviation ok_values :: "result list \<Rightarrow> collectedImage list" where
  "ok_values \<equiv> List.map_filter (\<lambda>r. case r of Inl e \<Rightarrow> None | Inr v \<Rightarrow> Some v)"

abbreviation skip_errors :: "result list \<Rightarrow> goerror list" where
  "skip_errors \<equiv> List.map_filter (\<lambda>r. case r of Inl e \<Rightarrow> if is_ctx_error e then None else Some e | Inr v \<Rightarrow> None)"

abbreviation ctx_errors :: "result list \<Rightarrow> goerror list" where
  "ctx_errors \<equiv> List.map_filter (\<lambda>r. case r of Inl e \<Rightarrow> if is_ctx_error e then Some e else None | Inr v \<Rightarrow> None)"

lemma collect_eq:
  "collect rs items skipped errs =
     (items @ ok_values rs, skipped @ skip_errors rs, errs @ ctx_errors rs)"
  by (induction rs items skipped errs rule: collect.induct) (simp_all add: List.map_filter_simps)

lemma oci_collected_eq:
  "oci_collected src n rs =
     (let images = map ci_image (filter (passes (os_imageFilter src)) (ok_values rs)) in
      if ctx_errors rs \<noteq> [] then Fail (JoinErr (ctx_errors rs))
      else if images = [] \<and> length (skip_errors rs) = n
      then Fail (Errorf ''all %d tags were skipped; possible registry issue'' [FNat n])
      else Ok images)"
  by (auto simp: oci_collected_def collect_eq applyImageFilter_eq errors_Join_def Let_def)

text \<open>What the goroutines may deliver: one result each, its own or the error of an ended context.\<close>

definition ctx_result :: "result \<Rightarrow> bool" where
  "ctx_result r \<longleftrightarrow> (\<exists>e. r = Inl e \<and> is_ctx_error e)"

definition oci_delivery :: "OCISource \<Rightarrow> string list \<Rightarrow> result list \<Rightarrow> bool" where
  "oci_delivery src tags results \<longleftrightarrow>
     (\<exists>rs. length rs = length tags \<and> mset results = mset rs \<and>
        (\<forall>i<length tags. rs ! i = read_tag src (tags ! i) \<or> ctx_result (rs ! i)))"

lemma ctx_errors_Nil: "ctx_errors rs = [] \<longleftrightarrow> (\<forall>r\<in>set rs. \<not> ctx_result r)"
  by (induction rs) (auto simp: List.map_filter_simps ctx_result_def split: sum.splits)

lemma oci_delivery_plain:
  assumes "oci_delivery src tags results" "ctx_errors results = []"
  shows "mset results = mset (map (read_tag src) tags)"
proof -
  obtain rs where rs: "length rs = length tags" "mset results = mset rs"
    "\<forall>i<length tags. rs ! i = read_tag src (tags ! i) \<or> ctx_result (rs ! i)"
    using assms(1) unfolding oci_delivery_def by blast
  have "set results = set rs" using rs(2) by (metis set_mset_mset)
  then have "\<forall>r\<in>set rs. \<not> ctx_result r" using assms(2) by (simp add: ctx_errors_Nil)
  then have "rs = map (read_tag src) tags" using rs(1,3) by (intro nth_equalityI) auto
  with rs(2) show ?thesis by simp
qed

text \<open>The images that the listed tags describe and the filter lets pass, in the order of the tags.\<close>

definition oci_images :: "OCISource \<Rightarrow> string list \<Rightarrow> SourceImage list" where
  "oci_images src tags =
     map ci_image (filter (passes (os_imageFilter src)) (ok_values (map (read_tag src) tags)))"

lemma mset_map_filter_cong: "mset xs = mset ys \<Longrightarrow> mset (List.map_filter f xs) = mset (List.map_filter f ys)"
  by (simp add: mset_map_filter)

lemma oci_collected_Ok:
  assumes "oci_delivery src tags results" "oci_collected src n results = Ok xs"
  shows "mset xs = mset (oci_images src tags)"
proof -
  have c: "ctx_errors results = []" "xs = map ci_image (filter (passes (os_imageFilter src)) (ok_values results))"
    using assms(2) by (auto simp: oci_collected_eq Let_def split: if_splits)
  have "mset (ok_values results) = mset (ok_values (map (read_tag src) tags))"
    by (rule mset_map_filter_cong [OF oci_delivery_plain [OF assms(1) c(1)]])
  then show ?thesis unfolding c(2) oci_images_def by (simp only: mset_map mset_filter)
qed

lemma read_tag_Inr:
  assumes "read_tag src tag = Inr v"
  obtains raw annotations arch where
    "rp_FetchReference (os_repo src) tag = Inr raw" "rp_Annotations (os_repo src) raw = Inr annotations"
    "map_of annotations ArchitectureCapability = Some arch"
    "si_Version (ci_image v) = NormalizeTag tag" "si_Architectures (ci_image v) = [arch]"
    "si_CleanVersion (ci_image v) = (case map_of annotations ''version'' of None \<Rightarrow> [] | Some v \<Rightarrow> v)"
    "ci_featureSetRaw v = (case map_of annotations FeatureSetAnnotation of None \<Rightarrow> [] | Some v \<Rightarrow> v)"
    "si_SupportInPlaceUpdate (ci_image v) = supportsInPlaceUpdate annotations"
    "si_Capabilities (ci_image v) = image_capabilities (os_featureToCapabilityMap src)
       (si_CleanVersion (ci_image v)) arch (splitAnnotationRaw (ci_featureSetRaw v))"
proof -
  obtain raw where raw: "rp_FetchReference (os_repo src) tag = Inr raw"
    using assms by (auto simp: read_tag_def split: sum.splits)
  obtain annotations where ann: "rp_Annotations (os_repo src) raw = Inr annotations"
    using assms raw by (auto simp: read_tag_def split: sum.splits)
  obtain arch where arch: "map_of annotations ArchitectureCapability = Some arch"
    using assms raw ann by (auto simp: read_tag_def split: option.splits)
  show ?thesis
    by (rule that [OF raw ann arch])
      (use assms raw ann arch in \<open>auto simp: read_tag_def Let_def NormalizeTag_def\<close>)
qed

lemma feature_caps_ok: "gomap_ok caps \<Longrightarrow> gomap_ok (feature_caps fs m caps)"
  by (induction fs m caps rule: feature_caps.induct) (simp_all add: gomap_ok_put)

lemma read_tag_ok: "read_tag src tag = Inr v \<Longrightarrow> delivered_ok (ci_image v)"
  by (erule read_tag_Inr) (auto simp: delivered_ok_def image_capabilities_def feature_caps_ok)

lemma oci_images_ok: "x \<in> set (oci_images src tags) \<Longrightarrow> \<exists>tag\<in>set tags. \<exists>v. read_tag src tag = Inr v \<and>
    x = ci_image v \<and> passes (os_imageFilter src) v"
  by (auto simp: oci_images_def List.map_filter_def split: sum.splits) blast

text \<open>The environments of the source: what the goroutines deliver for the tags that are listed.\<close>

definition oci_possible :: "OCISource \<times> (string list \<Rightarrow> result list) \<Rightarrow> bool" where
  "oci_possible e \<longleftrightarrow> (\<forall>tags. oci_delivery (fst e) tags (snd e tags))"

lemma oci_GetVersions_Ok:
  assumes "oci_GetVersions src deliver = Ok xs" "oci_possible (src, deliver)"
  shows "\<exists>pages. rp_Tags (os_repo src) = (pages, None) \<and> mset xs = mset (oci_images src (concat pages))"
proof -
  obtain pages where p: "rp_Tags (os_repo src) = (pages, None)"
    using assms(1) by (auto simp: oci_GetVersions_def split: prod.splits option.splits)
  with assms(1) have "oci_collected src (length (concat pages)) (deliver (concat pages)) = Ok xs"
    by (simp add: oci_GetVersions_def Let_def)
  from oci_collected_Ok [OF _ this] assms(2) p show ?thesis by (simp add: oci_possible_def)
qed

interpretation oci: image_source oci_possible "\<lambda>(src, deliver). oci_GetVersions src deliver"
proof unfold_locales
  fix e xs x
  assume e: "oci_possible e" and g: "(case e of (src, deliver) \<Rightarrow> oci_GetVersions src deliver) = Ok xs"
    and x: "x \<in> set xs"
  obtain src deliver where sd: "e = (src, deliver)" by fastforce
  with g have g': "oci_GetVersions src deliver = Ok xs" by simp
  obtain pages where "mset xs = mset (oci_images src (concat pages))"
    using oci_GetVersions_Ok [OF g' e [unfolded sd]] by blast
  then have "x \<in> set (oci_images src (concat pages))" using x by (metis set_mset_mset)
  from oci_images_ok [OF this] show "delivered_ok x" using read_tag_ok by blast
qed

subsection \<open>The fan-out delivers what it should\<close>

lemma oci_fan_ok: "0 < sint (os_parallel src) \<Longrightarrow> fan_ok (oci_fan src ctx tags)"
  by (simp add: fan_ok_def oci_fan_def)

lemma oci_fan_delivery:
  assumes par: "0 < sint (os_parallel src)" and ctx: "\<forall>e\<in>ctx. is_ctx_error e"
    and run: "fan_run (oci_fan src ctx tags) (fan_init (oci_fan src ctx tags)) k s"
    and st: "stuck (oci_fan src ctx tags) s"
  shows "oci_delivery src tags (fs_got s)"
proof -
  let ?F = "oci_fan src ctx tags"
  have inv: "fan_inv ?F s" using fan_run_reach [OF run fan_reach.start] by (rule fan_reach_inv)
  have "\<forall>r\<in>set (fs_got s). \<not> fn_halt ?F r" by (simp add: oci_fan_def)
  from fan_results [OF oci_fan_ok [OF par] inv st this] obtain rs where
    rs: "length rs = length tags" "mset (fs_got s) = mset rs"
      "\<forall>i<length tags. rs ! i \<in> {read_tag src (tags ! i)} \<union> Inl ` ctx \<union> Inl ` ctx"
    by (auto simp: oci_fan_def)
  have "rs ! i = read_tag src (tags ! i) \<or> ctx_result (rs ! i)" if "i < length tags" for i
    using rs(3) that ctx unfolding ctx_result_def by blast
  with rs show ?thesis unfolding oci_delivery_def by blast
qed

lemma read_tag_version: "read_tag src tag = Inr v \<Longrightarrow> si_Version (ci_image v) = NormalizeTag tag"
  by (erule read_tag_Inr)

lemma oci_images_distinct:
  assumes "distinct (map NormalizeTag tags)" shows "distinct (map si_Version (oci_images src tags))"
  using assms
proof (induction tags)
  case (Cons tag tags)
  have "NormalizeTag tag \<notin> si_Version ` set (oci_images src tags)"
    using Cons.prems oci_images_ok [of _ src tags] read_tag_version by fastforce
  with Cons show ?case
    by (auto simp: oci_images_def List.map_filter_simps read_tag_version split: sum.split)
qed (simp add: oci_images_def List.map_filter_simps)

subsection \<open>Properties\<close>

text \<open>What an image says about its tag and the annotations of its manifest.\<close>

definition oci_describes :: "OCISource \<Rightarrow> string \<Rightarrow> (string, string) gomap \<Rightarrow> SourceImage \<Rightarrow> bool" where
  "oci_describes src tag annotations x \<longleftrightarrow>
     (\<exists>raw. rp_FetchReference (os_repo src) tag = Inr raw \<and> rp_Annotations (os_repo src) raw = Inr annotations) \<and>
     (\<exists>arch. map_of annotations ArchitectureCapability = Some arch \<and> si_Architectures x = [arch]) \<and>
     si_Version x = NormalizeTag tag \<and>
     si_CleanVersion x = (case map_of annotations ''version'' of None \<Rightarrow> [] | Some v \<Rightarrow> v) \<and>
     (si_SupportInPlaceUpdate x \<longleftrightarrow>
        (\<exists>fs. map_of annotations FeatureSetAnnotation = Some fs \<and>
          ''_usi'' \<in> str_TrimSpace ` set (str_Split CHR '','' fs)))"

lemma read_tag_describes:
  "read_tag src tag = Inr v \<Longrightarrow> \<exists>annotations. oci_describes src tag annotations (ci_image v)"
  by (erule read_tag_Inr)
    (auto simp: oci_describes_def supportsInPlaceUpdate_def usiImageFeature_def splitAnnotationRaw_eq
      split: option.splits)

text \<open>Without context errors the collector's result is determined up to the order of the images.\<close>

lemma oci_collected_perm:
  assumes m: "mset rs = mset rs'" and n: "\<forall>r\<in>set rs. \<not> ctx_result r"
  shows "(\<exists>xs ys. oci_collected src c rs = Ok xs \<and> oci_collected src c rs' = Ok ys \<and> mset xs = mset ys) \<or>
    oci_collected src c rs = oci_collected src c rs'"
proof -
  let ?i = "\<lambda>rs. map ci_image (filter (passes (os_imageFilter src)) (ok_values rs))"
  have "set rs = set rs'" using m by (metis set_mset_mset)
  then have ctx: "ctx_errors rs = []" "ctx_errors rs' = []" using n by (simp_all add: ctx_errors_Nil)
  have i: "mset (?i rs) = mset (?i rs')"
    by (simp only: mset_map mset_filter mset_map_filter_cong [OF m])
  then have "(?i rs = []) = (?i rs' = [])" by (metis mset_zero_iff)
  moreover have "length (skip_errors rs) = length (skip_errors rs')"
    by (rule mset_eq_length) (rule mset_map_filter_cong [OF m])
  ultimately show ?thesis using ctx i by (simp add: oci_collected_eq Let_def)
qed

text \<open>C19 oci_scheduling. The images that Fetch returns for an OCI source do not depend on how the goroutines are scheduled: for
  every complete run of the fan-out over the listed tags, Fetch returns what it returns when the tags are
  read one after the other, provided the context does not end and no two tags normalize to one version.\<close>

theorem oci_scheduling:
  assumes "0 < sint (os_parallel src)" "distinct (map NormalizeTag tags)"
    and "\<forall>tag\<in>set tags. \<not> ctx_result (read_tag src tag)"
    and "fan_run (oci_fan src {} tags) (fan_init (oci_fan src {} tags)) k s" "stuck (oci_fan src {} tags) s"
  shows "Fetch L (iu\<lparr>iu_Source := oci_collected src (length tags) (fs_got s)\<rparr>) =
    Fetch L (iu\<lparr>iu_Source := oci_collected src (length tags) (map (read_tag src) tags)\<rparr>)"
proof -
  have inv: "fan_inv (oci_fan src {} tags) s"
    using fan_run_reach [OF assms(4) fan_reach.start] by (rule fan_reach_inv)
  have "\<forall>r\<in>set (fs_got s). \<not> fn_halt (oci_fan src {} tags) r" by (simp add: oci_fan_def)
  from fan_results [OF oci_fan_ok [OF assms(1)] inv assms(5) this] obtain rs where
    rs: "length rs = length tags" "mset (fs_got s) = mset rs" "\<forall>i<length tags. rs ! i = read_tag src (tags ! i)"
    by (auto simp: oci_fan_def)
  then have "rs = map (read_tag src) tags" by (intro nth_equalityI) simp_all
  then have m: "mset (map (read_tag src) tags) = mset (fs_got s)" using rs(2) by simp
  have seq: "oci_delivery src tags (map (read_tag src) tags)"
    unfolding oci_delivery_def by (intro exI [of _ "map (read_tag src) tags"]) simp
  have nc: "\<forall>r\<in>set (map (read_tag src) tags). \<not> ctx_result r" using assms(3) by simp
  from oci_collected_perm [OF m nc, of src "length tags"] show ?thesis
  proof
    assume "\<exists>xs ys. oci_collected src (length tags) (map (read_tag src) tags) = Ok xs \<and>
      oci_collected src (length tags) (fs_got s) = Ok ys \<and> mset xs = mset ys"
    then obtain xs ys where xy: "oci_collected src (length tags) (map (read_tag src) tags) = Ok xs"
      "oci_collected src (length tags) (fs_got s) = Ok ys" "mset xs = mset ys" by blast
    have "distinct (map si_Version xs)"
      using oci_images_distinct [OF assms(2)] oci_collected_Ok [OF seq xy(1)]
      by (metis mset_eq_imp_distinct_iff mset_map)
    then show ?thesis using Fetch_order_independent [OF xy(3), of L iu] xy(1,2) by simp
  qed simp
qed

text \<open>C20 oci_images_faithful. What an OCI source returns: exactly the images of the listed tags whose manifest can be read, names
  an architecture and passes the image filter, each once. Its version is the tag with underscores replaced
  by plus signs, its architecture and clean version are those of the annotations, and it supports in-place
  updates exactly when the feature set has the token \<^verbatim>\<open>_usi\<close>.\<close>

theorem oci_images_faithful:
  assumes "rp_Tags (os_repo src) = (pages, None)" "oci_possible (src, deliver)"
    and "oci_GetVersions src deliver = Ok xs"
  shows "mset xs = mset (oci_images src (concat pages)) \<and>
    (\<forall>x\<in>set xs. \<exists>tag\<in>set (concat pages). \<exists>annotations. oci_describes src tag annotations x)"
proof
  show m: "mset xs = mset (oci_images src (concat pages))"
    using oci_GetVersions_Ok [OF assms(3,2)] assms(1) by auto
  show "\<forall>x\<in>set xs. \<exists>tag\<in>set (concat pages). \<exists>annotations. oci_describes src tag annotations x"
  proof
    fix x assume "x \<in> set xs"
    then have "x \<in> set (oci_images src (concat pages))" using m by (metis set_mset_mset)
    then obtain tag v where v: "tag \<in> set (concat pages)" "read_tag src tag = Inr v" "x = ci_image v"
      using oci_images_ok by blast
    with read_tag_describes [OF v(2)]
    show "\<exists>tag\<in>set (concat pages). \<exists>annotations. oci_describes src tag annotations x" by blast
  qed
qed

text \<open>An ended context is never mistaken for missing tags: when the call returns images, no result was the
  error of an ended context; and it never returns an empty list because every tag was skipped.\<close>

lemma oci_never_partial:
  assumes "oci_collected src (length tags) results = Ok xs"
  shows "(\<forall>r\<in>set results. \<not> ctx_result r) \<and> (xs = [] \<longrightarrow> length (skip_errors results) \<noteq> length tags)"
  using assms by (auto simp: oci_collected_eq Let_def ctx_errors_Nil split: if_splits)

lemma feature_caps_map:
  "distinct (map snd m) \<Longrightarrow>
   map_of (feature_caps fs m caps) k =
     (case map_of (map (\<lambda>(v, n). (n, v)) m) k of
        Some v \<Rightarrow> Some [if v \<in> fs then ''true'' else ''false''] | None \<Rightarrow> map_of caps k)"
proof (induction fs m caps rule: feature_caps.induct)
  case (2 fs v n rest caps)
  have "map_of (map (\<lambda>(v, n). (n, v)) rest) n = None"
    using "2.prems" by (force simp: map_of_eq_None_iff)
  with 2 show ?case by (auto simp: map_of_map_put split: option.split)
qed simp

lemma map_of_same_set:
  assumes "gomap_ok xs" "gomap_ok ys" "set xs = set ys" shows "map_of xs = map_of ys"
proof
  fix k
  show "map_of xs k = map_of ys k"
    using assms map_of_eq_Some_iff [OF assms(1), of k] map_of_eq_Some_iff [OF assms(2), of k]
    by (cases "map_of xs k"; cases "map_of ys k") auto
qed

text \<open>C21 oci_capabilities. The capabilities of an image: the architecture, and for each configured feature-set value the
  capability \<^verbatim>\<open>true\<close> or \<^verbatim>\<open>false\<close> by whether the token is in the feature set, in whatever order the
  configuration map is visited, as long as no capability is named twice or named \<^verbatim>\<open>architecture\<close>.\<close>

theorem oci_capabilities:
  assumes "distinct (map snd m)" "ArchitectureCapability \<notin> snd ` set m" "m \<noteq> []" "clean \<noteq> []"
    and "mset m' = mset m"
  shows "caps_map (image_capabilities m' clean arch fs) =
    (\<lambda>k. if k = ArchitectureCapability then Some [arch]
         else case map_of (map (\<lambda>(v, n). (n, v)) m) k of
                Some v \<Rightarrow> Some [if v \<in> fs then ''true'' else ''false''] | None \<Rightarrow> None)"
proof
  fix k
  let ?sw = "\<lambda>m. map (\<lambda>(v, n). (n, v)) m"
  have d: "distinct (map snd m')" by (metis assms(1,5) mset_eq_imp_distinct_iff mset_map)
  have s: "set m' = set m" by (metis assms(5) set_mset_mset)
  have sw: "map_of (?sw m') = map_of (?sw m)"
    by (rule map_of_same_set) (use assms(1) d s in \<open>simp_all add: comp_def case_prod_unfold\<close>)
  have "m' \<noteq> []" using s assms(3) by auto
  then have "caps_map (image_capabilities m' clean arch fs) k =
      map_of (feature_caps fs m' [(ArchitectureCapability, [arch])]) k"
    using assms(4) by (simp add: image_capabilities_def)
  moreover have "map_of (?sw m) ArchitectureCapability = None"
    using assms(2) by (force simp: map_of_eq_None_iff)
  ultimately show "caps_map (image_capabilities m' clean arch fs) k =
    (if k = ArchitectureCapability then Some [arch]
     else case map_of (?sw m) k of
            Some v \<Rightarrow> Some [if v \<in> fs then ''true'' else ''false''] | None \<Rightarrow> None)"
    by (auto simp: feature_caps_map [OF d] sw split: option.split)
qed

end
