(* ===== verification/GlanceSource.thy ===== *)
theory GlanceSource
  imports SourceContract
begin

section \<open>The Glance image source\<close>

text \<open>
  Models \<^verbatim>\<open>cloudprofilesync/ossync/source/glance/os_source.go\<close>: the public images of every region, one
  canonical image per version and region, merged over the regions, ordered newest first, cut to a window
  and classified. The OpenStack client (gophercloud) is a record of functions. A loop over a Go map runs
  in an order that is an argument (\<open>rng\<close>).
\<close>

definition defaultGlanceNamePrefix :: string where
  "defaultGlanceNamePrefix = ''gardenlinux-openstack-gardener_prod-amd64-''"

definition glanceRequestTimeout :: duration where "glanceRequestTimeout = 60 * 1000000000"
definition DefaultGlanceKeepLatest :: int64 where "DefaultGlanceKeepLatest = 3"
definition defaultGlanceParallel :: int64 where "defaultGlanceParallel = 8"
definition defaultGlanceVersionOffset :: int64 where "defaultGlanceVersionOffset = 0"

subsection \<open>Parameters and client\<close>

record GlanceParams =
  gp_AuthURLFormat :: string
  gp_Regions :: "string list"
  gp_NamePrefix :: string
  gp_KeepLatest :: int64
  gp_Parallel :: int64
  gp_VersionOffset :: int64
  gp_ExcludedSuffixes :: "string list"
  gp_RequireAllRegions :: bool
  gp_ProjectName :: string
  gp_ProjectDomainName :: string
  gp_Username :: string
  gp_UserDomainName :: string
  gp_Password :: string

record AuthOptions =
  ao_IdentityEndpoint :: string
  ao_Username :: string
  ao_Password :: string
  ao_DomainName :: string
  ao_AllowReauth :: bool
  ao_ScopeProjectName :: string
  ao_ScopeDomainName :: string

record GlanceImage =
  gi_ID :: string
  gi_Name :: string
  gi_Status :: string
  gi_CreatedAt :: time

text \<open>The calls of gophercloud; a client is an opaque value.\<close>

record gophercloud =
  gc_NewClient :: "string \<Rightarrow> goerror + opaque"
  gc_WithTimeout :: "opaque \<Rightarrow> duration \<Rightarrow> opaque"
  gc_Authenticate :: "opaque \<Rightarrow> AuthOptions \<Rightarrow> goerror + opaque"
  gc_NewImageV2 :: "opaque \<Rightarrow> string \<Rightarrow> goerror + opaque"
  gc_AllPages :: "opaque \<Rightarrow> string \<Rightarrow> nat \<Rightarrow> goerror + opaque" \<comment> \<open>visibility and page size\<close>
  gc_ExtractImages :: "opaque \<Rightarrow> goerror + GlanceImage list"

record Glance =
  gl_params :: GlanceParams
  gl_namePrefix :: string
  gl_keepLatest :: int64
  gl_offset :: int64
  gl_permits :: int64
  gl_authenticate :: "string \<Rightarrow> AuthOptions \<Rightarrow> goerror + opaque"
  gl_listImages :: "opaque \<Rightarrow> string \<Rightarrow> goerror + GlanceImage list"

definition defaultAuthenticate :: "gophercloud \<Rightarrow> string \<Rightarrow> AuthOptions \<Rightarrow> goerror + opaque" where
  "defaultAuthenticate G authURL opts =
     (let opts = opts\<lparr>ao_IdentityEndpoint := authURL\<rparr> in
      case gc_NewClient G authURL of
        Inl err \<Rightarrow> Inl err
      | Inr provider \<Rightarrow> gc_Authenticate G (gc_WithTimeout G provider glanceRequestTimeout) opts)"

definition defaultListImages :: "gophercloud \<Rightarrow> opaque \<Rightarrow> string \<Rightarrow> goerror + GlanceImage list" where
  "defaultListImages G provider region =
     (case gc_NewImageV2 G provider region of
        Inl err \<Rightarrow> Inl err
      | Inr client \<Rightarrow>
          (case gc_AllPages G client ''public'' 1000 of
             Inl err \<Rightarrow> Inl err
           | Inr pages \<Rightarrow> gc_ExtractImages G pages))"

definition NewGlance :: "gophercloud \<Rightarrow> GlanceParams \<Rightarrow> Glance outcome" where
  "NewGlance G params =
     (if gp_AuthURLFormat params = [] then Fail (Errorf ''glance: authURLFormat is required'' [])
      else if length (gp_Regions params) = 0
      then Fail (Errorf ''glance: at least one region is required'' [])
      else
        (let prefix = (if gp_NamePrefix params = [] then defaultGlanceNamePrefix else gp_NamePrefix params);
             keepLatest = (if gp_KeepLatest params = 0 then DefaultGlanceKeepLatest else gp_KeepLatest params);
             permits = (if sint (gp_Parallel params) \<le> 0 then defaultGlanceParallel else gp_Parallel params);
             offset = (if sint (gp_VersionOffset params) \<le> 0 then defaultGlanceVersionOffset
                       else gp_VersionOffset params)
         in Ok \<lparr>gl_params = params, gl_namePrefix = prefix, gl_keepLatest = keepLatest, gl_offset = offset,
                gl_permits = permits, gl_authenticate = defaultAuthenticate G,
                gl_listImages = defaultListImages G\<rparr>))"

definition authOptions :: "Glance \<Rightarrow> AuthOptions" where
  "authOptions g =
     \<lparr>ao_IdentityEndpoint = [],
      ao_Username = gp_Username (gl_params g),
      ao_Password = gp_Password (gl_params g),
      ao_DomainName = gp_UserDomainName (gl_params g),
      ao_AllowReauth = True,
      ao_ScopeProjectName = gp_ProjectName (gl_params g),
      ao_ScopeDomainName = gp_ProjectDomainName (gl_params g)\<rparr>"

text \<open>
  \<^verbatim>\<open>fmt.Sprintf(format, region)\<close> for a format with the verbs \<^verbatim>\<open>%s\<close> and \<^verbatim>\<open>%%\<close>: a second \<^verbatim>\<open>%s\<close> and a missing
  one are reported in the text, as Go does. A format with any other verb is left to the argument \<open>other\<close>.
\<close>

fun sprintf_s :: "string \<Rightarrow> string option \<Rightarrow> string option" where
  "sprintf_s [] arg =
     (case arg of None \<Rightarrow> Some [] | Some a \<Rightarrow> Some (''%!(EXTRA string='' @ a @ '')''))"
| "sprintf_s [c] arg =
     (if c = CHR ''%'' then None else map_option ((#) c) (sprintf_s [] arg))"
| "sprintf_s (c # d # cs) arg =
     (if c \<noteq> CHR ''%'' then map_option ((#) c) (sprintf_s (d # cs) arg)
      else if d = CHR ''%'' then map_option ((#) c) (sprintf_s cs arg)
      else if d = CHR ''s''
      then (case arg of
              Some a \<Rightarrow> map_option ((@) a) (sprintf_s cs None)
            | None \<Rightarrow> map_option ((@) ''%!s(MISSING)'') (sprintf_s cs None))
      else None)"

definition fmt_Sprintf :: "(string \<Rightarrow> string \<Rightarrow> string) \<Rightarrow> string \<Rightarrow> string \<Rightarrow> string" where
  "fmt_Sprintf other format arg =
     (case sprintf_s format (Some arg) of Some s \<Rightarrow> s | None \<Rightarrow> other format arg)"

subsection \<open>The images of a region\<close>

definition parseVersion :: "'v semver \<Rightarrow> Glance \<Rightarrow> string \<Rightarrow> string option" where
  "parseVersion L g name =
     (if list_ex (\<lambda>skip. str_Contains name skip) (gp_ExcludedSuffixes (gl_params g)) then None
      else (case str_CutPrefix (gl_namePrefix g) name of
              None \<Rightarrow> None
            | Some rest \<Rightarrow>
                (case str_LastIndex CHR ''-'' rest of
                   None \<Rightarrow> None
                 | Some idx \<Rightarrow>
                     if idx = 0 then None
                     else (case sv_ParseTolerant L (take idx rest) of
                             Inl err \<Rightarrow> None
                           | Inr parsed \<Rightarrow> Some (sv_String L parsed)))))"

definition preferImage :: "GlanceImage \<Rightarrow> GlanceImage \<Rightarrow> bool" where
  "preferImage candidate current =
     (let candActive = (gi_Status candidate = ''active'');
          curActive = (gi_Status current = ''active'')
      in if candActive \<noteq> curActive then candActive
         else if gi_CreatedAt candidate \<noteq> gi_CreatedAt current
         then gi_CreatedAt current < gi_CreatedAt candidate
         else gi_ID current < gi_ID candidate)"

fun canonical_loop ::
  "'v semver \<Rightarrow> Glance \<Rightarrow> GlanceImage list \<Rightarrow> (string, GlanceImage) gomap \<Rightarrow> (string, GlanceImage) gomap" where
  "canonical_loop L g [] canonical = canonical"
| "canonical_loop L g (img # imgs) canonical =
     canonical_loop L g imgs
       (case parseVersion L g (gi_Name img) of
          None \<Rightarrow> canonical
        | Some version \<Rightarrow>
            (case map_of canonical version of
               None \<Rightarrow> map_put version img canonical
             | Some cur \<Rightarrow> if preferImage img cur then map_put version img canonical else canonical))"

definition region_image :: "string \<Rightarrow> string \<times> GlanceImage \<Rightarrow> SourceImage" where
  "region_image region vi =
     \<lparr>si_Version = fst vi, si_CleanVersion = fst vi, si_Architectures = [''amd64''],
      si_Capabilities = Some [(ArchitectureCapability, [''amd64''])], si_SupportInPlaceUpdate = False,
      si_Regions = [\<lparr>ri_Region = region, ri_ID = gi_ID (snd vi)\<rparr>],
      si_Classification = None, si_ExpirationDate = None\<rparr>"

definition discoverRegion ::
  "'v semver \<Rightarrow> (string \<Rightarrow> string \<Rightarrow> string) \<Rightarrow> Glance
   \<Rightarrow> ((string, GlanceImage) gomap \<Rightarrow> (string, GlanceImage) gomap) \<Rightarrow> string \<Rightarrow> goerror + SourceImage list" where
  "discoverRegion L other g rng region =
     (let authURL = fmt_Sprintf other (gp_AuthURLFormat (gl_params g)) region in
      case gl_authenticate g authURL (authOptions g) of
        Inl err \<Rightarrow> Inl (Wrapf ''region %s: authenticate: %w'' [FStr region] err)
      | Inr provider \<Rightarrow>
          (case gl_listImages g provider region of
             Inl err \<Rightarrow> Inl (Wrapf ''region %s: list images: %w'' [FStr region] err)
           | Inr imgs \<Rightarrow> Inr (map (region_image region) (rng (canonical_loop L g imgs [])))))"

subsection \<open>The collector\<close>

type_synonym glance_state = "(string, SourceImage) gomap \<times> string set \<times> goerror list"

definition new_glance_entry :: "SourceImage \<Rightarrow> SourceImage" where
  "new_glance_entry img =
     \<lparr>si_Version = si_Version img, si_CleanVersion = si_CleanVersion img,
      si_Architectures = si_Architectures img, si_Capabilities = si_Capabilities img,
      si_SupportInPlaceUpdate = False, si_Regions = [], si_Classification = None,
      si_ExpirationDate = None\<rparr>"

fun merge_images ::
  "SourceImage list \<Rightarrow> (string, SourceImage) gomap \<times> string set \<Rightarrow> (string, SourceImage) gomap \<times> string set" where
  "merge_images [] st = st"
| "merge_images (img # imgs) (imagesByVersion, allRegions) =
     (let entry = (case map_of imagesByVersion (si_Version img) of
                     None \<Rightarrow> new_glance_entry img | Some e \<Rightarrow> e);
          entry = entry\<lparr>si_Regions := si_Regions entry @ si_Regions img\<rparr>
      in merge_images imgs
           (map_put (si_Version img) entry imagesByVersion,
            allRegions \<union> ri_Region ` set (si_Regions img)))"

text \<open>The receive loop; \<^const>\<open>Inl\<close> is the early return on the error of an ended context.\<close>

fun glance_receive :: "(goerror + SourceImage list) list \<Rightarrow> glance_state \<Rightarrow> goerror + glance_state" where
  "glance_receive [] st = Inr st"
| "glance_receive (Inl err # rs) (m, regions, skipped) =
     (if is_ctx_error err then Inl err else glance_receive rs (m, regions, skipped @ [err]))"
| "glance_receive (Inr found # rs) (m, regions, skipped) =
     (case merge_images found (m, regions) of (m', regions') \<Rightarrow> glance_receive rs (m', regions', skipped))"

definition filterRequireRegions :: "SourceImage list \<Rightarrow> string set \<Rightarrow> SourceImage list" where
  "filterRequireRegions versions baseline =
     (if baseline = {} then versions
      else filter (\<lambda>v. baseline - ri_Region ` set (si_Regions v) = {}) versions)"

definition compareSemverDesc :: "'v semver \<Rightarrow> string \<Rightarrow> string \<Rightarrow> int" where
  "compareSemverDesc L a b =
     (case (sv_ParseTolerant L a, sv_ParseTolerant L b) of
        (Inl aerr, Inl berr) \<Rightarrow> cmp_Compare a b
      | (Inl aerr, Inr bv) \<Rightarrow> 1
      | (Inr av, Inl berr) \<Rightarrow> - 1
      | (Inr av, Inr bv) \<Rightarrow> sv_Compare L bv av)"

text \<open>
  The window \<^verbatim>\<open>versions[lo:hi]\<close>; \<^const>\<open>None\<close> is the panic of a slice expression out of range. The sum of
  the lower bound and \<open>keepLatest\<close> is a sum of machine integers.
\<close>

definition window :: "int64 \<Rightarrow> int64 \<Rightarrow> 'a list \<Rightarrow> 'a list option" where
  "window offset keepLatest versions =
     (if sint keepLatest > 0 \<or> sint offset > 0 then
        (let n = int (length versions);
             lo = min (sint offset) n;
             hi = (if sint keepLatest > 0 then min (sint (word_of_int lo + keepLatest)) n else n)
         in if 0 \<le> lo \<and> lo \<le> hi then Some (drop (nat lo) (take (nat hi) versions)) else None)
      else Some versions)"

definition classify :: "time \<Rightarrow> SourceImage list \<Rightarrow> SourceImage list" where
  "classify now versions =
     (let versions = map (\<lambda>v. v\<lparr>si_Classification := Some ClassificationSupported\<rparr>) versions in
      if length versions > 0 then
        (let i = length versions - 1;
             last = (versions ! i)\<lparr>si_Classification := Some ClassificationDeprecated\<rparr>;
             last = (if si_ExpirationDate last = None then last\<lparr>si_ExpirationDate := Some now\<rparr> else last)
         in versions[i := last])
      else versions)"

definition glance_finish ::
  "'v semver \<Rightarrow> Glance \<Rightarrow> time \<Rightarrow> ((string, SourceImage) gomap \<Rightarrow> (string, SourceImage) gomap)
   \<Rightarrow> glance_state \<Rightarrow> SourceImage list outcome" where
  "glance_finish L g now rng st =
     (case st of (imagesByVersion, allRegions, skipped) \<Rightarrow>
       if length imagesByVersion = 0 \<and> length skipped = length (gp_Regions (gl_params g))
       then Fail (Wrapf ''all %d regions failed: %w'' [FNat (length (gp_Regions (gl_params g)))] (JoinErr skipped))
       else
         (let versions = map snd (rng imagesByVersion);
              versions = (if gp_RequireAllRegions (gl_params g)
                          then filterRequireRegions versions allRegions else versions);
              versions = SortFunc (\<lambda>a b. compareSemverDesc L (si_Version a) (si_Version b)) versions
          in case window (gl_offset g) (gl_keepLatest g) versions of
               None \<Rightarrow> Panic
             | Some versions \<Rightarrow> Ok (classify now versions)))"

definition glance_GetVersions ::
  "'v semver \<Rightarrow> Glance \<Rightarrow> time \<Rightarrow> ((string, SourceImage) gomap \<Rightarrow> (string, SourceImage) gomap)
   \<Rightarrow> (goerror + SourceImage list) list \<Rightarrow> SourceImage list outcome" where
  "glance_GetVersions L g now rng results =
     (case glance_receive results ([], {}, []) of
        Inl err \<Rightarrow> Fail err
      | Inr st \<Rightarrow> glance_finish L g now rng st)"

text \<open>The goroutines: the channel has room for every result, and the collector halts on a context error.\<close>

definition glance_fan ::
  "'v semver \<Rightarrow> (string \<Rightarrow> string \<Rightarrow> string) \<Rightarrow> Glance \<Rightarrow> goerror set \<Rightarrow> (goerror + SourceImage list) fan" where
  "glance_fan L other g ctx =
     (let regions = gp_Regions (gl_params g) in
      \<lparr>fn_count = length regions, fn_permits = nat (sint (gl_permits g)), fn_cap = length regions,
       fn_work = (\<lambda>i. {discoverRegion L other g rng (regions ! i) | rng. permuting rng} \<union> Inl ` ctx),
       fn_refuse = (\<lambda>i. Inl ` ctx),
       fn_halt = (\<lambda>r. case r of Inl e \<Rightarrow> is_ctx_error e | Inr found \<Rightarrow> False)\<rparr>)"

subsection \<open>Preferring one image\<close>

text \<open>The order that \<^const>\<open>preferImage\<close> implements: active before anything else, then newer, then the larger ID.\<close>

datatype image_rank = Rank (rank_active: bool) (rank_created: time) (rank_id: string)

definition rank_key :: "image_rank \<Rightarrow> bool \<times> time \<times> string" where
  "rank_key r = (rank_active r, rank_created r, rank_id r)"

lemma rank_key_inj: "rank_key a = rank_key b \<longleftrightarrow> a = b"
  by (cases a; cases b) (simp add: rank_key_def)

instantiation image_rank :: linorder
begin

definition less_eq_image_rank :: "image_rank \<Rightarrow> image_rank \<Rightarrow> bool" where
  "less_eq_image_rank a b \<longleftrightarrow> rank_key a \<le> rank_key b"

definition less_image_rank :: "image_rank \<Rightarrow> image_rank \<Rightarrow> bool" where
  "less_image_rank a b \<longleftrightarrow> rank_key a < rank_key b"

instance
  by standard
    (auto simp: less_eq_image_rank_def less_image_rank_def rank_key_inj simp flip: rank_key_inj)

end

definition rank_of :: "GlanceImage \<Rightarrow> image_rank" where
  "rank_of img = Rank (gi_Status img = ''active'') (gi_CreatedAt img) (gi_ID img)"

lemma preferImage_rank: "preferImage c d \<longleftrightarrow> rank_of d < rank_of c"
  by (auto simp: preferImage_def rank_of_def less_image_rank_def rank_key_def less_le Let_def)

text \<open>The candidates of a version, and what the loop keeps of them.\<close>

definition candidates :: "'v semver \<Rightarrow> Glance \<Rightarrow> GlanceImage list \<Rightarrow> string \<Rightarrow> GlanceImage list" where
  "candidates L g imgs v = filter (\<lambda>img. parseVersion L g (gi_Name img) = Some v) imgs"

definition better :: "GlanceImage option \<Rightarrow> GlanceImage \<Rightarrow> GlanceImage option" where
  "better cur img = (case cur of None \<Rightarrow> Some img | Some c \<Rightarrow> if preferImage img c then Some img else Some c)"

lemma canonical_loop_map:
  "map_of (canonical_loop L g imgs m) v = foldl better (map_of m v) (candidates L g imgs v)"
  by (induction L g imgs m rule: canonical_loop.induct)
    (auto simp: candidates_def better_def map_of_map_put split: option.splits)

lemma canonical_loop_ok: "gomap_ok m \<Longrightarrow> gomap_ok (canonical_loop L g imgs m)"
  by (induction L g imgs m rule: canonical_loop.induct) (simp_all add: gomap_ok_put split: option.split)

lemma foldl_better_Some:
  "\<exists>best. foldl better (Some c) imgs = Some best \<and> best \<in> insert c (set imgs) \<and>
     rank_of c \<le> rank_of best \<and> (\<forall>i\<in>set imgs. rank_of i \<le> rank_of best)"
proof (induction imgs arbitrary: c)
  case (Cons i imgs)
  let ?c = "if preferImage i c then i else c"
  obtain best where b: "foldl better (Some ?c) imgs = Some best" "best \<in> insert ?c (set imgs)"
    "rank_of ?c \<le> rank_of best" "\<forall>i\<in>set imgs. rank_of i \<le> rank_of best" using Cons by blast
  have "rank_of c \<le> rank_of ?c" "rank_of i \<le> rank_of ?c" by (auto simp: preferImage_rank)
  then have "rank_of c \<le> rank_of best" "rank_of i \<le> rank_of best" using b(3) by order+
  moreover have "foldl better (Some c) (i # imgs) = Some best" using b(1) by (simp add: better_def split: if_splits)
  ultimately show ?case using b(2,4) by (auto split: if_splits)
qed simp

lemma canonical_best:
  "map_of (canonical_loop L g imgs []) v = Some img \<longrightarrow>
     img \<in> set (candidates L g imgs v) \<and> (\<forall>i\<in>set (candidates L g imgs v). rank_of i \<le> rank_of img)"
  "map_of (canonical_loop L g imgs []) v = None \<longleftrightarrow> candidates L g imgs v = []"
proof -
  have "(map_of (canonical_loop L g imgs []) v = Some img \<longrightarrow>
     img \<in> set (candidates L g imgs v) \<and> (\<forall>i\<in>set (candidates L g imgs v). rank_of i \<le> rank_of img)) \<and>
    (map_of (canonical_loop L g imgs []) v = None \<longleftrightarrow> candidates L g imgs v = [])"
  proof (cases "candidates L g imgs v")
    case Nil
    then show ?thesis by (simp add: canonical_loop_map)
  next
    case (Cons c cs)
    obtain best where "foldl better (Some c) cs = Some best" "best \<in> insert c (set cs)"
      "rank_of c \<le> rank_of best" "\<forall>i\<in>set cs. rank_of i \<le> rank_of best" using foldl_better_Some by blast
    with Cons show ?thesis by (auto simp: canonical_loop_map better_def)
  qed
  then show "map_of (canonical_loop L g imgs []) v = Some img \<longrightarrow>
      img \<in> set (candidates L g imgs v) \<and> (\<forall>i\<in>set (candidates L g imgs v). rank_of i \<le> rank_of img)"
    "map_of (canonical_loop L g imgs []) v = None \<longleftrightarrow> candidates L g imgs v = []" by blast+
qed

lemma region_image_version [simp]: "si_Version (region_image r vi) = fst vi"
  by (simp add: region_image_def)

lemma discoverRegion_Inr:
  assumes "discoverRegion L other g rng region = Inr found"
  obtains provider imgs where
    "gl_authenticate g (fmt_Sprintf other (gp_AuthURLFormat (gl_params g)) region) (authOptions g) = Inr provider"
    "gl_listImages g provider region = Inr imgs"
    "found = map (region_image region) (rng (canonical_loop L g imgs []))"
  using assms by (auto simp: discoverRegion_def Let_def split: sum.splits)

subsection \<open>Comparing versions\<close>

lemma comparator_on: "comparator cmp \<Longrightarrow> comparator (\<lambda>a b. cmp (f a) (f b))"
  unfolding comparator_def by blast

lemma compareSemverDesc_comparator:
  assumes "semver_order L" shows "comparator (compareSemverDesc L)"
proof -
  have c: "comparator (sv_Compare L)" using assms by (simp add: semver_order_def)
  note anti = comparator.cmp_antisym [OF c] and trans = comparator.cmp_trans [OF c]
  show ?thesis
  proof
    fix a b c
    show "compareSemverDesc L a b < 0 \<longleftrightarrow> 0 < compareSemverDesc L b a"
      using anti by (auto simp: compareSemverDesc_def split: sum.split)
    show "compareSemverDesc L a b \<le> 0 \<Longrightarrow> compareSemverDesc L b c \<le> 0 \<Longrightarrow> compareSemverDesc L a c \<le> 0"
      using trans by (auto simp: compareSemverDesc_def split: sum.splits)
  qed
qed

subsection \<open>Merging the regions\<close>

text \<open>The entry of a version after merging a list of images: the first one's fields and all regions.\<close>

definition merged :: "SourceImage list \<Rightarrow> string \<Rightarrow> SourceImage option" where
  "merged all v =
     (case filter (\<lambda>i. si_Version i = v) all of
        [] \<Rightarrow> None
      | i # is \<Rightarrow> Some ((new_glance_entry i)\<lparr>si_Regions := concat (map si_Regions (i # is))\<rparr>))"

lemma merged_snoc:
  "merged (all @ [img]) v =
     (if si_Version img = v
      then Some (let e = (case merged all v of None \<Rightarrow> new_glance_entry img | Some e \<Rightarrow> e)
                 in e\<lparr>si_Regions := si_Regions e @ si_Regions img\<rparr>)
      else merged all v)"
  by (auto simp: merged_def new_glance_entry_def Let_def split: list.split)

lemma merge_images_map:
  "map_of (fst st) = merged all \<Longrightarrow> map_of (fst (merge_images imgs st)) = merged (all @ imgs)"
proof (induction imgs st arbitrary: all rule: merge_images.induct)
  case (2 img imgs m R)
  let ?e = "case map_of m (si_Version img) of None \<Rightarrow> new_glance_entry img | Some e \<Rightarrow> e"
  let ?m = "map_put (si_Version img) (?e\<lparr>si_Regions := si_Regions ?e @ si_Regions img\<rparr>) m"
  have "map_of ?m = merged (all @ [img])"
    using "2.prems" by (auto simp: fun_eq_iff map_of_map_put merged_snoc Let_def)
  then have "map_of (fst (merge_images imgs (?m, R \<union> ri_Region ` set (si_Regions img)))) =
      merged ((all @ [img]) @ imgs)" by (intro "2.IH" [OF refl refl]) simp
  then show ?case by (simp add: Let_def)
qed simp

lemma merge_images_regions:
  "snd (merge_images imgs st) = snd st \<union> (\<Union>i\<in>set imgs. ri_Region ` set (si_Regions i))"
  by (induction imgs st rule: merge_images.induct) (auto simp: Let_def)

lemma merge_images_ok: "gomap_ok (fst st) \<Longrightarrow> gomap_ok (fst (merge_images imgs st))"
  by (induction imgs st rule: merge_images.induct) (simp_all add: Let_def gomap_ok_put)

abbreviation found_images :: "(goerror + SourceImage list) list \<Rightarrow> SourceImage list" where
  "found_images rs \<equiv> concat (map (\<lambda>r. case r of Inl e \<Rightarrow> [] | Inr found \<Rightarrow> found) rs)"

definition region_errors :: "(goerror + SourceImage list) list \<Rightarrow> goerror list" where
  "region_errors rs = concat (map (\<lambda>r. case r of Inl e \<Rightarrow> [e] | Inr found \<Rightarrow> []) rs)"

lemma glance_receive_Inr:
  "glance_receive rs (m, R, sk) = Inr (m', R', sk') \<Longrightarrow> map_of m = merged all \<Longrightarrow> gomap_ok m \<Longrightarrow>
   R = (\<Union>i\<in>set all. ri_Region ` set (si_Regions i)) \<Longrightarrow>
   map_of m' = merged (all @ found_images rs) \<and> gomap_ok m' \<and>
   R' = (\<Union>i\<in>set (all @ found_images rs). ri_Region ` set (si_Regions i)) \<and>
   sk' = sk @ region_errors rs \<and> (\<forall>e\<in>set (region_errors rs). \<not> is_ctx_error e)"
proof (induction rs arbitrary: m R sk all)
  case (Cons r rs)
  show ?case
  proof (cases r)
    case (Inl err)
    with Cons.prems(1) have "\<not> is_ctx_error err" "glance_receive rs (m, R, sk @ [err]) = Inr (m', R', sk')"
      by (auto split: if_splits)
    with Cons.IH [OF this(2) Cons.prems(2-4)] Inl show ?thesis by (simp add: region_errors_def)
  next
    case (Inr found)
    obtain m1 R1 where 1: "merge_images found (m, R) = (m1, R1)" by fastforce
    have "glance_receive rs (m1, R1, sk) = Inr (m', R', sk')" using Cons.prems(1) Inr 1 by simp
    moreover have "map_of m1 = merged (all @ found)"
      using merge_images_map [of "(m, R)" all found] Cons.prems(2) 1 by simp
    moreover have "gomap_ok m1" using merge_images_ok [of "(m, R)" found] Cons.prems(3) 1 by simp
    moreover have "R1 = (\<Union>i\<in>set (all @ found). ri_Region ` set (si_Regions i))"
      using merge_images_regions [of found "(m, R)"] Cons.prems(4) 1 by auto
    ultimately show ?thesis using Cons.IH [of m1 R1 sk "all @ found"] Inr by (simp add: region_errors_def)
  qed
qed (simp add: region_errors_def)

lemma merged_SomeD:
  "merged all v = Some e \<Longrightarrow>
   si_Version e = v \<and> set (si_Regions e) = (\<Union>i\<in>{i \<in> set all. si_Version i = v}. set (si_Regions i)) \<and>
   si_ExpirationDate e = None \<and>
   (\<exists>i\<in>set all. si_Architectures e = si_Architectures i \<and> si_Capabilities e = si_Capabilities i \<and>
      si_CleanVersion e = si_CleanVersion i \<and> si_Version i = v)"
proof -
  assume e: "merged all v = Some e"
  then obtain i "is" where f: "filter (\<lambda>i. si_Version i = v) all = i # is"
    "e = (new_glance_entry i)\<lparr>si_Regions := concat (map si_Regions (i # is))\<rparr>"
    by (auto simp: merged_def split: list.splits)
  then have s: "{i \<in> set all. si_Version i = v} = set (i # is)" by (metis set_filter)
  then have "i \<in> set all" "si_Version i = v" by auto
  with f(2) s show ?thesis by (auto simp: new_glance_entry_def)
qed

lemma merged_None: "merged all v = None \<longleftrightarrow> v \<notin> si_Version ` set all"
proof -
  have "merged all v = None \<longleftrightarrow> filter (\<lambda>i. si_Version i = v) all = []"
    by (simp add: merged_def split: list.split)
  then show ?thesis by (auto simp: filter_empty_conv)
qed

subsection \<open>The window\<close>

lemma sint_add_exact:
  fixes b :: int64
  assumes "0 \<le> a" "0 \<le> sint b" "a + sint b < 2 ^ 63"
  shows "sint (word_of_int a + b) = a + sint b"
proof -
  have "sint (word_of_int a :: int64) = a"
    using assms by (simp add: sint_sbintrunc' signed_take_bit_int_eq_self)
  moreover have "signed_take_bit 63 (a + sint b) = a + sint b"
    by (rule signed_take_bit_int_eq_self) (use assms in simp_all)
  ultimately show ?thesis by (simp add: sint_word_ariths)
qed

definition window_fits :: "int64 \<Rightarrow> int64 \<Rightarrow> 'a list \<Rightarrow> bool" where
  "window_fits offset keepLatest versions \<longleftrightarrow>
     0 \<le> sint offset \<and>
     (0 < sint keepLatest \<longrightarrow> min (sint offset) (int (length versions)) + sint keepLatest < 2 ^ 63)"

lemma window_eq:
  assumes "window_fits offset keepLatest xs"
  shows "window offset keepLatest xs =
    Some (let ys = drop (nat (sint offset)) xs in
          if 0 < sint keepLatest then take (nat (sint keepLatest)) ys else ys)"
proof -
  let ?n = "int (length xs)" and ?o = "sint offset" and ?k = "sint keepLatest"
  let ?lo = "min ?o ?n"
  have o: "0 \<le> ?o" using assms by (simp add: window_fits_def)
  have dl: "drop (nat ?lo) xs = drop (nat ?o) xs" by (cases "?o \<le> ?n") simp_all
  show ?thesis
  proof (cases "0 < ?k")
    case True
    then have "?lo + ?k < 2 ^ 63" using assms by (simp add: window_fits_def)
    then have s: "sint (word_of_int ?lo + keepLatest) = ?lo + ?k"
      using sint_add_exact [of ?lo keepLatest] o True by simp
    have "drop (nat ?lo) (take (nat (min (?lo + ?k) ?n)) xs) = take (nat ?k) (drop (nat ?lo) xs)"
    proof -
      have "take (nat (min (?lo + ?k) ?n)) xs = take (nat (?lo + ?k)) xs"
        by (cases "?lo + ?k \<le> ?n") simp_all
      moreover have "nat (?lo + ?k) = nat ?lo + nat ?k" using o True by (simp add: nat_add_distrib)
      ultimately show ?thesis by (simp add: take_drop add.commute)
    qed
    then show ?thesis using True o s dl by (simp add: window_def Let_def)
  next
    case False
    then show ?thesis using o dl by (auto simp: window_def Let_def)
  qed
qed

subsection \<open>What a call returns\<close>

definition all_regions :: "SourceImage list \<Rightarrow> string set" where
  "all_regions all = (\<Union>i\<in>set all. ri_Region ` set (si_Regions i))"

text \<open>The versions that are eligible: found somewhere and, when all regions are required, in every region.\<close>

definition eligible :: "Glance \<Rightarrow> SourceImage list \<Rightarrow> string \<Rightarrow> bool" where
  "eligible g all v \<longleftrightarrow> v \<in> si_Version ` set all \<and>
     (gp_RequireAllRegions (gl_params g) \<longrightarrow>
        (\<forall>r\<in>all_regions all. \<exists>i\<in>set all. si_Version i = v \<and> r \<in> ri_Region ` set (si_Regions i)))"

abbreviation desc :: "'v semver \<Rightarrow> SourceImage \<Rightarrow> SourceImage \<Rightarrow> int" where
  "desc L \<equiv> \<lambda>a b. compareSemverDesc L (si_Version a) (si_Version b)"

lemma desc_comparator: "semver_order L \<Longrightarrow> comparator (desc L)"
  by (rule comparator_on [OF compareSemverDesc_comparator])

text \<open>The merged entries that stay, newest first.\<close>

definition ranked :: "'v semver \<Rightarrow> Glance \<Rightarrow> SourceImage list \<Rightarrow> SourceImage list \<Rightarrow> bool" where
  "ranked L g all vs \<longleftrightarrow>
     sorted_by (desc L) vs \<and> distinct (map si_Version vs) \<and>
     (\<forall>v. v \<in> si_Version ` set vs \<longleftrightarrow> eligible g all v) \<and>
     (\<forall>e\<in>set vs. merged all (si_Version e) = Some e)"

lemma ranked_length:
  assumes "ranked L g all vs" shows "length vs \<le> length all"
proof -
  have "length vs = card (si_Version ` set vs)"
    using assms by (metis distinct_card length_map list.set_map ranked_def)
  also have "\<dots> \<le> card (si_Version ` set all)"
    using assms by (intro card_mono) (auto simp: ranked_def eligible_def)
  also have "\<dots> \<le> length all" by (meson card_image_le card_length finite_set le_trans)
  finally show ?thesis .
qed

lemma merged_entries:
  assumes "map_of m = merged all" "gomap_ok m" "mset es = mset m"
  shows "distinct (map si_Version (map snd es))" "si_Version ` set (map snd es) = si_Version ` set all"
    "\<forall>e\<in>set (map snd es). merged all (si_Version e) = Some e"
proof -
  have key: "si_Version (snd p) = fst p \<and> merged all (fst p) = Some (snd p)" if "p \<in> set m" for p
  proof -
    have "map_of m (fst p) = Some (snd p)" using that assms(2) by simp
    then have "merged all (fst p) = Some (snd p)" using assms(1) by simp
    with merged_SomeD [OF this] show ?thesis by simp
  qed
  have s: "set es = set m" using assms(3) by (metis set_mset_mset)
  have eq: "map si_Version (map snd es) = map fst es" using key s by simp
  show "distinct (map si_Version (map snd es))"
    unfolding eq using assms(2,3) by (metis mset_eq_imp_distinct_iff mset_map)
  show "\<forall>e\<in>set (map snd es). merged all (si_Version e) = Some e" using key s by auto
  have "si_Version ` set (map snd es) = fst ` set m" using eq s by (metis list.set_map)
  also have "\<dots> = dom (map_of m)" by (simp add: dom_map_of_conv_image_fst)
  also have "\<dots> = si_Version ` set all" unfolding assms(1) dom_def using merged_None [of all] by auto
  finally show "si_Version ` set (map snd es) = si_Version ` set all" .
qed

lemma covers_all:
  assumes "merged all v = Some e"
  shows "all_regions all - ri_Region ` set (si_Regions e) = {} \<longleftrightarrow>
    (\<forall>r\<in>all_regions all. \<exists>i\<in>set all. si_Version i = v \<and> r \<in> ri_Region ` set (si_Regions i))"
proof -
  have "set (si_Regions e) = (\<Union>i\<in>{i \<in> set all. si_Version i = v}. set (si_Regions i))"
    using merged_SomeD [OF assms] by simp
  then have e: "r \<in> ri_Region ` set (si_Regions e) \<longleftrightarrow>
      (\<exists>i\<in>set all. si_Version i = v \<and> r \<in> ri_Region ` set (si_Regions i))" for r by auto
  show ?thesis unfolding e [symmetric] by blast
qed

lemma filterRequireRegions_eq:
  "filterRequireRegions vs R = filter (\<lambda>v. R - ri_Region ` set (si_Regions v) = {}) vs"
  by (simp add: filterRequireRegions_def)

lemma glance_Ok:
  assumes "semver_order L" "permuting rng" "glance_GetVersions L g now rng results = Ok xs"
  shows "\<exists>vs ws. ranked L g (found_images results) vs \<and>
    window (gl_offset g) (gl_keepLatest g) vs = Some ws \<and> xs = classify now ws \<and>
    (\<forall>e\<in>set (region_errors results). \<not> is_ctx_error e)"
proof -
  define all where "all = found_images results"
  obtain m R sk where rec: "glance_receive results ([], {}, []) = Inr (m, R, sk)"
    using assms(3) by (auto simp: glance_GetVersions_def split: sum.splits)
  have "map_of [] = merged []" by (simp add: fun_eq_iff merged_def)
  from glance_receive_Inr [OF rec this] have m: "map_of m = merged all" "gomap_ok m"
    and R: "R = all_regions all" and e: "\<forall>e\<in>set (region_errors results). \<not> is_ctx_error e"
    by (simp_all add: all_regions_def all_def)
  let ?es = "map snd (rng m)"
  note es = merged_entries [OF m permuting_mset [OF assms(2)]]
  define vs0 where "vs0 = (if gp_RequireAllRegions (gl_params g) then filterRequireRegions ?es R else ?es)"
  obtain ws where w: "window (gl_offset g) (gl_keepLatest g) (SortFunc (desc L) vs0) = Some ws"
    "xs = classify now ws"
    using assms(3) rec
    by (auto simp: glance_GetVersions_def glance_finish_def vs0_def Let_def split: if_splits option.splits)
  have "distinct (map si_Version vs0)"
    using es(1) by (simp add: vs0_def filterRequireRegions_eq distinct_map_filter)
  then have d: "distinct (map si_Version (SortFunc (desc L) vs0))"
    by (metis mset_SortFunc mset_eq_imp_distinct_iff mset_map)
  have in_vs0: "e \<in> set vs0 \<longleftrightarrow> e \<in> set ?es \<and> eligible g all (si_Version e)" for e
  proof (cases "e \<in> set ?es")
    case True
    then have "si_Version e \<in> si_Version ` set all" "merged all (si_Version e) = Some e"
      using es(2,3) by (blast intro: imageI)+
    with True covers_all [OF this(2)] show ?thesis
      by (simp add: vs0_def filterRequireRegions_eq eligible_def R del: set_map)
  qed (simp add: vs0_def filterRequireRegions_eq del: set_map)
  have "v \<in> si_Version ` set vs0 \<longleftrightarrow> eligible g all v" for v
  proof
    assume "eligible g all v"
    moreover from this have "v \<in> si_Version ` set ?es" using es(2) by (simp add: eligible_def)
    ultimately show "v \<in> si_Version ` set vs0" using in_vs0 by blast
  qed (use in_vs0 in blast)
  moreover have "\<forall>e\<in>set vs0. merged all (si_Version e) = Some e" using es(3) in_vs0 by blast
  ultimately have "ranked L g all (SortFunc (desc L) vs0)"
    using d comparator.SortFunc_sorted [OF desc_comparator [OF assms(1)]]
    unfolding ranked_def by simp
  with w e show ?thesis unfolding all_def by blast
qed

lemma classify_length [simp]: "length (classify now ws) = length ws"
  by (simp add: classify_def Let_def)

lemma classify_nth:
  assumes "i < length ws"
  shows "classify now ws ! i =
    (if Suc i = length ws
     then (ws ! i)\<lparr>si_Classification := Some ClassificationDeprecated,
            si_ExpirationDate := (case si_ExpirationDate (ws ! i) of None \<Rightarrow> Some now | Some t \<Rightarrow> Some t)\<rparr>
     else (ws ! i)\<lparr>si_Classification := Some ClassificationSupported\<rparr>)"
  using assms by (auto simp: classify_def Let_def nth_list_update split: option.split)

lemma classify_versions [simp]: "map si_Version (classify now ws) = map si_Version ws"
  by (rule nth_equalityI) (simp_all add: classify_nth)

text \<open>Everything but classification and expiration of an image is left by \<^const>\<open>classify\<close>.\<close>

lemma classify_frame:
  assumes "x \<in> set (classify now ws)"
  shows "\<exists>w\<in>set ws. si_Version x = si_Version w \<and> si_Regions x = si_Regions w \<and>
    si_Architectures x = si_Architectures w \<and> si_Capabilities x = si_Capabilities w"
proof -
  obtain i where "i < length ws" "x = classify now ws ! i" using assms by (metis classify_length in_set_conv_nth)
  then show ?thesis by (intro bexI [of _ "ws ! i"]) (simp_all add: classify_nth)
qed

lemma window_set: "window off k vs = Some ws \<Longrightarrow> set ws \<subseteq> set vs"
  by (auto simp: window_def Let_def split: if_splits dest!: in_set_dropD in_set_takeD)

subsection \<open>The contract of a source\<close>

lemma canonical_versions:
  "p \<in> set (canonical_loop L g imgs []) \<Longrightarrow> \<exists>i\<in>set imgs. parseVersion L g (gi_Name i) = Some (fst p)"
proof -
  assume p: "p \<in> set (canonical_loop L g imgs [])"
  have "gomap_ok (canonical_loop L g imgs [])" by (rule canonical_loop_ok) simp
  then have "map_of (canonical_loop L g imgs []) (fst p) = Some (snd p)" using p by simp
  then show ?thesis using canonical_best(1) [of L g imgs "fst p" "snd p"] by (auto simp: candidates_def)
qed

lemma region_image_ok: "delivered_ok (region_image r vi)"
  by (simp add: delivered_ok_def region_image_def)

definition glance_possible ::
  "Glance \<times> time \<times> ((string, SourceImage) gomap \<Rightarrow> (string, SourceImage) gomap) \<times> (goerror + SourceImage list) list
   \<Rightarrow> bool" where
  "glance_possible e \<longleftrightarrow> (case e of (g, now, rng, results) \<Rightarrow>
     permuting rng \<and> (\<forall>x\<in>set (found_images results). \<exists>r vi. x = region_image r vi))"

lemma receive_entries:
  assumes "glance_receive results ([], {}, []) = Inr (m, R, sk)" "(v, e) \<in> set m"
    and "\<forall>x\<in>set (found_images results). delivered_ok x"
  shows "delivered_ok e"
proof -
  define all where "all = found_images results"
  have "map_of [] = merged []" by (simp add: fun_eq_iff merged_def)
  from glance_receive_Inr [OF assms(1) this] have m: "map_of m = merged all" "gomap_ok m"
    by (simp_all add: all_def)
  then have "merged all v = Some e" using assms(2) by (metis map_of_is_SomeI)
  from merged_SomeD [OF this] obtain i where "i \<in> set all" "si_Architectures e = si_Architectures i"
    "si_Capabilities e = si_Capabilities i" by blast
  with assms(3) show ?thesis unfolding all_def delivered_ok_def by metis
qed

interpretation glance: image_source glance_possible
  "\<lambda>(g, now, rng, results). glance_GetVersions L g now rng results" for L
proof unfold_locales
  fix e xs x
  assume e: "glance_possible e"
    and get: "(case e of (g, now, rng, results) \<Rightarrow> glance_GetVersions L g now rng results) = Ok xs"
    and x: "x \<in> set xs"
  obtain g now rng results where q: "e = (g, now, rng, results)" by (metis prod_cases4)
  have rng: "permuting rng" and "\<forall>x\<in>set (found_images results). \<exists>r vi. x = region_image r vi"
    using e unfolding q glance_possible_def by simp_all
  then have im: "\<forall>x\<in>set (found_images results). delivered_ok x" using region_image_ok by metis
  have get': "glance_GetVersions L g now rng results = Ok xs" using get q by simp
  then obtain m R sk where rec: "glance_receive results ([], {}, []) = Inr (m, R, sk)"
    by (auto simp: glance_GetVersions_def split: sum.splits)
  define vs0 where "vs0 = (if gp_RequireAllRegions (gl_params g)
    then filterRequireRegions (map snd (rng m)) R else map snd (rng m))"
  obtain ws where w: "window (gl_offset g) (gl_keepLatest g) (SortFunc (desc L) vs0) = Some ws" "xs = classify now ws"
    using get' rec
    by (auto simp: glance_GetVersions_def glance_finish_def vs0_def Let_def split: if_splits option.splits)
  obtain y where y: "y \<in> set ws" "si_Architectures x = si_Architectures y" "si_Capabilities x = si_Capabilities y"
    using classify_frame x w(2) by blast
  then have "y \<in> set vs0" using window_set [OF w(1)] by auto
  then have "y \<in> snd ` set m" using permuting_set [OF rng]
    by (auto simp: vs0_def filterRequireRegions_eq split: if_splits)
  then obtain v where "(v, y) \<in> set m" by force
  from receive_entries [OF rec this im] y show "delivered_ok x" by (simp add: delivered_ok_def)
qed

text \<open>The fan-out of the goroutines satisfies the conditions under which it completes.\<close>

lemma glance_fan_ok: "0 < sint (gl_permits g) \<Longrightarrow> fan_ok (glance_fan L other g ctx)"
  using permuting_id by (auto simp: fan_ok_def glance_fan_def Let_def)

lemma NewGlance_Ok:
  assumes "NewGlance G params = Ok g"
  shows "gl_params g = params \<and> gp_Regions params \<noteq> [] \<and> gp_AuthURLFormat params \<noteq> [] \<and>
    0 < sint (gl_permits g) \<and> 0 \<le> sint (gl_offset g) \<and> gl_keepLatest g \<noteq> 0"
  using assms
  by (auto simp: NewGlance_def Let_def DefaultGlanceKeepLatest_def defaultGlanceParallel_def
      defaultGlanceVersionOffset_def split: if_splits)

lemma glance_delivery:
  assumes "0 < sint (gl_permits g)"
    and "fan_run (glance_fan L other g ctx) (fan_init (glance_fan L other g ctx)) k s"
  shows "\<forall>x\<in>set (found_images (fs_got s)). \<exists>r vi. x = region_image r vi"
proof -
  let ?F = "glance_fan L other g ctx"
  have inv: "fan_inv ?F s" using fan_run_reach [OF assms(2) fan_reach.start] by (rule fan_reach_inv)
  have got: "r \<in> fn_work ?F i \<union> fn_refuse ?F i" if "r \<in> set (delivered (fs_workers s ! i))" "i < length (fs_workers s)" for r i
  proof -
    have "phase_ok ?F i (fs_workers s ! i)" using inv that(2) by (simp add: fan_inv_def)
    with that(1) show ?thesis by (cases "fs_workers s ! i" rule: phase.exhaust) auto
  qed
  have "\<exists>r' vi. x = region_image r' vi" if x: "Inr found \<in> set (fs_got s)" "x \<in> set found" for x found
  proof -
    have "set (fs_got s) \<subseteq> set (delivered_all (fs_workers s))"
      using inv unfolding fan_inv_def by (metis Un_iff set_append set_mset_mset subsetI)
    with x(1) obtain p where "p \<in> set (fs_workers s)" "Inr found \<in> set (delivered p)"
      unfolding delivered_all_def by auto
    then obtain i where "i < length (fs_workers s)" "Inr found \<in> set (delivered (fs_workers s ! i))"
      by (metis in_set_conv_nth)
    from got [OF this(2,1)] obtain rng where "discoverRegion L other g rng (gp_Regions (gl_params g) ! i) = Inr found"
      by (auto simp: glance_fan_def Let_def)
    then obtain imgs where "found = map (region_image (gp_Regions (gl_params g) ! i)) (rng (canonical_loop L g imgs []))"
      by (rule discoverRegion_Inr)
    then obtain p where "x = region_image (gp_Regions (gl_params g) ! i) p" using x(2) by auto
    then show ?thesis by blast
  qed
  then show ?thesis by (auto split: sum.splits)
qed

subsection \<open>Properties\<close>

text \<open>C26 glance_canonical. What one region contributes: for each version that a public image's name carries exactly one image,
  and among the images of that version it is one of the highest rank: an active one before any other, then
  the newest, then the one with the larger identifier, in whatever order Glance lists them.\<close>

theorem glance_canonical:
  assumes "discoverRegion L other g rng region = Inr found" "permuting rng"
    and "gl_authenticate g (fmt_Sprintf other (gp_AuthURLFormat (gl_params g)) region) (authOptions g) = Inr provider"
    and "gl_listImages g provider region = Inr imgs"
  shows "distinct (map si_Version found) \<and>
    (\<forall>v. v \<in> si_Version ` set found \<longleftrightarrow> candidates L g imgs v \<noteq> []) \<and>
    (\<forall>x\<in>set found. \<exists>img\<in>set (candidates L g imgs (si_Version x)).
       x = region_image region (si_Version x, img) \<and>
       (\<forall>i\<in>set (candidates L g imgs (si_Version x)). rank_of i \<le> rank_of img))"
proof -
  let ?c = "canonical_loop L g imgs []"
  have ok: "gomap_ok ?c" by (rule canonical_loop_ok) simp
  have found: "found = map (region_image region) (rng ?c)"
    using assms(1,3,4) by (auto simp: discoverRegion_def Let_def)
  then have v: "map si_Version found = map fst (rng ?c)" by simp
  have "distinct (map si_Version found)"
    unfolding v using ok permuting_mset [OF assms(2), of ?c] by (metis mset_eq_imp_distinct_iff mset_map)
  moreover have "v \<in> si_Version ` set found \<longleftrightarrow> candidates L g imgs v \<noteq> []" for v
  proof -
    have "si_Version ` set found = fst ` set ?c" using v permuting_set [OF assms(2)] by (metis list.set_map)
    also have "\<dots> = dom (map_of ?c)" by (simp add: dom_map_of_conv_image_fst)
    finally show ?thesis using canonical_best(2) [of L g imgs v] by auto
  qed
  moreover have "\<exists>img\<in>set (candidates L g imgs (si_Version x)).
       x = region_image region (si_Version x, img) \<and>
       (\<forall>i\<in>set (candidates L g imgs (si_Version x)). rank_of i \<le> rank_of img)" if xf: "x \<in> set found" for x
  proof -
    obtain p where p: "p \<in> set ?c" "x = region_image region p"
      using xf permuting_set [OF assms(2), of ?c] unfolding found by auto
    then have "map_of ?c (si_Version x) = Some (snd p)" using ok by simp
    with canonical_best(1) [of L g imgs "si_Version x" "snd p"] p show ?thesis
      by (intro bexI [of _ "snd p"]) simp_all
  qed
  ultimately show ?thesis by blast
qed


text \<open>C25 glance_regions. The regions of a returned version are exactly those in which an image of that version was found, with
  the identifiers found there; and when all regions are required, they cover every region that contributed
  any image.\<close>

theorem glance_regions:
  assumes "semver_order L" "permuting rng" "glance_GetVersions L g now rng results = Ok xs" "x \<in> set xs"
  shows "set (si_Regions x) =
      (\<Union>i\<in>{i \<in> set (found_images results). si_Version i = si_Version x}. set (si_Regions i)) \<and>
    (gp_RequireAllRegions (gl_params g) \<longrightarrow>
      all_regions (found_images results) \<subseteq> ri_Region ` set (si_Regions x))"
proof -
  obtain vs ws where r: "ranked L g (found_images results) vs"
    and w: "window (gl_offset g) (gl_keepLatest g) vs = Some ws" "xs = classify now ws"
    using glance_Ok [OF assms(1-3)] by blast
  obtain y where y: "y \<in> set ws" "si_Version x = si_Version y" "si_Regions x = si_Regions y"
    using classify_frame assms(4) w(2) by blast
  then have yv: "y \<in> set vs" using window_set [OF w(1)] by blast
  then have m: "merged (found_images results) (si_Version y) = Some y"
    and e: "eligible g (found_images results) (si_Version y)" using r by (auto simp: ranked_def)
  have "gp_RequireAllRegions (gl_params g) \<longrightarrow>
      all_regions (found_images results) - ri_Region ` set (si_Regions y) = {}"
    unfolding covers_all [OF m] using e by (simp add: eligible_def)
  moreover have "set (si_Regions y) =
      (\<Union>i\<in>{i \<in> set (found_images results). si_Version i = si_Version y}. set (si_Regions i))"
    using merged_SomeD [OF m] by blast
  ultimately show ?thesis unfolding y(2,3) by blast
qed


text \<open>Apart from that overflow a Glance source that was constructed by NewGlance never panics, whatever the
  regions answer.\<close>

lemma glance_no_panic:
  assumes "NewGlance G params = Ok g" "permuting rng"
    and "sint (gl_keepLatest g) + int (length (found_images results)) < 2 ^ 63"
  shows "glance_GetVersions L g now rng results \<noteq> Panic"
proof
  assume P: "glance_GetVersions L g now rng results = Panic"
  then obtain m R sk where rec: "glance_receive results ([], {}, []) = Inr (m, R, sk)"
    by (auto simp: glance_GetVersions_def split: sum.splits)
  define vs0 where "vs0 = (if gp_RequireAllRegions (gl_params g)
    then filterRequireRegions (map snd (rng m)) R else map snd (rng m))"
  have w: "window (gl_offset g) (gl_keepLatest g) (SortFunc (desc L) vs0) = None"
    using P rec
    by (auto simp: glance_GetVersions_def glance_finish_def vs0_def Let_def split: if_splits option.splits)
  define all where "all = found_images results"
  have "map_of [] = merged []" by (simp add: fun_eq_iff merged_def)
  from glance_receive_Inr [OF rec this] have m: "map_of m = merged all" "gomap_ok m"
    by (simp_all add: all_def)
  have "length vs0 \<le> length m"
    using permuting_length [OF assms(2), of m] length_filter_le [of _ "map snd (rng m)"]
    by (auto simp: vs0_def filterRequireRegions_eq simp del: filter_map)
  also have "length m = card (dom (merged all))" using gomap_ok_length [OF m(2)] m(1) by simp
  also have "dom (merged all) = si_Version ` set all" unfolding dom_def using merged_None [of all] by auto
  also have "card (si_Version ` set all) \<le> length all" by (meson card_image_le card_length finite_set le_trans)
  finally have "length (SortFunc (desc L) vs0) \<le> length all" by simp
  then have "window_fits (gl_offset g) (gl_keepLatest g) (SortFunc (desc L) vs0)"
    using NewGlance_Ok [OF assms(1)] assms(3) by (auto simp: window_fits_def all_def)
  from window_eq [OF this] w show False by simp
qed

end
