(* ===== verification/K8sUpdater.thy ===== *)
theory K8sUpdater
  imports ApiTypes
begin

section \<open>The Kubernetes version updater\<close>

text \<open>
  Models \<^verbatim>\<open>cloudprofilesync/k8ssync/k8s_image_updater.go\<close>, and the contract of the interface
  \<^verbatim>\<open>KubernetesVersionSource\<close> that its client lemmas need.
\<close>

type_synonym FetchVersions = "string option \<Rightarrow> ExpirableVersion list outcome"

record KubernetesVersionUpdater =
  ku_Source :: FetchVersions
  ku_Threshold :: duration

definition NewKubernetesVersionUpdater :: "FetchVersions \<Rightarrow> duration \<Rightarrow> KubernetesVersionUpdater" where
  "NewKubernetesVersionUpdater source expirationThreshold =
     \<lparr>ku_Source = source, ku_Threshold = expirationThreshold\<rparr>"

definition k8s_Fetch :: "KubernetesVersionUpdater \<Rightarrow> string option \<Rightarrow> ExpirableVersion list outcome" where
  "k8s_Fetch ku gardenerVersion =
     wrapO ''fetching kubernetes versions: %w'' [] (ku_Source ku gardenerVersion)"

fun filter_expired :: "time \<Rightarrow> ExpirableVersion list \<Rightarrow> ExpirableVersion list \<Rightarrow> ExpirableVersion list" where
  "filter_expired cutoff [] filteredVersions = filteredVersions"
| "filter_expired cutoff (v # vs) filteredVersions =
     (case ev_ExpirationDate v of
        Some t \<Rightarrow>
          if t < cutoff then filter_expired cutoff vs filteredVersions
          else filter_expired cutoff vs (filteredVersions @ [v])
      | None \<Rightarrow> filter_expired cutoff vs (filteredVersions @ [v]))"

definition k8s_Apply ::
  "KubernetesVersionUpdater \<Rightarrow> time \<Rightarrow> ExpirableVersion list \<Rightarrow> ExpirableVersion list outcome" where
  "k8s_Apply ku now versions =
     (let cutoff = time_Add now (- ku_Threshold ku);
          filteredVersions = filter_expired cutoff versions []
      in if length filteredVersions = 0
         then Fail (Errorf ''source returned no kubernetes versions after expiration filtering, refusing to wipe CloudProfile'' [])
         else Ok filteredVersions)"

definition expired :: "time \<Rightarrow> ExpirableVersion \<Rightarrow> bool" where
  "expired cutoff v \<longleftrightarrow> (\<exists>t. ev_ExpirationDate v = Some t \<and> t < cutoff)"

lemma filter_expired_eq: "filter_expired cutoff vs acc = acc @ filter (\<lambda>v. \<not> expired cutoff v) vs"
  by (induction cutoff vs acc rule: filter_expired.induct) (auto simp: expired_def split: option.splits)

lemma k8s_Apply_eq:
  "k8s_Apply ku now vs =
     (let ws = filter (\<lambda>v. \<not> expired (time_Add now (- ku_Threshold ku)) v) vs in
      if ws = []
      then Fail (Errorf ''source returned no kubernetes versions after expiration filtering, refusing to wipe CloudProfile'' [])
      else Ok ws)"
  by (simp add: k8s_Apply_def filter_expired_eq Let_def)

subsection \<open>The contract of a source\<close>

text \<open>
  What the updater relies on: a source never panics, and it returns only versions that are published
  where it looks. The client lemma is about the composition of \<^verbatim>\<open>Fetch\<close> and \<^verbatim>\<open>Apply\<close>, as the
  reconciler runs them.
\<close>

locale kubernetes_source =
  fixes fetch :: FetchVersions
    and published :: "string option \<Rightarrow> ExpirableVersion \<Rightarrow> bool"
  assumes fetch_no_panic: "fetch gv \<noteq> Panic"
    and fetch_published: "fetch gv = Ok vs \<Longrightarrow> v \<in> set vs \<Longrightarrow> published gv v"
begin

lemma update_published:
  assumes "k8s_Fetch (NewKubernetesVersionUpdater fetch thr) gv = Ok vs"
    and "k8s_Apply (NewKubernetesVersionUpdater fetch thr) now vs = Ok ws"
  shows "ws \<noteq> [] \<and> (\<forall>w\<in>set ws. published gv w \<and> \<not> expired (time_Add now (- thr)) w)"
proof -
  have "fetch gv = Ok vs"
    using assms(1) by (simp add: k8s_Fetch_def NewKubernetesVersionUpdater_def outcome_simps)
  moreover have "ws \<noteq> []" "ws = filter (\<lambda>v. \<not> expired (time_Add now (- thr)) v) vs"
    using assms(2) by (auto simp: k8s_Apply_eq NewKubernetesVersionUpdater_def Let_def split: if_splits)
  ultimately show ?thesis using fetch_published by auto
qed

lemma update_no_panic: "k8s_Fetch (NewKubernetesVersionUpdater fetch thr) gv \<noteq> Panic"
  using fetch_no_panic by (simp add: k8s_Fetch_def NewKubernetesVersionUpdater_def outcome_simps)

end

subsection \<open>Properties\<close>

text \<open>Applying fetched Kubernetes versions keeps, in order, exactly those that did not expire before now
  minus the threshold (versions without an expiration date never expire), and refuses with an error, rather
  than returning an empty list, when none is left.\<close>

lemma k8s_Apply_filters:
  "(k8s_Apply ku now vs = Ok ws \<longleftrightarrow>
      ws = filter (\<lambda>v. case ev_ExpirationDate v of None \<Rightarrow> True
                       | Some t \<Rightarrow> time_Add now (- ku_Threshold ku) \<le> t) vs \<and> ws \<noteq> []) \<and>
   (k8s_Apply ku now vs \<noteq> Panic)"
proof -
  have e: "(\<lambda>v. \<not> expired c v) = (\<lambda>v. case ev_ExpirationDate v of None \<Rightarrow> True | Some t \<Rightarrow> c \<le> t)" for c
    by (auto simp: expired_def fun_eq_iff split: option.split)
  show ?thesis unfolding k8s_Apply_eq e by (auto simp: Let_def)
qed

end
