(* ===== verification/Landscape.thy ===== *)
theory Landscape
  imports K8sUpdater Semver OciSource
begin

section \<open>Kubernetes versions from the landscape setup\<close>

text \<open>
  Models \<^verbatim>\<open>cloudprofilesync/k8ssync/source/landscape/landscape_source.go\<close>: choosing the tag of an OCI
  repository, reading the component descriptor out of the first layer's tar archive, and intersecting the
  versions it ships with those the provider's version file publishes. The registry client and the
  decoders of JSON, tar and YAML are the fields of a record.
\<close>

definition componentDescriptorFile :: string where
  "componentDescriptorFile = ''component-descriptor.yaml''"
definition kubeAPIServerResourceName :: string where
  "kubeAPIServerResourceName = ''kube-apiserver''"
definition kubernetesVersionDataResourceName :: string where
  "kubernetesVersionDataResourceName = ''kubernetes-version-data''"
definition gardenerComponentName :: string where
  "gardenerComponentName = ''github.com/gardener/gardener''"

subsection \<open>The decoded documents\<close>

record resourceAccess =
  ra_Type :: string
  ra_LocalReference :: string
  ra_MediaType :: string
  ra_Size :: int64

record component_resource =
  re_Name :: string
  re_Version :: string
  re_Access :: resourceAccess

record component_reference =
  rf_ComponentName :: string
  rf_Version :: string

record componentDescriptor =
  cd_Resources :: "component_resource list"
  cd_ComponentReferences :: "component_reference list"

record yamlExpirableVersion =
  yv_Version :: string
  yv_Classification :: "VersionClassification option"
  yv_ExpirationDate :: "time option"

record provider_versions =
  pv_Name :: string
  pv_Versions :: "yamlExpirableVersion list"

text \<open>
  The repository: its name, its tags, the bytes of a manifest, the layers of a decoded manifest, the bytes
  of a layer, the entries of a tar archive with the content or error of each (and the error that ends the
  archive, if it is not its end), the decoders of the two YAML documents, and the blobs.
\<close>

record landscape_repo =
  lr_Reference :: string
  lr_Tags :: "string list list \<times> goerror option"
  lr_FetchBytes :: "string \<Rightarrow> goerror + string"
  lr_Layers :: "string \<Rightarrow> goerror + opaque list"
  lr_FetchAll :: "opaque \<Rightarrow> goerror + string"
  lr_Tar :: "string \<Rightarrow> (string \<times> (goerror + string)) list \<times> goerror option"
  lr_Descriptor :: "string \<Rightarrow> goerror + componentDescriptor"
  lr_Blob :: "string \<Rightarrow> int64 \<Rightarrow> string \<Rightarrow> goerror + opaque"
  lr_ReadAll :: "opaque \<Rightarrow> goerror + string"
  lr_Providers :: "string \<Rightarrow> goerror + provider_versions list"

record LandscapeKubernetesSource =
  lk_ociRepo :: landscape_repo
  lk_provider :: string

definition NewLandscapeKubernetesSource ::
  "(string \<Rightarrow> goerror option) \<Rightarrow> (remote_config \<Rightarrow> landscape_repo) \<Rightarrow> Params \<Rightarrow> string
   \<Rightarrow> LandscapeKubernetesSource outcome" where
  "NewLandscapeKubernetesSource NewRepository connect ociParams provider =
     (if provider = [] then Fail (Errorf ''provider must be set'' [])
      else bindO (wrapO ''initializing OCI repository: %w'' [] (ocirepo_New NewRepository ociParams))
             (\<lambda>repo. Ok \<lparr>lk_ociRepo = connect repo, lk_provider = provider\<rparr>))"

subsection \<open>Choosing the tag\<close>

fun gardenerVersionFromRefs :: "component_reference list \<Rightarrow> string option" where
  "gardenerVersionFromRefs [] = None"
| "gardenerVersionFromRefs (ref # refs) =
     (if rf_ComponentName ref = gardenerComponentName then Some (rf_Version ref)
      else gardenerVersionFromRefs refs)"

definition gardenerVersionFromCD :: "componentDescriptor \<Rightarrow> string option" where
  "gardenerVersionFromCD cd = gardenerVersionFromRefs (cd_ComponentReferences cd)"

fun parse_tags :: "'v semver \<Rightarrow> string list \<Rightarrow> (string \<times> 'v) list" where
  "parse_tags L [] = []"
| "parse_tags L (t # ts) =
     (case sv_ParseTolerant L t of Inr v \<Rightarrow> (t, v) # parse_tags L ts | Inl err \<Rightarrow> parse_tags L ts)"

definition tag_cmp :: "'v semver \<Rightarrow> string \<times> 'v \<Rightarrow> string \<times> 'v \<Rightarrow> int" where
  "tag_cmp L a b = sv_Compare L (snd b) (snd a)"

definition listSemverTags :: "'v semver \<Rightarrow> LandscapeKubernetesSource \<Rightarrow> string list outcome" where
  "listSemverTags L s =
     (case lr_Tags (lk_ociRepo s) of
        (pages, Some err) \<Rightarrow> Fail (Wrapf ''listing tags: %w'' [] err)
      | (pages, None) \<Rightarrow>
          (let tags = concat pages in
           if length tags = 0 then Fail (Errorf ''no tags found in %s'' [FStr (lr_Reference (lk_ociRepo s))])
           else
             (let parseable = parse_tags L tags in
              if length parseable = 0
              then Fail (Errorf ''no semver tags found in %s'' [FStr (lr_Reference (lk_ociRepo s))])
              else Ok (map fst (SortFunc (tag_cmp L) parseable)))))"

definition LatestTag :: "'v semver \<Rightarrow> LandscapeKubernetesSource \<Rightarrow> string outcome" where
  "LatestTag L s =
     bindO (listSemverTags L s) (\<lambda>tags. case tags of [] \<Rightarrow> Panic | t # ts \<Rightarrow> Ok t)"

definition minorVersion :: "string \<Rightarrow> string" where
  "minorVersion v =
     (let parts = str_SplitN CHR ''.'' 3 v in
      if length parts < 2 then v else parts ! 0 @ ''.'' @ parts ! 1)"

definition matchesFile :: "string \<Rightarrow> string \<Rightarrow> bool" where
  "matchesFile name target =
     (let name = str_TrimPrefix ''./'' name in name = target \<or> suffix (''/'' @ target) name)"

fun extract_loop ::
  "landscape_repo \<Rightarrow> (string \<times> (goerror + string)) list \<Rightarrow> goerror option \<Rightarrow> componentDescriptor outcome" where
  "extract_loop R [] None = Fail (Errorf ''%s not found in layer'' [FStr componentDescriptorFile])"
| "extract_loop R [] (Some err) = Fail (Wrapf ''reading tar: %w'' [] err)"
| "extract_loop R ((name, content) # entries) end_err =
     (if \<not> matchesFile name componentDescriptorFile then extract_loop R entries end_err
      else (case content of
              Inl err \<Rightarrow> Fail (Wrapf ''reading %s: %w'' [FStr componentDescriptorFile] err)
            | Inr raw \<Rightarrow>
                (case lr_Descriptor R raw of
                   Inl err \<Rightarrow> Fail (Wrapf ''parsing %s: %w'' [FStr componentDescriptorFile] err)
                 | Inr cd \<Rightarrow> Ok cd)))"

definition extractComponentDescriptor :: "landscape_repo \<Rightarrow> string \<Rightarrow> componentDescriptor outcome" where
  "extractComponentDescriptor R bytes = (case lr_Tar R bytes of (entries, err) \<Rightarrow> extract_loop R entries err)"

definition fetchComponentDescriptor :: "LandscapeKubernetesSource \<Rightarrow> string \<Rightarrow> componentDescriptor outcome" where
  "fetchComponentDescriptor s tag =
     (let R = lk_ociRepo s in
      case lr_FetchBytes R tag of
        Inl err \<Rightarrow> Fail (Wrapf ''fetching manifest: %w'' [] err)
      | Inr manifestBytes \<Rightarrow>
          (case lr_Layers R manifestBytes of
             Inl err \<Rightarrow> Fail (Wrapf ''decoding manifest: %w'' [] err)
           | Inr [] \<Rightarrow> Fail (Errorf ''manifest has no layers'' [])
           | Inr (layer # layers) \<Rightarrow>
               (case lr_FetchAll R layer of
                  Inl err \<Rightarrow> Fail (Wrapf ''fetching layer blob: %w'' [] err)
                | Inr layerBytes \<Rightarrow>
                    wrapO ''extracting component descriptor: %w'' [] (extractComponentDescriptor R layerBytes))))"

text \<open>The loop over the tags: an unreadable descriptor is passed over.\<close>

fun first_matching :: "LandscapeKubernetesSource \<Rightarrow> string \<Rightarrow> string list \<Rightarrow> string option" where
  "first_matching s wantMinor [] = None"
| "first_matching s wantMinor (t # ts) =
     (case fetchComponentDescriptor s t of
        Ok cd \<Rightarrow>
          (case gardenerVersionFromCD cd of
             Some cdVersion \<Rightarrow>
               if minorVersion cdVersion = wantMinor then Some t else first_matching s wantMinor ts
           | None \<Rightarrow> first_matching s wantMinor ts)
      | Fail err \<Rightarrow> first_matching s wantMinor ts
      | Panic \<Rightarrow> None)"

definition TagForGardenerVersion ::
  "'v semver \<Rightarrow> LandscapeKubernetesSource \<Rightarrow> string \<Rightarrow> string outcome" where
  "TagForGardenerVersion L s gardenerVersion =
     (let wantMinor = minorVersion gardenerVersion in
      bindO (listSemverTags L s) (\<lambda>tags.
        case first_matching s wantMinor tags of
          Some t \<Rightarrow> Ok t
        | None \<Rightarrow> Fail (Errorf ''no RBSC tag found matching Gardener version %s in %s''
                          [FStr gardenerVersion, FStr (lr_Reference (lk_ociRepo s))])))"

subsection \<open>The versions at a tag\<close>

definition fetchSupportedVersions :: "LandscapeKubernetesSource \<Rightarrow> string \<Rightarrow> string list outcome" where
  "fetchSupportedVersions s tag =
     bindO (wrapO ''tag %s: %w'' [FStr tag] (fetchComponentDescriptor s tag)) (\<lambda>cd.
       Ok (map re_Version (filter (\<lambda>res. re_Name res = kubeAPIServerResourceName) (cd_Resources cd))))"

definition read_blob :: "landscape_repo \<Rightarrow> component_resource \<Rightarrow> string outcome" where
  "read_blob R res =
     (if ra_Type (re_Access res) \<noteq> ''localBlob/v1''
      then Fail (Errorf ''resource %q has unexpected access type %q, want localBlob/v1''
                   [FStr kubernetesVersionDataResourceName, FStr (ra_Type (re_Access res))])
      else
        (let localRef = ra_LocalReference (re_Access res) in
         if localRef = [] then Fail (Errorf ''resource %q has empty localReference''
                                       [FStr kubernetesVersionDataResourceName])
         else (case lr_Blob R localRef (ra_Size (re_Access res)) (ra_MediaType (re_Access res)) of
                 Inl err \<Rightarrow> Fail (Wrapf ''fetching blob %s: %w'' [FStr localRef] err)
               | Inr rc \<Rightarrow>
                   (case lr_ReadAll R rc of
                      Inl err \<Rightarrow> Fail (Wrapf ''reading blob %s: %w'' [FStr localRef] err)
                    | Inr raw \<Rightarrow> Ok raw))))"

fun blob_loop :: "landscape_repo \<Rightarrow> string \<Rightarrow> component_resource list \<Rightarrow> string outcome" where
  "blob_loop R tag [] =
     Fail (Errorf ''resource %q not found in component descriptor at tag %s''
             [FStr kubernetesVersionDataResourceName, FStr tag])"
| "blob_loop R tag (res # rest) =
     (if re_Name res \<noteq> kubernetesVersionDataResourceName then blob_loop R tag rest else read_blob R res)"

definition fetchKubernetesVersionsBlob :: "LandscapeKubernetesSource \<Rightarrow> string \<Rightarrow> string outcome" where
  "fetchKubernetesVersionsBlob s tag =
     bindO (wrapO ''fetching component descriptor: %w'' [] (fetchComponentDescriptor s tag))
       (\<lambda>cd. blob_loop (lk_ociRepo s) tag (cd_Resources cd))"

definition convertExpirationDate :: "time option \<Rightarrow> time option" where
  "convertExpirationDate t = (case t of None \<Rightarrow> None | Some t \<Rightarrow> Some t)"

definition convert_version :: "yamlExpirableVersion \<Rightarrow> ExpirableVersion" where
  "convert_version v =
     \<lparr>ev_Version = yv_Version v, ev_Classification = yv_Classification v,
      ev_ExpirationDate = convertExpirationDate (yv_ExpirationDate v)\<rparr>"

fun provider_loop :: "provider_versions list \<Rightarrow> string \<Rightarrow> ExpirableVersion list outcome" where
  "provider_loop [] provider = Fail (Errorf ''provider %q not found in the fetched data'' [FStr provider])"
| "provider_loop (p # ps) provider =
     (if pv_Name p = provider then
        (if length (pv_Versions p) = 0 then Fail (Errorf ''provider %q has no versions'' [FStr provider])
         else Ok (map convert_version (pv_Versions p)))
      else provider_loop ps provider)"

definition parseProviderVersions :: "landscape_repo \<Rightarrow> string \<Rightarrow> string \<Rightarrow> ExpirableVersion list outcome" where
  "parseProviderVersions R raw provider =
     (case lr_Providers R raw of
        Inl err \<Rightarrow> Fail (Wrapf ''parsing versions file: %w'' [] err)
      | Inr providers \<Rightarrow> provider_loop providers provider)"

definition fetchClassification :: "LandscapeKubernetesSource \<Rightarrow> string \<Rightarrow> ExpirableVersion list outcome" where
  "fetchClassification s tag =
     (if lk_provider s = [] then Fail (Errorf ''provider must be set'' [])
      else bindO (wrapO ''fetching kubernetes versions blob: %w'' [] (fetchKubernetesVersionsBlob s tag))
             (\<lambda>raw. parseProviderVersions (lk_ociRepo s) raw (lk_provider s)))"

definition resolve_tag :: "'v semver \<Rightarrow> LandscapeKubernetesSource \<Rightarrow> string option \<Rightarrow> string outcome" where
  "resolve_tag L s gardenerVersion =
     (case gardenerVersion of
        None \<Rightarrow> wrapO ''resolving latest OCI tag: %w'' [] (LatestTag L s)
      | Some v \<Rightarrow> wrapO ''resolving OCI tag for Gardener %s: %w'' [FStr v] (TagForGardenerVersion L s v))"

definition landscape_FetchVersions :: "'v semver \<Rightarrow> LandscapeKubernetesSource \<Rightarrow> FetchVersions" where
  "landscape_FetchVersions L s gardenerVersion =
     bindO (resolve_tag L s gardenerVersion) (\<lambda>tag.
     bindO (wrapO ''fetching supported versions: %w'' [] (fetchSupportedVersions s tag)) (\<lambda>supportedVersions.
     bindO (wrapO ''fetching classification: %w'' [] (fetchClassification s tag)) (\<lambda>classification.
     let supported = set supportedVersions in
     Ok (filter (\<lambda>v. ev_Version v \<in> supported) classification))))"

subsection \<open>What the parts compute\<close>

lemma set_parse_tags: "(t, v) \<in> set (parse_tags L ts) \<longleftrightarrow> t \<in> set ts \<and> sv_ParseTolerant L t = Inr v"
  by (induction L ts rule: parse_tags.induct) (auto split: sum.split)

lemma tag_cmp_comparator: "semver_order L \<Longrightarrow> comparator (tag_cmp L)"
  unfolding semver_order_def comparator_def tag_cmp_def by blast

text \<open>One tag is at least as high as another one.\<close>

definition tag_ge :: "'v semver \<Rightarrow> string \<Rightarrow> string \<Rightarrow> bool" where
  "tag_ge L t u \<longleftrightarrow>
     (\<exists>v w. sv_ParseTolerant L t = Inr v \<and> sv_ParseTolerant L u = Inr w \<and> sv_Compare L w v \<le> 0)"

lemma tag_ge_refl: "semver_order L \<Longrightarrow> sv_parsable L t \<Longrightarrow> tag_ge L t t"
  using comparator.cmp_refl unfolding semver_order_def sv_parsable_def tag_ge_def by fastforce

definition all_tags :: "LandscapeKubernetesSource \<Rightarrow> string list" where
  "all_tags s = concat (fst (lr_Tags (lk_ociRepo s)))"

lemma listSemverTags_Ok:
  assumes "semver_order L" "listSemverTags L s = Ok ts"
  shows "ts \<noteq> [] \<and> (\<forall>t. t \<in> set ts \<longleftrightarrow> t \<in> set (all_tags s) \<and> sv_parsable L t) \<and> sorted_wrt (tag_ge L) ts"
proof -
  obtain pages where "lr_Tags (lk_ociRepo s) = (pages, None)"
    using assms(2) by (auto simp: listSemverTags_def split: prod.splits option.splits)
  then have a: "all_tags s = concat pages" and p: "parse_tags L (concat pages) \<noteq> []"
    and ts: "ts = map fst (SortFunc (tag_cmp L) (parse_tags L (concat pages)))"
    using assms(2) by (auto simp: listSemverTags_def all_tags_def Let_def split: if_splits)
  let ?ps = "SortFunc (tag_cmp L) (parse_tags L (concat pages))"
  have "sorted_by (tag_cmp L) ?ps"
    by (rule comparator.SortFunc_sorted [OF tag_cmp_comparator [OF assms(1)]])
  then have "sorted_wrt (\<lambda>a b. tag_ge L (fst a) (fst b)) ?ps"
  proof (rule sorted_wrt_mono_rel [rotated])
    fix a b assume ab: "a \<in> set ?ps" "b \<in> set ?ps" "tag_cmp L a b \<le> 0"
    then show "tag_ge L (fst a) (fst b)"
      using set_parse_tags [of "fst a" "snd a" L "concat pages"] set_parse_tags [of "fst b" "snd b" L "concat pages"]
      by (auto simp: tag_ge_def tag_cmp_def)
  qed
  then have "sorted_wrt (tag_ge L) ts" unfolding ts by (simp add: sorted_wrt_map)
  moreover have "t \<in> set ts \<longleftrightarrow> t \<in> set (all_tags s) \<and> sv_parsable L t" for t
    unfolding ts a sv_parsable_def using set_parse_tags [of t _ L "concat pages"] by (force simp: image_iff)
  ultimately show ?thesis using p ts by simp
qed

lemma listSemverTags_no_panic: "listSemverTags L s \<noteq> Panic"
  by (auto simp: listSemverTags_def Let_def split: prod.split option.split)

lemma extract_loop_no_panic: "extract_loop R entries e \<noteq> Panic"
  by (induction R entries e rule: extract_loop.induct) (auto split: sum.split)

lemma fetchComponentDescriptor_no_panic: "fetchComponentDescriptor s tag \<noteq> Panic"
  by (auto simp: fetchComponentDescriptor_def extractComponentDescriptor_def Let_def outcome_simps
      extract_loop_no_panic split: sum.split list.split prod.split)

definition matching :: "LandscapeKubernetesSource \<Rightarrow> string \<Rightarrow> string \<Rightarrow> bool" where
  "matching s minor t \<longleftrightarrow>
     (\<exists>cd v. fetchComponentDescriptor s t = Ok cd \<and> gardenerVersionFromCD cd = Some v \<and> minorVersion v = minor)"

lemma first_matching_eq: "first_matching s minor ts = find (matching s minor) ts"
proof (induction ts)
  case (Cons t ts)
  have "fetchComponentDescriptor s t \<noteq> Panic" by (rule fetchComponentDescriptor_no_panic)
  with Cons show ?case by (auto simp: matching_def split: outcome.split option.split)
qed simp

lemma listSemverTags_nonempty: "listSemverTags L s = Ok ts \<Longrightarrow> ts \<noteq> []"
  by (auto simp: listSemverTags_def Let_def split: prod.splits option.splits if_splits)

lemma LatestTag_no_panic: "LatestTag L s \<noteq> Panic"
proof (cases "listSemverTags L s")
  case (Ok ts)
  then obtain t ts' where "ts = t # ts'" using listSemverTags_nonempty by (cases ts) auto
  with Ok show ?thesis by (simp add: LatestTag_def)
qed (use listSemverTags_no_panic [of L s] in \<open>auto simp: LatestTag_def\<close>)

lemma TagForGardenerVersion_no_panic: "TagForGardenerVersion L s v \<noteq> Panic"
  using listSemverTags_no_panic by (auto simp: TagForGardenerVersion_def Let_def outcome_simps split: option.splits)

lemma blob_loop_no_panic: "blob_loop R tag rs \<noteq> Panic"
  by (induction R tag rs rule: blob_loop.induct) (auto simp: read_blob_def Let_def split: sum.split)

lemma provider_loop_no_panic: "provider_loop ps provider \<noteq> Panic"
  by (induction ps provider rule: provider_loop.induct) auto

lemma fetchClassification_no_panic: "fetchClassification s tag \<noteq> Panic"
  using fetchComponentDescriptor_no_panic blob_loop_no_panic provider_loop_no_panic
  by (auto simp: fetchClassification_def fetchKubernetesVersionsBlob_def parseProviderVersions_def
      outcome_simps split: sum.splits)

lemma fetchSupportedVersions_no_panic: "fetchSupportedVersions s tag \<noteq> Panic"
  using fetchComponentDescriptor_no_panic by (auto simp: fetchSupportedVersions_def outcome_simps)

lemma landscape_no_panic: "landscape_FetchVersions L s gv \<noteq> Panic"
proof -
  have "resolve_tag L s gv \<noteq> Panic"
    using LatestTag_no_panic [of L s] TagForGardenerVersion_no_panic [of L s]
    by (auto simp: resolve_tag_def outcome_simps split: option.splits)
  then show ?thesis
    using fetchClassification_no_panic fetchSupportedVersions_no_panic
    by (auto simp: landscape_FetchVersions_def outcome_simps Let_def)
qed

text \<open>A version that the provider publishes at a tag and that the component there ships.\<close>

definition published_at :: "LandscapeKubernetesSource \<Rightarrow> string \<Rightarrow> ExpirableVersion \<Rightarrow> bool" where
  "published_at s tag v \<longleftrightarrow>
     (\<exists>cd cs. fetchComponentDescriptor s tag = Ok cd \<and> fetchClassification s tag = Ok cs \<and> v \<in> set cs \<and>
        (\<exists>res\<in>set (cd_Resources cd). re_Name res = kubeAPIServerResourceName \<and> re_Version res = ev_Version v))"

definition landscape_published :: "'v semver \<Rightarrow> LandscapeKubernetesSource \<Rightarrow> string option \<Rightarrow> ExpirableVersion \<Rightarrow> bool" where
  "landscape_published L s gv v \<longleftrightarrow> (\<exists>tag. resolve_tag L s gv = Ok tag \<and> published_at s tag v)"

lemma fetchSupportedVersions_Ok:
  "fetchSupportedVersions s tag = Ok vs \<longleftrightarrow>
     (\<exists>cd. fetchComponentDescriptor s tag = Ok cd \<and>
        vs = map re_Version (filter (\<lambda>res. re_Name res = kubeAPIServerResourceName) (cd_Resources cd)))"
  by (auto simp: fetchSupportedVersions_def outcome_simps)

lemma landscape_Ok:
  assumes "landscape_FetchVersions L s gv = Ok vs"
  shows "\<exists>tag cs. resolve_tag L s gv = Ok tag \<and> fetchClassification s tag = Ok cs \<and>
    vs = filter (published_at s tag) cs"
proof -
  obtain tag sup cs where t: "resolve_tag L s gv = Ok tag" "fetchSupportedVersions s tag = Ok sup"
    "fetchClassification s tag = Ok cs" "vs = filter (\<lambda>v. ev_Version v \<in> set sup) cs"
    using assms by (auto simp: landscape_FetchVersions_def outcome_simps Let_def)
  then obtain cd where cd: "fetchComponentDescriptor s tag = Ok cd"
    "sup = map re_Version (filter (\<lambda>res. re_Name res = kubeAPIServerResourceName) (cd_Resources cd))"
    by (auto simp: fetchSupportedVersions_Ok)
  have "vs = filter (published_at s tag) cs"
    unfolding t(4) by (rule filter_cong) (use t(3) cd in \<open>auto simp: published_at_def image_iff\<close>)
  with t show ?thesis by blast
qed

interpretation landscape: kubernetes_source "landscape_FetchVersions L s" "landscape_published L s" for L s
proof unfold_locales
  show "landscape_FetchVersions L s gv \<noteq> Panic" for gv by (rule landscape_no_panic)
  show "landscape_published L s gv v"
    if "landscape_FetchVersions L s gv = Ok vs" "v \<in> set vs" for gv vs v
    using landscape_Ok [OF that(1)] that(2) by (auto simp: landscape_published_def)
qed

subsection \<open>Properties\<close>

text \<open>Without a Gardener version the source uses the latest tag: the one it returns is listed, is a
  semantic version, and no listed semantic version is higher.\<close>

lemma landscape_latest_tag:
  assumes "semver_order L" "LatestTag L s = Ok t"
  shows "t \<in> set (all_tags s) \<and> (\<forall>u\<in>set (all_tags s). sv_parsable L u \<longrightarrow> tag_ge L t u)"
proof -
  obtain ts0 where ts0: "listSemverTags L s = Ok ts0"
    using assms(2) by (auto simp: LatestTag_def outcome_simps)
  then obtain ts where ts: "listSemverTags L s = Ok (t # ts)"
    using assms(2) by (cases ts0) (auto simp: LatestTag_def)
  note l = listSemverTags_Ok [OF assms(1) ts]
  have "tag_ge L t u" if "u \<in> set (all_tags s)" "sv_parsable L u" for u
  proof -
    have "u \<in> set (t # ts)" using l that by blast
    moreover have "tag_ge L t t" using l tag_ge_refl [OF assms(1)] by auto
    moreover have "\<forall>u\<in>set ts. tag_ge L t u" using l by simp
    ultimately show ?thesis by auto
  qed
  then show ?thesis using l by auto
qed

text \<open>C36 landscape_gardener_tag. For a Gardener version the source uses the highest tag that fits: the tag it returns is listed, its
  component descriptor refers to a Gardener of the same minor version, and every other listed tag whose
  descriptor does is not higher.\<close>

theorem landscape_gardener_tag:
  assumes "semver_order L" "TagForGardenerVersion L s v = Ok t"
  shows "t \<in> set (all_tags s) \<and> matching s (minorVersion v) t \<and>
    (\<forall>u\<in>set (all_tags s). sv_parsable L u \<and> matching s (minorVersion v) u \<longrightarrow> tag_ge L t u)"
proof -
  obtain ts where ts: "listSemverTags L s = Ok ts" "find (matching s (minorVersion v)) ts = Some t"
    using assms(2) by (auto simp: TagForGardenerVersion_def Let_def outcome_simps first_matching_eq
        split: option.splits)
  note l = listSemverTags_Ok [OF assms(1) ts(1)]
  obtain i where i: "i < length ts" "matching s (minorVersion v) (ts ! i)" "t = ts ! i"
    "\<forall>j<i. \<not> matching s (minorVersion v) (ts ! j)" using ts(2) by (auto simp: find_Some_iff)
  then have t: "t \<in> set (all_tags s)" "sv_parsable L t" using l nth_mem by blast+
  have "tag_ge L t u" if u: "u \<in> set (all_tags s)" "sv_parsable L u" "matching s (minorVersion v) u" for u
  proof -
    obtain j where j: "j < length ts" "u = ts ! j" using l u(1,2) by (metis in_set_conv_nth)
    then have "i \<le> j" using i(4) u(3) by (meson leI)
    then consider "i = j" | "i < j" by linarith
    then show ?thesis
    proof cases
      case 1
      then show ?thesis using tag_ge_refl [OF assms(1) t(2)] i(3) j(2) by simp
    next
      case 2
      then show ?thesis using l j i(3) by (simp add: sorted_wrt_nth_less)
    qed
  qed
  with t i show ?thesis by auto
qed

text \<open>The Kubernetes versions a landscape source returns are, in the provider's order, exactly those of the
  provider's version file whose version the component at the same tag ships as a kube-apiserver; it never
  panics.\<close>

lemma landscape_versions:
  "landscape_FetchVersions L s gv \<noteq> Panic \<and>
   (\<forall>vs. landscape_FetchVersions L s gv = Ok vs \<longrightarrow>
     (\<exists>tag cs. resolve_tag L s gv = Ok tag \<and> fetchClassification s tag = Ok cs \<and>
        vs = filter (published_at s tag) cs))"
  using landscape_no_panic landscape_Ok by blast

text \<open>What an update of the Kubernetes versions from a landscape source writes: never an empty list, and only
  versions published for the profile's provider at the resolved tag that are not expired.\<close>

lemma landscape_update:
  assumes "k8s_Fetch (NewKubernetesVersionUpdater (landscape_FetchVersions L s) thr) gv = Ok vs"
    and "k8s_Apply (NewKubernetesVersionUpdater (landscape_FetchVersions L s) thr) now vs = Ok ws"
  shows "ws \<noteq> [] \<and> (\<forall>w\<in>set ws. landscape_published L s gv w \<and> \<not> expired (time_Add now (- thr)) w)"
  by (rule landscape.update_published [OF assms])

text \<open>The minor version of a version with at least two dot-separated segments is its first two segments,
  whatever follows; two versions with the same first two segments have the same minor version.\<close>

lemma minorVersion_parts:
  assumes "CHR ''.'' \<notin> set a" "CHR ''.'' \<notin> set b" "rest = [] \<or> hd rest = CHR ''.''"
  shows "minorVersion (a @ ''.'' @ b @ rest) = a @ ''.'' @ b"
proof (cases rest)
  case Nil
  with assms show ?thesis
    by (simp add: minorVersion_def numeral_3_eq_3 str_Cut_None [THEN iffD2])
next
  case (Cons c r)
  with assms show ?thesis by (simp add: minorVersion_def numeral_3_eq_3)
qed

end
