(* ===== verification/ProviderContract.thy ===== *)
theory ProviderContract
  imports ImageUpdater
begin

section \<open>The contract of a machine image provider\<close>

text \<open>
  The interface \<^verbatim>\<open>ossync.Provider\<close>, on the decoded provider configuration: \<open>configure\<close> is the body of
  \<^verbatim>\<open>Configure\<close> between decoding and encoding (\<^const>\<open>None\<close> is a panic), for an image name. The laws: it never
  panics, it leaves the entries of every other image alone, it loses no version, and, on a
  well-formed configuration, which it keeps well-formed, it has an entry for every source image. The OpenStack and the IronCore provider are both proved to keep them.

  The JSON codec of the configuration (\<^verbatim>\<open>encoding/json\<close> over types of other repositories) is a pair of
  functions; the hypothesis that a theorem may make about it is that decoding undoes encoding.
\<close>

record 'c codec =
  unmarshal :: "RawExtension \<Rightarrow> goerror + 'c"
  marshal :: "'c \<Rightarrow> goerror + RawExtension"

definition codec_ok :: "'c codec \<Rightarrow> bool" where
  "codec_ok j \<longleftrightarrow> (\<forall>c. \<exists>raw. marshal j c = Inr raw \<and> unmarshal j raw = Inr c)"

text \<open>Decode or start from the zero value, work on the configuration, encode.\<close>

definition decode :: "'c codec \<Rightarrow> 'c \<Rightarrow> RawExtension option \<Rightarrow> goerror + 'c" where
  "decode j zero providerConfig =
     (case providerConfig of None \<Rightarrow> Inr zero | Some raw \<Rightarrow> unmarshal j raw)"

definition configure_raw ::
  "'c codec \<Rightarrow> 'c \<Rightarrow> ('c \<Rightarrow> SourceImage list \<Rightarrow> 'c option) \<Rightarrow> Configure" where
  "configure_raw j zero work providerConfig versions =
     (case decode j zero providerConfig of
        Inl err \<Rightarrow> Fail err
      | Inr cfg \<Rightarrow>
          (case work cfg versions of
             None \<Rightarrow> Panic
           | Some cfg' \<Rightarrow>
               (case marshal j cfg' of Inl err \<Rightarrow> Fail err | Inr raw \<Rightarrow> Ok (Some raw))))"

text \<open>The versions of the first image with a name.\<close>

definition versions_named :: "('i \<Rightarrow> string) \<Rightarrow> ('i \<Rightarrow> string list) \<Rightarrow> string \<Rightarrow> 'i list \<Rightarrow> string list" where
  "versions_named name_of versions_of n imgs =
     (case IndexFunc (\<lambda>i. name_of i = n) imgs of None \<Rightarrow> [] | Some i \<Rightarrow> versions_of (imgs ! i))"

locale image_provider =
  fixes wf :: "'c \<Rightarrow> bool"
    and configure :: "'c \<Rightarrow> SourceImage list \<Rightarrow> 'c option"
    and images :: "'c \<Rightarrow> 'i list"
    and name_of :: "'i \<Rightarrow> string"
    and versions_of :: "'i \<Rightarrow> string list"
    and name :: string
  assumes configure_total: "\<exists>c'. configure c srcs = Some c'"
    and configure_frame: "configure c srcs = Some c' \<Longrightarrow>
      filter (\<lambda>i. name_of i \<noteq> name) (images c') = filter (\<lambda>i. name_of i \<noteq> name) (images c)"
    and configure_keeps: "configure c srcs = Some c' \<Longrightarrow>
      set (versions_named name_of versions_of name (images c)) \<subseteq>
      set (versions_named name_of versions_of name (images c'))"
    and configure_wf: "wf c \<Longrightarrow> configure c srcs = Some c' \<Longrightarrow> wf c'"
    and configure_registers: "wf c \<Longrightarrow> configure c srcs = Some c' \<Longrightarrow> src \<in> set srcs \<Longrightarrow>
      si_Architectures src \<noteq> [] \<Longrightarrow>
      si_Version src \<in> set (versions_named name_of versions_of name (images c'))"
begin

lemma raw_no_panic: "configure_raw j zero configure pc srcs \<noteq> Panic"
proof (cases "decode j zero pc")
  case (Inr c)
  obtain c' where "configure c srcs = Some c'" using configure_total by blast
  with Inr show ?thesis by (simp add: configure_raw_def split: sum.split)
qed (simp add: configure_raw_def)

lemma raw_Ok:
  assumes "codec_ok j" "configure_raw j zero configure pc srcs = Ok pc'"
  shows "\<exists>c c'. decode j zero pc = Inr c \<and> configure c srcs = Some c' \<and> decode j zero pc' = Inr c'"
proof -
  obtain c where c: "decode j zero pc = Inr c"
    using assms(2) by (auto simp: configure_raw_def split: sum.splits)
  obtain c' where c': "configure c srcs = Some c'" using configure_total by blast
  obtain raw where "marshal j c' = Inr raw" "unmarshal j raw = Inr c'"
    using assms(1) unfolding codec_ok_def by blast
  with assms(2) c c' show ?thesis by (auto simp: configure_raw_def decode_def)
qed

text \<open>With a faithful codec, a configuration that decodes is always configured.\<close>

lemma raw_succeeds:
  assumes "codec_ok j" "decode j zero pc = Inr c"
  shows "\<exists>pc'. configure_raw j zero configure pc srcs = Ok pc'"
proof -
  obtain c' where "configure c srcs = Some c'" using configure_total by blast
  moreover obtain raw where "marshal j c' = Inr raw"
    using assms(1) unfolding codec_ok_def by blast
  ultimately show ?thesis using assms(2) by (simp add: configure_raw_def)
qed

text \<open>Every other image has the versions it had.\<close>

lemma versions_named_filter:
  "n \<noteq> name \<Longrightarrow>
   versions_named name_of versions_of n (filter (\<lambda>i. name_of i \<noteq> name) imgs) =
   versions_named name_of versions_of n imgs"
  by (induction imgs) (auto simp: versions_named_def split: option.splits)

lemma other_images:
  assumes "configure c srcs = Some c'" "n \<noteq> name"
  shows "versions_named name_of versions_of n (images c') =
    versions_named name_of versions_of n (images c)"
  using configure_frame [OF assms(1)] versions_named_filter [OF assms(2)] by metis

text \<open>A second update of the same image keeps what the first one registered.\<close>

lemma registers_later:
  assumes "wf c" "configure c srcs = Some c1" "configure c1 srcs' = Some c2"
    and "src \<in> set srcs" "si_Architectures src \<noteq> []"
  shows "si_Version src \<in> set (versions_named name_of versions_of name (images c2))"
  using configure_registers [OF assms(1,2,4,5)] configure_keeps [OF assms(3)] by blast

text \<open>At the raw level: a successful Configure registers every source image.\<close>

lemma raw_registers:
  assumes "codec_ok j" "decode j zero pc = Inr c" "wf c" "configure_raw j zero configure pc srcs = Ok pc'"
  shows "\<exists>c'. decode j zero pc' = Inr c' \<and> wf c' \<and>
    (\<forall>src\<in>set srcs. si_Architectures src \<noteq> [] \<longrightarrow>
      si_Version src \<in> set (versions_named name_of versions_of name (images c')))"
proof -
  from raw_Ok [OF assms(1,4)] assms(2) obtain c' where
    c': "configure c srcs = Some c'" "decode j zero pc' = Inr c'" by auto
  with configure_wf [OF assms(3) c'(1)] configure_registers [OF assms(3) c'(1)] show ?thesis by blast
qed

end

text \<open>
  Replacing an element by one with the same name, or appending one, as both providers do. The lemmas
  discharge the frame law.
\<close>

lemma filter_update_named:
  "i < length xs \<Longrightarrow> \<not> P (xs ! i) \<Longrightarrow> \<not> P y \<Longrightarrow> filter P (xs[i := y]) = filter P xs"
proof (induction xs arbitrary: i)
  case (Cons x xs)
  then show ?case by (cases i) auto
qed simp

definition locate_named ::
  "('i \<Rightarrow> string) \<Rightarrow> string \<Rightarrow> 'i \<Rightarrow> 'i list \<Rightarrow> 'i list \<times> nat" where
  "locate_named name_of n new imgs =
     (case IndexFunc (\<lambda>i. name_of i = n) imgs of
        Some i \<Rightarrow> (imgs, i) | None \<Rightarrow> (imgs @ [new], length imgs))"

lemma locate_named_index:
  assumes "locate_named name_of n new imgs = (ms, i)" "name_of new = n"
  shows "i < length ms" "name_of (ms ! i) = n" "IndexFunc (\<lambda>i. name_of i = n) ms = Some i"
    "filter (\<lambda>i. name_of i \<noteq> n) ms = filter (\<lambda>i. name_of i \<noteq> n) imgs"
  using assms
  by (auto simp: locate_named_def IndexFunc_append split: option.splits dest: IndexFunc_Some)

lemma locate_named_versions:
  assumes "locate_named name_of n new imgs = (ms, i)" "name_of new = n" "versions_of new = []"
  shows "versions_named name_of versions_of n imgs = versions_of (ms ! i)"
  using assms by (auto simp: locate_named_def versions_named_def split: option.splits)

lemma IndexFunc_list_update:
  "IndexFunc P xs = Some i \<Longrightarrow> P y \<Longrightarrow> IndexFunc P (xs[i := y]) = Some i"
proof (induction xs arbitrary: i)
  case (Cons x xs)
  then show ?case by (cases i) (auto split: if_splits)
qed simp

lemma update_named:
  assumes "locate_named name_of n new imgs = (ms, i)" "name_of new = n" "name_of y = n"
  shows "filter (\<lambda>i. name_of i \<noteq> n) (ms[i := y]) = filter (\<lambda>i. name_of i \<noteq> n) imgs"
    "versions_named name_of versions_of n (ms[i := y]) = versions_of y"
proof -
  note l = locate_named_index [OF assms(1,2)]
  show "filter (\<lambda>i. name_of i \<noteq> n) (ms[i := y]) = filter (\<lambda>i. name_of i \<noteq> n) imgs"
    using filter_update_named [OF l(1), of "\<lambda>i. name_of i \<noteq> n" y] l(2,4) assms(3) by simp
  show "versions_named name_of versions_of n (ms[i := y]) = versions_of y"
    using IndexFunc_list_update [OF l(3), of y] assms(3) l(1) by (simp add: versions_named_def)
qed

end
