(* ===== verification/OpenStackProvider.thy ===== *)
theory OpenStackProvider
  imports ProviderContract
begin

section \<open>The OpenStack provider\<close>

text \<open>
  Models \<^verbatim>\<open>cloudprofilesync/ossync/provider/openstack/provider.go\<close>. Of the extension's configuration
  type the records hold the fields the code reads or writes; everything else is \<open>opaque\<close>.
\<close>

record RegionIDMapping =
  rm_Name :: string
  rm_ID :: string
  rm_other :: opaque

record OSImageFlavor =
  of_Capabilities :: Capabilities
  of_Regions :: "RegionIDMapping list"
  of_other :: opaque

record OSImageVersion =
  ov_Version :: string
  ov_Regions :: "RegionIDMapping list"
  ov_CapabilityFlavors :: "OSImageFlavor list"
  ov_other :: opaque

record OSImages =
  oi_Name :: string
  oi_Versions :: "OSImageVersion list"
  oi_other :: opaque

record OSConfig =
  oc_MachineImages :: "OSImages list"
  oc_other :: opaque

record OpenStackProvider =
  op_ImageName :: string
  op_EnableCapabilities :: bool

definition zero_OSConfig :: OSConfig where
  "zero_OSConfig = \<lparr>oc_MachineImages = [], oc_other = []\<rparr>"

subsection \<open>Regions\<close>

fun upsertRegion :: "RegionIDMapping list \<Rightarrow> string \<Rightarrow> string \<Rightarrow> RegionIDMapping list" where
  "upsertRegion [] name rid = [\<lparr>rm_Name = name, rm_ID = rid, rm_other = []\<rparr>]"
| "upsertRegion (r # regions) name rid =
     (if rm_Name r = name then r\<lparr>rm_ID := rid\<rparr> # regions else r # upsertRegion regions name rid)"

definition region_cmp :: "RegionIDMapping \<Rightarrow> RegionIDMapping \<Rightarrow> int" where
  "region_cmp a b =
     (let c = cmp_Compare (rm_Name a) (rm_Name b) in
      if c \<noteq> 0 then c else cmp_Compare (rm_ID a) (rm_ID b))"

definition sortRegions :: "RegionIDMapping list \<Rightarrow> RegionIDMapping list" where
  "sortRegions regions = SortFunc region_cmp regions"

fun upsertRegions :: "RegionIDMapping list \<Rightarrow> RegionImage list \<Rightarrow> RegionIDMapping list" where
  "upsertRegions regions [] = regions"
| "upsertRegions regions (r # rs) = upsertRegions (upsertRegion regions (ri_Region r) (ri_ID r)) rs"

subsection \<open>Configure\<close>

text \<open>What the body of the loop does to the entry of the image's version.\<close>

definition configure_entry :: "OpenStackProvider \<Rightarrow> SourceImage \<Rightarrow> OSImageVersion \<Rightarrow> OSImageVersion" where
  "configure_entry p src entry =
     (if op_EnableCapabilities p \<and> si_Capabilities src \<noteq> None then
        (let entry = entry\<lparr>ov_Regions := []\<rparr>;
             flavors = ov_CapabilityFlavors entry;
             (flavors, flavorIdx) =
               (case IndexFunc (\<lambda>f. CapabilitiesEqual (of_Capabilities f) (si_Capabilities src)) flavors of
                  Some i \<Rightarrow> (flavors, i)
                | None \<Rightarrow>
                    (flavors @ [\<lparr>of_Capabilities = si_Capabilities src, of_Regions = [], of_other = []\<rparr>],
                     length flavors));
             flavor = flavors ! flavorIdx
         in entry\<lparr>ov_CapabilityFlavors :=
              flavors[flavorIdx := flavor\<lparr>of_Regions :=
                sortRegions (upsertRegions (of_Regions flavor) (si_Regions src))\<rparr>]\<rparr>)
      else entry\<lparr>ov_Regions := sortRegions (upsertRegions (ov_Regions entry) (si_Regions src))\<rparr>)"

definition openstack_step ::
  "OpenStackProvider \<Rightarrow> OSImageVersion list \<times> (string, nat) gomap \<Rightarrow> SourceImage
   \<Rightarrow> (OSImageVersion list \<times> (string, nat) gomap) option" where
  "openstack_step p st src =
     (case st of (versions, existingVersions) \<Rightarrow>
       (let (versions, existingVersions, idx) =
              (case map_of existingVersions (si_Version src) of
                 Some idx \<Rightarrow> (versions, existingVersions, idx)
               | None \<Rightarrow>
                   (versions @ [\<lparr>ov_Version = si_Version src, ov_Regions = [],
                                 ov_CapabilityFlavors = [], ov_other = []\<rparr>],
                    map_put (si_Version src) (length versions) existingVersions, length versions))
        in map_option (\<lambda>vs. (vs, existingVersions)) (modify_at idx (configure_entry p src) versions)))"

definition openstack_cfg :: "OpenStackProvider \<Rightarrow> OSConfig \<Rightarrow> SourceImage list \<Rightarrow> OSConfig option" where
  "openstack_cfg p cfg srcs =
     (let (imgs, imageIndex) =
            locate_named oi_Name (op_ImageName p)
              \<lparr>oi_Name = op_ImageName p, oi_Versions = [], oi_other = []\<rparr> (oc_MachineImages cfg);
          image = imgs ! imageIndex
      in case fold_opt (openstack_step p)
                (oi_Versions image, index_by ov_Version (oi_Versions image)) srcs of
           None \<Rightarrow> None
         | Some (versions, _) \<Rightarrow>
             Some (cfg\<lparr>oc_MachineImages := imgs[imageIndex := image\<lparr>oi_Versions := versions\<rparr>]\<rparr>))"

definition openstack_Configure :: "OSConfig codec \<Rightarrow> OpenStackProvider \<Rightarrow> Configure" where
  "openstack_Configure j p = configure_raw j zero_OSConfig (openstack_cfg p)"

subsection \<open>Regions: lookup after update, order\<close>

lemma region_cmp_key2: "region_cmp = compare_key2 rm_Name rm_ID"
  by (intro ext) (simp add: region_cmp_def compare_key2_def)

interpretation region_cmp: comparator region_cmp
  unfolding region_cmp_key2 by (rule comparator_key2)

definition region_id :: "RegionIDMapping list \<Rightarrow> string \<Rightarrow> string option" where
  "region_id rs n = map_option rm_ID (entry_of rm_Name rs n)"

abbreviation regions_distinct :: "RegionIDMapping list \<Rightarrow> bool" where
  "regions_distinct rs \<equiv> distinct (map rm_Name rs)"

lemma region_id_upsert: "region_id (upsertRegion rs n i) = (region_id rs)(n \<mapsto> i)"
  by (induction rs n i rule: upsertRegion.induct) (auto simp: region_id_def fun_eq_iff)

lemma upsertRegion_names:
  "rm_Name ` set (upsertRegion rs n i) = insert n (rm_Name ` set rs)"
  by (induction rs n i rule: upsertRegion.induct) auto

lemma upsertRegion_distinct: "regions_distinct rs \<Longrightarrow> regions_distinct (upsertRegion rs n i)"
proof (induction rs n i rule: upsertRegion.induct)
  case (2 r regions name rid)
  then show ?case
    using upsertRegion_names [of regions name rid] by (cases "rm_Name r = name") auto
qed simp

lemma upsertRegions_distinct: "regions_distinct rs \<Longrightarrow> regions_distinct (upsertRegions rs us)"
  by (induction rs us rule: upsertRegions.induct) (simp_all add: upsertRegion_distinct)

lemma region_id_upserts:
  "region_id (upsertRegions rs us) n =
     (case map_of (rev (map (\<lambda>r. (ri_Region r, ri_ID r)) us)) n of
        Some i \<Rightarrow> Some i | None \<Rightarrow> region_id rs n)"
  by (induction rs us rule: upsertRegions.induct)
    (auto simp: region_id_upsert map_add_def split: option.split)

lemma region_id_sort: "regions_distinct rs \<Longrightarrow> region_id (sortRegions rs) n = region_id rs n"
  using entry_of_perm [of rs "sortRegions rs" rm_Name n]
  by (simp add: region_id_def sortRegions_def)

lemma sortRegions_distinct: "regions_distinct rs \<Longrightarrow> regions_distinct (sortRegions rs)"
  by (metis mset_SortFunc mset_eq_imp_distinct_iff mset_map sortRegions_def)

lemma sortRegions_sorted: "sorted_by region_cmp (sortRegions rs)"
  unfolding sortRegions_def by (rule region_cmp.SortFunc_sorted)

subsection \<open>The loop keeps its index in range\<close>

lemma configure_entry_version [simp]: "ov_Version (configure_entry p src e) = ov_Version e"
  by (simp add: configure_entry_def Let_def split: option.split)

lemma openstack_step_ok:
  assumes ok: "index_ok ov_Version vs m"
  shows "\<exists>vs' m'. openstack_step p (vs, m) src = Some (vs', m') \<and> index_ok ov_Version vs' m' \<and>
    insert (si_Version src) (ov_Version ` set vs) = ov_Version ` set vs' \<and>
    (\<forall>e'\<in>set vs'. e' \<in> set vs \<or> (\<exists>e. (e \<in> set vs \<or>
       e = \<lparr>ov_Version = si_Version src, ov_Regions = [], ov_CapabilityFlavors = [], ov_other = []\<rparr>) \<and>
       ov_Version e = si_Version src \<and> e' = configure_entry p src e))"
proof -
  let ?new = "\<lparr>ov_Version = si_Version src, ov_Regions = [], ov_CapabilityFlavors = [], ov_other = []\<rparr>"
  define v1 where "v1 = (case map_of m (si_Version src) of Some i \<Rightarrow> vs | None \<Rightarrow> vs @ [?new])"
  define m1 where "m1 = (case map_of m (si_Version src) of Some i \<Rightarrow> m
    | None \<Rightarrow> map_put (si_Version src) (length vs) m)"
  define i1 where "i1 = (case map_of m (si_Version src) of Some i \<Rightarrow> i | None \<Rightarrow> length vs)"
  let ?vs' = "v1[i1 := configure_entry p src (v1 ! i1)]"
  have i1: "i1 < length v1" "ov_Version (v1 ! i1) = si_Version src"
    using index_okD [OF ok] by (auto simp: i1_def v1_def split: option.split)
  have ok1: "index_ok ov_Version v1 m1"
    using ok index_ok_snoc [OF ok, of ?new] by (auto simp: v1_def m1_def split: option.split)
  have step: "openstack_step p (vs, m) src = Some (?vs', m1)"
    using i1(1) by (auto simp: openstack_step_def v1_def m1_def i1_def modify_at_def split: option.splits)
  have names: "ov_Version ` set ?vs' = ov_Version ` set v1"
    using i1(1) by (metis configure_entry_version list.set_map list_update_id map_update nth_map)
  have v1: "set v1 \<subseteq> insert ?new (set vs)" "set vs \<subseteq> set v1"
    by (auto simp: v1_def split: option.split)
  moreover have "v1 ! i1 \<in> set v1" using i1(1) by simp
  ultimately have "ov_Version ` set v1 = insert (si_Version src) (ov_Version ` set vs)"
    using i1(2) by auto (metis image_eqI)
  with names have n: "insert (si_Version src) (ov_Version ` set vs) = ov_Version ` set ?vs'" by simp
  have "\<forall>e'\<in>set ?vs'. e' \<in> set vs \<or> (\<exists>e. (e \<in> set vs \<or> e = ?new) \<and>
      ov_Version e = si_Version src \<and> e' = configure_entry p src e)"
  proof
    fix e' assume "e' \<in> set ?vs'"
    then obtain j where j: "j < length v1" "e' = ?vs' ! j" by (auto simp: in_set_conv_nth)
    show "e' \<in> set vs \<or> (\<exists>e. (e \<in> set vs \<or> e = ?new) \<and>
        ov_Version e = si_Version src \<and> e' = configure_entry p src e)"
    proof (cases "j = i1")
      case True
      then have "e' = configure_entry p src (v1 ! i1)" using j i1(1) by simp
      then show ?thesis using i1 v1(1) nth_mem [OF i1(1)] by blast
    next
      case False
      then have e': "e' = v1 ! j" using j by simp
      have "v1 ! j \<in> set vs"
        using j(1) False by (auto simp: v1_def i1_def nth_append split: option.splits)
      with e' show ?thesis by simp
    qed
  qed
  with step n show ?thesis using index_ok_update [OF ok1 i1(1)] by (metis configure_entry_version)
qed

lemma openstack_loop_ok:
  "index_ok ov_Version vs m \<Longrightarrow>
   \<exists>vs' m'. fold_opt (openstack_step p) (vs, m) srcs = Some (vs', m') \<and> index_ok ov_Version vs' m' \<and>
     ov_Version ` set vs' = ov_Version ` set vs \<union> si_Version ` set srcs"
proof (induction srcs arbitrary: vs m)
  case (Cons src srcs)
  from openstack_step_ok [OF Cons.prems, of p src] obtain vs1 m1 where
    1: "openstack_step p (vs, m) src = Some (vs1, m1)" "index_ok ov_Version vs1 m1"
      "insert (si_Version src) (ov_Version ` set vs) = ov_Version ` set vs1" by blast
  from Cons.IH [OF 1(2)] 1(1) show ?case by (simp flip: 1(3))
qed simp

lemma openstack_cfg_Some:
  "\<exists>c' imgs i versions.
     openstack_cfg p c srcs = Some c' \<and>
     locate_named oi_Name (op_ImageName p)
       \<lparr>oi_Name = op_ImageName p, oi_Versions = [], oi_other = []\<rparr> (oc_MachineImages c) = (imgs, i) \<and>
     oc_MachineImages c' = imgs[i := (imgs ! i)\<lparr>oi_Versions := versions\<rparr>] \<and>
     oc_other c' = oc_other c \<and>
     ov_Version ` set versions = ov_Version ` set (oi_Versions (imgs ! i)) \<union> si_Version ` set srcs"
proof -
  obtain imgs i where l: "locate_named oi_Name (op_ImageName p)
    \<lparr>oi_Name = op_ImageName p, oi_Versions = [], oi_other = []\<rparr> (oc_MachineImages c) = (imgs, i)"
    by fastforce
  from openstack_loop_ok [OF index_by_ok, of p "oi_Versions (imgs ! i)" srcs]
  obtain vs m where "fold_opt (openstack_step p)
      (oi_Versions (imgs ! i), index_by ov_Version (oi_Versions (imgs ! i))) srcs = Some (vs, m)"
    "ov_Version ` set vs = ov_Version ` set (oi_Versions (imgs ! i)) \<union> si_Version ` set srcs" by blast
  with l show ?thesis by (simp add: openstack_cfg_def) blast
qed

interpretation openstack: image_provider "\<lambda>_. True" "openstack_cfg p" oc_MachineImages oi_Name
  "\<lambda>i. map ov_Version (oi_Versions i)" "op_ImageName p" for p
proof unfold_locales
  let ?new = "\<lparr>oi_Name = op_ImageName p, oi_Versions = [], oi_other = []\<rparr>"
  let ?vers = "\<lambda>i. map ov_Version (oi_Versions i)"
  let ?named = "versions_named oi_Name ?vers (op_ImageName p)"
  fix c c' srcs
  show "\<exists>c'. openstack_cfg p c srcs = Some c'" using openstack_cfg_Some by blast
  show True ..
  assume C: "openstack_cfg p c srcs = Some c'"
  from openstack_cfg_Some [of p c srcs] C obtain imgs i versions where
    l: "locate_named oi_Name (op_ImageName p) ?new (oc_MachineImages c) = (imgs, i)"
    and c': "oc_MachineImages c' = imgs[i := (imgs ! i)\<lparr>oi_Versions := versions\<rparr>]"
    and v: "ov_Version ` set versions = ov_Version ` set (oi_Versions (imgs ! i)) \<union> si_Version ` set srcs"
    by auto
  note idx = locate_named_index [OF l]
  note u = update_named [OF l, of "(imgs ! i)\<lparr>oi_Versions := versions\<rparr>"]
  show "filter (\<lambda>i. oi_Name i \<noteq> op_ImageName p) (oc_MachineImages c') =
      filter (\<lambda>i. oi_Name i \<noteq> op_ImageName p) (oc_MachineImages c)"
    unfolding c' using u(1) idx(2) by simp
  have named: "?named (oc_MachineImages c') = map ov_Version versions"
    unfolding c' using u(2) idx(2) by simp
  have "?named (oc_MachineImages c) = ?vers (imgs ! i)"
    using locate_named_versions [OF l, of ?vers] by simp
  then show "set (?named (oc_MachineImages c)) \<subseteq> set (?named (oc_MachineImages c'))"
    unfolding named using v by auto
  show "si_Version src \<in> set (?named (oc_MachineImages c'))" if "src \<in> set srcs" for src
    unfolding named using v that by auto
qed

lemma openstack_registers_all:
  assumes "openstack_cfg p c srcs = Some c'"
  shows "\<forall>src\<in>set srcs. si_Version src \<in> set (versions_named oi_Name
    (\<lambda>i. map ov_Version (oi_Versions i)) (op_ImageName p) (oc_MachineImages c'))"
proof -
  from openstack_cfg_Some [of p c srcs] assms obtain imgs i versions where
    l: "locate_named oi_Name (op_ImageName p)
      \<lparr>oi_Name = op_ImageName p, oi_Versions = [], oi_other = []\<rparr> (oc_MachineImages c) = (imgs, i)"
    and c': "oc_MachineImages c' = imgs[i := (imgs ! i)\<lparr>oi_Versions := versions\<rparr>]"
    and v: "ov_Version ` set versions = ov_Version ` set (oi_Versions (imgs ! i)) \<union> si_Version ` set srcs"
    by auto
  have "versions_named oi_Name (\<lambda>i. map ov_Version (oi_Versions i)) (op_ImageName p)
      (oc_MachineImages c') = map ov_Version versions"
    unfolding c' using update_named(2) [OF l, of "(imgs ! i)\<lparr>oi_Versions := versions\<rparr>"]
      locate_named_index(2) [OF l] by simp
  with v show ?thesis by simp
qed

subsection \<open>Properties\<close>

text \<open>C28 openstack_Configure_total. Configure of the OpenStack provider never panics, and with a faithful codec it
  succeeds on every configuration that decodes (also on a missing one) and records every source image
  under the image name.\<close>

theorem openstack_Configure_total:
  assumes "codec_ok j" "decode j zero_OSConfig pc = Inr c"
  shows "\<exists>pc' c'. openstack_Configure j p pc srcs = Ok pc' \<and> decode j zero_OSConfig pc' = Inr c' \<and>
    openstack_cfg p c srcs = Some c' \<and>
    (\<forall>src\<in>set srcs. si_Version src \<in> set (versions_named oi_Name
       (\<lambda>i. map ov_Version (oi_Versions i)) (op_ImageName p) (oc_MachineImages c')))"
proof -
  obtain pc' where pc': "openstack_Configure j p pc srcs = Ok pc'"
    using openstack.raw_succeeds [OF assms] unfolding openstack_Configure_def by blast
  with openstack.raw_Ok [OF assms(1), of zero_OSConfig p pc srcs pc'] assms(2) obtain c' where
    c': "openstack_cfg p c srcs = Some c'" "decode j zero_OSConfig pc' = Inr c'"
    by (auto simp: openstack_Configure_def)
  with pc' openstack_registers_all [OF c'(1)] show ?thesis by blast
qed

text \<open>Configure of the OpenStack provider leaves the entries of every other image, and every
  field of the configuration besides the machine images, as they were.\<close>

lemma openstack_other_images:
  assumes "openstack_cfg p c srcs = Some c'"
  shows "filter (\<lambda>i. oi_Name i \<noteq> op_ImageName p) (oc_MachineImages c') =
      filter (\<lambda>i. oi_Name i \<noteq> op_ImageName p) (oc_MachineImages c) \<and> oc_other c' = oc_other c"
  using openstack.configure_frame [OF assms] openstack_cfg_Some [of p c srcs] assms by auto

subsubsection \<open>Regions and flavors exclude each other\<close>

definition entry_exclusive :: "OSImageVersion \<Rightarrow> bool" where
  "entry_exclusive e \<longleftrightarrow> ov_Regions e = [] \<or> ov_CapabilityFlavors e = []"

definition with_caps :: "OpenStackProvider \<Rightarrow> SourceImage \<Rightarrow> bool" where
  "with_caps p src \<longleftrightarrow> op_EnableCapabilities p \<and> si_Capabilities src \<noteq> None"

lemma configure_entry_caps:
  "with_caps p src \<Longrightarrow> ov_Regions (configure_entry p src e) = []"
  by (auto simp: configure_entry_def with_caps_def Let_def split: option.split)

lemma configure_entry_plain:
  "\<not> with_caps p src \<Longrightarrow>
   configure_entry p src e = e\<lparr>ov_Regions := sortRegions (upsertRegions (ov_Regions e) (si_Regions src))\<rparr>"
  by (auto simp: configure_entry_def with_caps_def)

text \<open>A predicate on entries that every step keeps holds of every entry afterwards.\<close>

lemma openstack_loop_all:
  assumes "index_ok ov_Version vs m" "fold_opt (openstack_step p) (vs, m) srcs = Some (vs', m')"
    and "\<forall>e\<in>set vs. Q e"
    and "\<And>src. src \<in> set srcs \<Longrightarrow> Q \<lparr>ov_Version = si_Version src, ov_Regions = [],
      ov_CapabilityFlavors = [], ov_other = []\<rparr>"
    and "\<And>src e. src \<in> set srcs \<Longrightarrow> Q e \<Longrightarrow> Q (configure_entry p src e)"
  shows "\<forall>e\<in>set vs'. Q e"
  using assms
proof (induction srcs arbitrary: vs m)
  case (Cons src srcs)
  from openstack_step_ok [OF Cons.prems(1), of p src] obtain vs1 m1 where
    1: "openstack_step p (vs, m) src = Some (vs1, m1)" "index_ok ov_Version vs1 m1"
    and e: "\<forall>e'\<in>set vs1. e' \<in> set vs \<or> (\<exists>e. (e \<in> set vs \<or>
       e = \<lparr>ov_Version = si_Version src, ov_Regions = [], ov_CapabilityFlavors = [], ov_other = []\<rparr>) \<and>
       ov_Version e = si_Version src \<and> e' = configure_entry p src e)" by blast
  have Q: "\<forall>e\<in>set vs1. Q e"
    using e Cons.prems(3) Cons.prems(4,5) [of src] by fastforce
  have f: "fold_opt (openstack_step p) (vs1, m1) srcs = Some (vs', m')"
    using Cons.prems(2) 1(1) by simp
  show ?case
    by (rule Cons.IH [OF 1(2) f Q]) (use Cons.prems(4,5) in simp_all)
qed simp

definition cfg_all :: "(OSImageVersion \<Rightarrow> bool) \<Rightarrow> OSConfig \<Rightarrow> bool" where
  "cfg_all Q c \<longleftrightarrow> (\<forall>i\<in>set (oc_MachineImages c). \<forall>e\<in>set (oi_Versions i). Q e)"

lemma openstack_cfg_all:
  assumes "openstack_cfg p c srcs = Some c'" "cfg_all Q c"
    and "\<And>src. src \<in> set srcs \<Longrightarrow> Q \<lparr>ov_Version = si_Version src, ov_Regions = [],
      ov_CapabilityFlavors = [], ov_other = []\<rparr>"
    and "\<And>src e. src \<in> set srcs \<Longrightarrow> Q e \<Longrightarrow> Q (configure_entry p src e)"
  shows "cfg_all Q c'"
proof -
  obtain imgs i where l: "locate_named oi_Name (op_ImageName p)
      \<lparr>oi_Name = op_ImageName p, oi_Versions = [], oi_other = []\<rparr> (oc_MachineImages c) = (imgs, i)"
    by fastforce
  then have all: "\<forall>j\<in>set imgs. \<forall>e\<in>set (oi_Versions j). Q e"
    using assms(2) by (auto simp: locate_named_def cfg_all_def split: option.splits)
  obtain vs m where f: "fold_opt (openstack_step p)
      (oi_Versions (imgs ! i), index_by ov_Version (oi_Versions (imgs ! i))) srcs = Some (vs, m)"
    using openstack_loop_ok [OF index_by_ok] by blast
  have "\<forall>e\<in>set (oi_Versions (imgs ! i)). Q e"
    using all nth_mem [OF locate_named_index(1) [OF l]] by simp
  from openstack_loop_all [OF index_by_ok f this assms(3,4)] have vs: "\<forall>e\<in>set vs. Q e" .
  have c': "oc_MachineImages c' = imgs[i := (imgs ! i)\<lparr>oi_Versions := vs\<rparr>]"
    using assms(1) l f by (auto simp: openstack_cfg_def)
  have "set (oc_MachineImages c') \<subseteq> insert ((imgs ! i)\<lparr>oi_Versions := vs\<rparr>) (set imgs)"
    unfolding c' by (rule set_update_subset_insert)
  then show ?thesis unfolding cfg_all_def using all vs by auto
qed


definition mixed_cfg :: OSConfig where
  "mixed_cfg = \<lparr>oc_MachineImages = [\<lparr>oi_Name = ''gardenlinux'', oi_Versions =
     [\<lparr>ov_Version = ''1.0.0'', ov_Regions = [], ov_CapabilityFlavors =
        [\<lparr>of_Capabilities = Some [(''architecture'', [''amd64''])], of_Regions = [], of_other = []\<rparr>],
       ov_other = []\<rparr>], oi_other = []\<rparr>], oc_other = []\<rparr>"

definition plain_source :: "string \<Rightarrow> RegionImage list \<Rightarrow> SourceImage" where
  "plain_source v regions =
     \<lparr>si_Version = v, si_CleanVersion = v, si_Architectures = [''amd64''], si_Capabilities = None,
      si_SupportInPlaceUpdate = False, si_Regions = regions, si_Classification = None,
      si_ExpirationDate = None\<rparr>"


subsubsection \<open>Regions are recorded\<close>

abbreviation new_entry :: "string \<Rightarrow> OSImageVersion" where
  "new_entry v \<equiv> \<lparr>ov_Version = v, ov_Regions = [], ov_CapabilityFlavors = [], ov_other = []\<rparr>"

abbreviation openstack_spec :: "OpenStackProvider \<Rightarrow> OSImageVersion list \<Rightarrow> SourceImage \<Rightarrow> OSImageVersion list" where
  "openstack_spec p vs src \<equiv>
     upsert_key ov_Version (si_Version src) (configure_entry p src)
       [configure_entry p src (new_entry (si_Version src))] vs"

lemma openstack_step_spec:
  assumes ok: "index_ok ov_Version vs m" and d: "distinct (map ov_Version vs)"
  shows "\<exists>m'. openstack_step p (vs, m) src = Some (openstack_spec p vs src, m') \<and>
    index_ok ov_Version (openstack_spec p vs src) m'"
proof (cases "map_of m (si_Version src)")
  case (Some i)
  have "si_Version src \<in> ov_Version ` set vs"
    using keys_ok_None [OF ok, of "si_Version src"] Some by auto
  moreover have "modify_at i (configure_entry p src) vs =
      Some (update_key ov_Version (si_Version src) (configure_entry p src) vs)"
    by (rule modify_at_update_key [OF ok d Some])
  ultimately show ?thesis using ok Some by (simp add: openstack_step_def upsert_key_def)
next
  case None
  then have "si_Version src \<notin> ov_Version ` set vs"
    using keys_ok_None [OF ok, of "si_Version src"] by auto
  moreover have "index_ok ov_Version (vs @ [configure_entry p src (new_entry (si_Version src))])
      (map_put (si_Version src) (length vs) m)"
    using index_ok_snoc [OF ok, of "configure_entry p src (new_entry (si_Version src))"] by simp
  ultimately show ?thesis using None
    by (simp add: openstack_step_def upsert_key_def modify_at_def list_update_append)
qed

lemma openstack_loop_spec:
  assumes "index_ok ov_Version vs m" "distinct (map ov_Version vs)"
  shows "\<exists>m'. fold_opt (openstack_step p) (vs, m) srcs = Some (foldl (openstack_spec p) vs srcs, m')"
  using assms
proof (induction srcs arbitrary: vs m)
  case (Cons src srcs)
  from openstack_step_spec [OF Cons.prems, of p src] obtain m' where
    "openstack_step p (vs, m) src = Some (openstack_spec p vs src, m')"
    "index_ok ov_Version (openstack_spec p vs src) m'" by blast
  moreover have "distinct (map ov_Version (openstack_spec p vs src))"
    by (rule upsert_key_distinct_one) (use Cons.prems in simp_all)
  ultimately show ?case using Cons.IH by simp
qed simp

text \<open>The entry of a version, in the first image with the provider's image name.\<close>

definition os_entry :: "OpenStackProvider \<Rightarrow> OSConfig \<Rightarrow> string \<Rightarrow> OSImageVersion option" where
  "os_entry p c v =
     (case IndexFunc (\<lambda>i. oi_Name i = op_ImageName p) (oc_MachineImages c) of
        None \<Rightarrow> None
      | Some i \<Rightarrow> entry_of ov_Version (oi_Versions (oc_MachineImages c ! i)) v)"

definition os_versions_distinct :: "OpenStackProvider \<Rightarrow> OSConfig \<Rightarrow> bool" where
  "os_versions_distinct p c \<longleftrightarrow>
     distinct (versions_named oi_Name (\<lambda>i. map ov_Version (oi_Versions i)) (op_ImageName p)
       (oc_MachineImages c))"

lemma os_entry_after:
  assumes C: "openstack_cfg p c (pre @ src # post) = Some c'" and d: "os_versions_distinct p c"
    and u: "\<forall>t\<in>set pre \<union> set post. si_Version t \<noteq> si_Version src"
  shows "os_entry p c' (si_Version src) =
    Some (configure_entry p src
      (case os_entry p c (si_Version src) of None \<Rightarrow> new_entry (si_Version src) | Some e \<Rightarrow> e))"
proof -
  let ?srcs = "pre @ src # post"
  obtain imgs i where l: "locate_named oi_Name (op_ImageName p)
      \<lparr>oi_Name = op_ImageName p, oi_Versions = [], oi_other = []\<rparr> (oc_MachineImages c) = (imgs, i)"
    by fastforce
  let ?vs = "oi_Versions (imgs ! i)"
  have ver: "versions_named oi_Name (\<lambda>i. map ov_Version (oi_Versions i)) (op_ImageName p)
      (oc_MachineImages c) = map ov_Version ?vs"
    using locate_named_versions [OF l] by simp
  with d have dv: "distinct (map ov_Version ?vs)" by (simp add: os_versions_distinct_def)
  obtain m where f: "fold_opt (openstack_step p) (?vs, index_by ov_Version ?vs) ?srcs =
      Some (foldl (openstack_spec p) ?vs ?srcs, m)"
    using openstack_loop_spec [OF index_by_ok dv] by blast
  have c': "oc_MachineImages c' = imgs[i := (imgs ! i)\<lparr>oi_Versions := foldl (openstack_spec p) ?vs ?srcs\<rparr>]"
    using C l f by (simp add: openstack_cfg_def Let_def del: foldl_append) (auto simp del: foldl_append)
  note idx = locate_named_index [OF l]
  have "IndexFunc (\<lambda>i. oi_Name i = op_ImageName p) (oc_MachineImages c') = Some i"
    unfolding c' by (rule IndexFunc_list_update) (use idx in simp_all)
  then have after: "os_entry p c' v = entry_of ov_Version (foldl (openstack_spec p) ?vs ?srcs) v" for v
    using idx(1) by (simp add: os_entry_def c')
  have before: "os_entry p c v = entry_of ov_Version ?vs v" for v
    using l by (auto simp: os_entry_def locate_named_def split: option.splits)
  show ?thesis unfolding after before
    using entry_of_foldl_upsert [where key = ov_Version and item_key = si_Version
        and f = "\<lambda>s. configure_entry p s" and n = "\<lambda>s. configure_entry p s (new_entry (si_Version s))"
        and pre = pre and post = post and s = src and xs = ?vs] u
    by (simp split: option.split)
qed

lemma map_of_regions:
  "distinct (map ri_Region us) \<Longrightarrow> r \<in> set us \<Longrightarrow>
   map_of (rev (map (\<lambda>r. (ri_Region r, ri_ID r)) us)) (ri_Region r) = Some (ri_ID r)"
  by (rule map_of_is_SomeI) (auto simp: comp_def rev_map [symmetric])

lemma region_recorded:
  assumes "regions_distinct rs" "distinct (map ri_Region us)" "r \<in> set us"
  shows "region_id (sortRegions (upsertRegions rs us)) (ri_Region r) = Some (ri_ID r)"
  using region_id_sort [OF upsertRegions_distinct [OF assms(1)]]
    map_of_regions [OF assms(2,3)] by (simp add: region_id_upserts)

lemma region_kept:
  assumes "regions_distinct rs" "n \<notin> ri_Region ` set us"
  shows "region_id (sortRegions (upsertRegions rs us)) n = region_id rs n"
proof -
  have "map_of (rev (map (\<lambda>r. (ri_Region r, ri_ID r)) us)) n = None"
    using assms(2) by (auto simp: map_of_eq_None_iff)
  then show ?thesis
    using region_id_sort [OF upsertRegions_distinct [OF assms(1)]] by (simp add: region_id_upserts)
qed

definition entry_regions_ok :: "OSImageVersion \<Rightarrow> bool" where
  "entry_regions_ok e \<longleftrightarrow> regions_distinct (ov_Regions e) \<and>
     (\<forall>f\<in>set (ov_CapabilityFlavors e). regions_distinct (of_Regions f) \<and> caps_ok (of_Capabilities f))"

lemma configure_entry_flavor:
  assumes ok: "entry_regions_ok e" and w: "with_caps p src" and c: "caps_ok (si_Capabilities src)"
    and r: "distinct (map ri_Region (si_Regions src))" "r \<in> set (si_Regions src)"
  shows "\<exists>f\<in>set (ov_CapabilityFlavors (configure_entry p src e)).
    CapabilitiesEqual (of_Capabilities f) (si_Capabilities src) \<and>
    region_id (of_Regions f) (ri_Region r) = Some (ri_ID r) \<and> sorted_by region_cmp (of_Regions f)"
proof -
  let ?eq = "\<lambda>f. CapabilitiesEqual (of_Capabilities f) (si_Capabilities src)"
  let ?upd = "\<lambda>f. f\<lparr>of_Regions := sortRegions (upsertRegions (of_Regions f) (si_Regions src))\<rparr>"
  let ?new = "\<lparr>of_Capabilities = si_Capabilities src, of_Regions = [], of_other = []\<rparr>"
  have rec: "region_id (of_Regions (?upd f)) (ri_Region r) = Some (ri_ID r)"
    if "regions_distinct (of_Regions f)" for f
    using region_recorded [OF that r] by simp
  show ?thesis
  proof (cases "IndexFunc ?eq (ov_CapabilityFlavors e)")
    case None
    then have "?upd ?new \<in> set (ov_CapabilityFlavors (configure_entry p src e))"
      using w by (simp add: configure_entry_def with_caps_def Let_def)
    with rec [of ?new] c show ?thesis
      by (intro bexI [of _ "?upd ?new"])
        (simp_all add: CapabilitiesEqual_refl sortRegions_sorted)
  next
    case (Some i)
    let ?f = "ov_CapabilityFlavors e ! i"
    have i: "i < length (ov_CapabilityFlavors e)" "?eq ?f" using IndexFunc_Some [OF Some] by auto
    then have "regions_distinct (of_Regions ?f)" using ok by (simp add: entry_regions_ok_def)
    moreover have "?upd ?f \<in> set (ov_CapabilityFlavors (configure_entry p src e))"
      using w i Some by (auto simp: configure_entry_def with_caps_def Let_def intro: set_update_memI)
    ultimately show ?thesis using rec [of ?f] i(2)
      by (intro bexI [of _ "?upd ?f"]) (simp_all add: sortRegions_sorted)
  qed
qed

text \<open>C30 openstack_regions_recorded. After Configure the entry of a source image's version maps each of the image's regions
  to the image's identifier in that region: in the flavor with the image's capabilities when it carries
  capabilities, in the entry itself otherwise, where the regions that the image does not name keep their
  identifiers; and the regions are sorted.\<close>

theorem openstack_regions_recorded:
  assumes C: "openstack_cfg p c (pre @ src # post) = Some c'" and d: "os_versions_distinct p c"
    and ok: "cfg_all entry_regions_ok c" and caps: "caps_ok (si_Capabilities src)"
    and u: "\<forall>t\<in>set pre \<union> set post. si_Version t \<noteq> si_Version src"
    and r: "distinct (map ri_Region (si_Regions src))" "r \<in> set (si_Regions src)"
  shows "\<exists>e. os_entry p c' (si_Version src) = Some e \<and>
    (if with_caps p src
     then (\<exists>f\<in>set (ov_CapabilityFlavors e). CapabilitiesEqual (of_Capabilities f) (si_Capabilities src) \<and>
       region_id (of_Regions f) (ri_Region r) = Some (ri_ID r) \<and> sorted_by region_cmp (of_Regions f))
     else region_id (ov_Regions e) (ri_Region r) = Some (ri_ID r) \<and> sorted_by region_cmp (ov_Regions e) \<and>
       (\<forall>e0 n. os_entry p c (si_Version src) = Some e0 \<and> n \<notin> ri_Region ` set (si_Regions src) \<longrightarrow>
          region_id (ov_Regions e) n = region_id (ov_Regions e0) n))"
proof -
  let ?e0 = "case os_entry p c (si_Version src) of None \<Rightarrow> new_entry (si_Version src) | Some e \<Rightarrow> e"
  have in_c: "\<exists>i\<in>set (oc_MachineImages c). e \<in> set (oi_Versions i)" if "os_entry p c v = Some e" for e v
    using that by (auto simp: os_entry_def split: option.splits dest!: IndexFunc_Some entry_of_SomeD)
  have e0: "entry_regions_ok ?e0"
  proof (cases "os_entry p c (si_Version src)")
    case None
    then show ?thesis by (simp add: entry_regions_ok_def)
  next
    case (Some e)
    with in_c [OF Some] ok show ?thesis unfolding cfg_all_def by auto
  qed
  have e: "os_entry p c' (si_Version src) = Some (configure_entry p src ?e0)"
    by (rule os_entry_after [OF C d u])
  show ?thesis
  proof (cases "with_caps p src")
    case True
    with e configure_entry_flavor [OF e0 True caps r] show ?thesis by simp
  next
    case False
    have "regions_distinct (ov_Regions ?e0)" using e0 by (simp add: entry_regions_ok_def)
    with e False region_recorded [OF _ r] region_kept show ?thesis
      by (auto simp: configure_entry_plain sortRegions_sorted)
  qed
qed

end
