(* ===== verification/IroncoreProvider.thy ===== *)
theory IroncoreProvider
  imports ProviderContract
begin

section \<open>The IronCore provider\<close>

text \<open>
  Models \<^verbatim>\<open>cloudprofilesync/ossync/provider/ironcore/provider.go\<close>: per source image one flat entry for
  each architecture, keyed by the image reference, and, with capabilities enabled, a capability flavor
  under the clean version. The position map of the loop knows only the versions that were there before
  the loop and the clean entries that the loop appends; the flat entries are appended without entering it.
\<close>

record IMFlavor =
  if_Image :: string
  if_Capabilities :: Capabilities
  if_other :: opaque

record IMVersion =
  iv_Version :: string
  iv_Image :: string
  iv_Architecture :: "string option"
  iv_CapabilityFlavors :: "IMFlavor list"
  iv_other :: opaque

record IMImages =
  ii_Name :: string
  ii_Versions :: "IMVersion list"
  ii_other :: opaque

record IMConfig =
  ic_MachineImages :: "IMImages list"
  ic_other :: opaque

record IroncoreProvider =
  ip_Registry :: string
  ip_Repository :: string
  ip_ImageName :: string
  ip_EnableCapabilities :: bool

definition zero_IMConfig :: IMConfig where
  "zero_IMConfig = \<lparr>ic_MachineImages = [], ic_other = []\<rparr>"

subsection \<open>Configure\<close>

definition image_ref :: "IroncoreProvider \<Rightarrow> SourceImage \<Rightarrow> string" where
  "image_ref p src = ip_Registry p @ ''/'' @ ip_Repository p @ '':'' @ si_Version src"

definition is_legacy :: "string \<Rightarrow> string \<Rightarrow> IMVersion \<Rightarrow> bool" where
  "is_legacy ref arch v \<longleftrightarrow> iv_Image v = ref \<and> iv_Architecture v = Some arch"

definition legacy_entry :: "SourceImage \<Rightarrow> string \<Rightarrow> string \<Rightarrow> IMVersion" where
  "legacy_entry src ref arch =
     \<lparr>iv_Version = si_Version src, iv_Image = ref, iv_Architecture = Some arch,
      iv_CapabilityFlavors = [], iv_other = []\<rparr>"

fun add_legacy :: "SourceImage \<Rightarrow> string \<Rightarrow> IMVersion list \<Rightarrow> string list \<Rightarrow> IMVersion list" where
  "add_legacy src ref versions [] = versions"
| "add_legacy src ref versions (arch # archs) =
     (let alreadyPresent = (\<exists>v\<in>set versions. is_legacy ref arch v) in
      add_legacy src ref
        (if \<not> alreadyPresent then versions @ [legacy_entry src ref arch] else versions) archs)"

definition writes_flavor :: "IroncoreProvider \<Rightarrow> SourceImage \<Rightarrow> bool" where
  "writes_flavor p src \<longleftrightarrow>
     ip_EnableCapabilities p \<and> si_Capabilities src \<noteq> None \<and> si_CleanVersion src \<noteq> [] \<and>
     si_CleanVersion src \<noteq> si_Version src"

definition add_flavor :: "IMFlavor \<Rightarrow> IMVersion \<Rightarrow> IMVersion" where
  "add_flavor flavor existing =
     (let alreadyPresent = (\<exists>f\<in>set (iv_CapabilityFlavors existing). if_Image f = if_Image flavor) in
      if \<not> alreadyPresent
      then existing\<lparr>iv_CapabilityFlavors := iv_CapabilityFlavors existing @ [flavor]\<rparr> else existing)"

definition clean_entry :: "SourceImage \<Rightarrow> IMFlavor \<Rightarrow> IMVersion" where
  "clean_entry src flavor =
     \<lparr>iv_Version = si_CleanVersion src, iv_Image = [], iv_Architecture = None,
      iv_CapabilityFlavors = [flavor], iv_other = []\<rparr>"

definition source_flavor :: "IroncoreProvider \<Rightarrow> SourceImage \<Rightarrow> IMFlavor" where
  "source_flavor p src =
     \<lparr>if_Image = image_ref p src, if_Capabilities = si_Capabilities src, if_other = []\<rparr>"

definition ironcore_step ::
  "IroncoreProvider \<Rightarrow> IMVersion list \<times> (string, nat) gomap \<Rightarrow> SourceImage
   \<Rightarrow> (IMVersion list \<times> (string, nat) gomap) option" where
  "ironcore_step p st src =
     (case st of (versions, existingVersions) \<Rightarrow>
       (let ref = image_ref p src;
            versions = add_legacy src ref versions (si_Architectures src)
        in if writes_flavor p src then
             (let flavor = source_flavor p src in
              case map_of existingVersions (si_CleanVersion src) of
                Some idx \<Rightarrow>
                  map_option (\<lambda>vs. (vs, existingVersions)) (modify_at idx (add_flavor flavor) versions)
              | None \<Rightarrow>
                  Some (versions @ [clean_entry src flavor],
                        map_put (si_CleanVersion src) (length versions) existingVersions))
           else Some (versions, existingVersions)))"

definition ironcore_cfg :: "IroncoreProvider \<Rightarrow> IMConfig \<Rightarrow> SourceImage list \<Rightarrow> IMConfig option" where
  "ironcore_cfg p cfg srcs =
     (let (imgs, imageIndex) =
            locate_named ii_Name (ip_ImageName p)
              \<lparr>ii_Name = ip_ImageName p, ii_Versions = [], ii_other = []\<rparr> (ic_MachineImages cfg);
          image = imgs ! imageIndex
      in case fold_opt (ironcore_step p)
                (ii_Versions image, index_by iv_Version (ii_Versions image)) srcs of
           None \<Rightarrow> None
         | Some (versions, _) \<Rightarrow>
             Some (cfg\<lparr>ic_MachineImages := imgs[imageIndex := image\<lparr>ii_Versions := versions\<rparr>]\<rparr>))"

definition ironcore_Configure :: "IMConfig codec \<Rightarrow> IroncoreProvider \<Rightarrow> Configure" where
  "ironcore_Configure j p = configure_raw j zero_IMConfig (ironcore_cfg p)"

subsection \<open>The flat entries\<close>

text \<open>The references and architectures of the flat entries, in order.\<close>

definition legacy_pairs :: "IMVersion list \<Rightarrow> (string \<times> string) list" where
  "legacy_pairs vs = List.map_filter (\<lambda>v. map_option (Pair (iv_Image v)) (iv_Architecture v)) vs"

lemma legacy_pairs_simps [simp]:
  "legacy_pairs [] = []"
  "legacy_pairs (v # vs) =
     (case iv_Architecture v of None \<Rightarrow> legacy_pairs vs | Some a \<Rightarrow> (iv_Image v, a) # legacy_pairs vs)"
  by (auto simp: legacy_pairs_def List.map_filter_simps split: option.split)

lemma legacy_pairs_append [simp]: "legacy_pairs (vs @ ws) = legacy_pairs vs @ legacy_pairs ws"
  by (induction vs) (auto split: option.split)

lemma is_legacy_pairs: "(\<exists>v\<in>set vs. is_legacy ref arch v) \<longleftrightarrow> (ref, arch) \<in> set (legacy_pairs vs)"
  by (induction vs) (auto simp: is_legacy_def split: option.split)

lemma legacy_pairs_update:
  "i < length vs \<Longrightarrow> iv_Image y = iv_Image (vs ! i) \<Longrightarrow> iv_Architecture y = iv_Architecture (vs ! i) \<Longrightarrow>
   legacy_pairs (vs[i := y]) = legacy_pairs vs"
proof (induction vs arbitrary: i)
  case (Cons v vs)
  then show ?case by (cases i) (auto split: option.split)
qed simp

lemma add_legacy_pairs:
  "set (legacy_pairs (add_legacy src ref vs archs)) = set (legacy_pairs vs) \<union> Pair ref ` set archs \<and>
   (distinct (legacy_pairs vs) \<longrightarrow> distinct (legacy_pairs (add_legacy src ref vs archs)))"
  by (induction src ref vs archs rule: add_legacy.induct)
    (auto simp: Let_def is_legacy_pairs legacy_entry_def)

lemma add_legacy_extends:
  "\<exists>ws. add_legacy src ref vs archs = vs @ ws \<and>
     (\<forall>w\<in>set ws. \<exists>a\<in>set archs. w = legacy_entry src ref a)"
proof (induction src ref vs archs rule: add_legacy.induct)
  case (2 src ref vs arch archs)
  let ?vs = "if \<not> (\<exists>v\<in>set vs. is_legacy ref arch v) then vs @ [legacy_entry src ref arch] else vs"
  obtain ws where "add_legacy src ref ?vs archs = ?vs @ ws"
    "\<forall>w\<in>set ws. \<exists>a\<in>set archs. w = legacy_entry src ref a" using 2 by (auto simp: Let_def)
  then show ?case by (auto simp: Let_def)
qed simp

lemma add_legacy_id:
  "Pair ref ` set archs \<subseteq> set (legacy_pairs vs) \<Longrightarrow> add_legacy src ref vs archs = vs"
  by (induction src ref vs archs rule: add_legacy.induct) (simp_all add: Let_def is_legacy_pairs)

lemma add_flavor_fields [simp]:
  "iv_Version (add_flavor f e) = iv_Version e" "iv_Image (add_flavor f e) = iv_Image e"
  "iv_Architecture (add_flavor f e) = iv_Architecture e" "iv_other (add_flavor f e) = iv_other e"
  by (simp_all add: add_flavor_def Let_def)

subsection \<open>One step\<close>

text \<open>
  The weaker invariant of this loop: the map points to positions that carry the version. (It does not
  know every version, since the flat entries are not entered.)
\<close>

definition points_ok :: "IMVersion list \<Rightarrow> (string, nat) gomap \<Rightarrow> bool" where
  "points_ok vs m \<longleftrightarrow> (\<forall>k i. map_of m k = Some i \<longrightarrow> i < length vs \<and> iv_Version (vs ! i) = k)"

lemma points_ok_index: "points_ok vs (index_by iv_Version vs)"
  unfolding points_ok_def using index_okD [OF index_by_ok] by blast

lemma points_ok_append: "points_ok vs m \<Longrightarrow> points_ok (vs @ ws) m"
  unfolding points_ok_def by (metis length_append nth_append trans_less_add1)

text \<open>An entry only ever gains flavors.\<close>

definition grows :: "IMVersion \<Rightarrow> IMVersion \<Rightarrow> bool" where
  "grows v w \<longleftrightarrow> (\<exists>fs. w = v\<lparr>iv_CapabilityFlavors := iv_CapabilityFlavors v @ fs\<rparr>)"

definition all_grow :: "IMVersion list \<Rightarrow> IMVersion list \<Rightarrow> bool" where
  "all_grow vs ws \<longleftrightarrow> length vs \<le> length ws \<and> (\<forall>i<length vs. grows (vs ! i) (ws ! i))"

lemma grows_refl [simp]: "grows v v"
  unfolding grows_def by (rule exI [of _ "[]"]) simp

lemma grows_trans: "grows u v \<Longrightarrow> grows v w \<Longrightarrow> grows u w"
  unfolding grows_def by auto

lemma grows_add_flavor: "grows v (add_flavor f v)"
proof (cases "\<exists>g\<in>set (iv_CapabilityFlavors v). if_Image g = if_Image f")
  case False
  then have "add_flavor f v = v\<lparr>iv_CapabilityFlavors := iv_CapabilityFlavors v @ [f]\<rparr>"
    by (simp add: add_flavor_def)
  then show ?thesis unfolding grows_def by blast
qed (simp add: add_flavor_def)

lemma grows_fields:
  "grows v w \<Longrightarrow> iv_Version w = iv_Version v \<and> iv_Image w = iv_Image v \<and>
     iv_Architecture w = iv_Architecture v \<and> set (iv_CapabilityFlavors v) \<subseteq> set (iv_CapabilityFlavors w)"
  by (auto simp: grows_def)

lemma all_grow_refl [simp]: "all_grow vs vs"
  by (simp add: all_grow_def)

lemma all_grow_trans: "all_grow us vs \<Longrightarrow> all_grow vs ws \<Longrightarrow> all_grow us ws"
  unfolding all_grow_def by (meson grows_trans less_le_trans order_trans)

lemma all_grow_append: "all_grow vs ws \<Longrightarrow> all_grow vs (ws @ us)"
  by (auto simp: all_grow_def nth_append)

lemma all_grow_update:
  assumes "all_grow vs ws" shows "all_grow vs (ws[i := add_flavor f (ws ! i)])"
  unfolding all_grow_def
proof (intro conjI allI impI)
  show "length vs \<le> length (ws[i := add_flavor f (ws ! i)])" using assms by (simp add: all_grow_def)
  fix j assume j: "j < length vs"
  then have g: "grows (vs ! j) (ws ! j)" "j < length ws" using assms by (auto simp: all_grow_def)
  show "grows (vs ! j) (ws[i := add_flavor f (ws ! i)] ! j)"
  proof (cases "j = i")
    case True
    with g show ?thesis using grows_trans [OF g(1) grows_add_flavor] by simp
  qed (use g in simp)
qed

lemma all_growD:
  assumes "all_grow vs ws" "v \<in> set vs" shows "\<exists>w\<in>set ws. grows v w"
proof -
  obtain i where i: "i < length vs" "v = vs ! i" using assms(2) by (metis in_set_conv_nth)
  with assms(1) have "i < length ws" "grows v (ws ! i)" by (auto simp: all_grow_def)
  then show ?thesis by (blast intro: nth_mem)
qed

lemma all_grow_versions:
  assumes "all_grow vs ws" shows "iv_Version ` set vs \<subseteq> iv_Version ` set ws"
proof
  fix k assume "k \<in> iv_Version ` set vs"
  then obtain v where v: "v \<in> set vs" "k = iv_Version v" by blast
  then obtain w where "w \<in> set ws" "grows v w" using all_growD [OF assms] by blast
  with v(2) show "k \<in> iv_Version ` set ws" using grows_fields [of v w] by (metis image_eqI)
qed

text \<open>The flavor of a source image is in an entry of its clean version.\<close>

definition flavored :: "IMVersion list \<Rightarrow> string \<Rightarrow> string \<Rightarrow> bool" where
  "flavored vs clean ref \<longleftrightarrow>
     (\<exists>v\<in>set vs. iv_Version v = clean \<and> (\<exists>f\<in>set (iv_CapabilityFlavors v). if_Image f = ref))"

lemma flavored_grow:
  assumes "all_grow vs ws" "flavored vs k ref" shows "flavored ws k ref"
proof -
  obtain v f where v: "v \<in> set vs" "iv_Version v = k" "f \<in> set (iv_CapabilityFlavors v)" "if_Image f = ref"
    using assms(2) unfolding flavored_def by blast
  obtain w where w: "w \<in> set ws" "grows v w" using all_growD [OF assms(1) v(1)] by blast
  have "iv_Version w = k" "f \<in> set (iv_CapabilityFlavors w)"
    using grows_fields [OF w(2)] v(2,3) by auto
  with w(1) v(4) show ?thesis unfolding flavored_def by blast
qed

lemma add_flavor_has: "\<exists>g\<in>set (iv_CapabilityFlavors (add_flavor f e)). if_Image g = if_Image f"
  by (auto simp: add_flavor_def Let_def)

text \<open>At most one flavor per image reference in an entry.\<close>

definition flavors_once :: "IMVersion \<Rightarrow> bool" where
  "flavors_once v \<longleftrightarrow> distinct (map if_Image (iv_CapabilityFlavors v))"

lemma flavors_once_add: "flavors_once v \<Longrightarrow> flavors_once (add_flavor f v)"
  by (auto simp: flavors_once_def add_flavor_def Let_def)

lemma flavors_once_new [simp]: "flavors_once (legacy_entry src ref a)" "flavors_once (clean_entry src f)"
  by (simp_all add: flavors_once_def legacy_entry_def clean_entry_def)

text \<open>What one iteration does, on every branch; it never runs out of range.\<close>

definition step_pairs :: "IroncoreProvider \<Rightarrow> SourceImage \<Rightarrow> (string \<times> string) set" where
  "step_pairs p src = Pair (image_ref p src) ` set (si_Architectures src)"

definition step_post :: "IroncoreProvider \<Rightarrow> SourceImage \<Rightarrow> IMVersion list \<Rightarrow> IMVersion list \<Rightarrow> bool" where
  "step_post p src vs vs' \<longleftrightarrow>
     all_grow vs vs' \<and>
     set (legacy_pairs vs') = set (legacy_pairs vs) \<union> step_pairs p src \<and>
     (distinct (legacy_pairs vs) \<longrightarrow> distinct (legacy_pairs vs')) \<and>
     (writes_flavor p src \<longrightarrow> flavored vs' (si_CleanVersion src) (image_ref p src)) \<and>
     (list_all flavors_once vs \<longrightarrow> list_all flavors_once vs')"

lemma add_legacy_post:
  "step_post p src vs (add_legacy src (image_ref p src) vs (si_Architectures src)) \<or> writes_flavor p src"
  "all_grow vs (add_legacy src ref vs archs)"
  "list_all flavors_once vs \<longrightarrow> list_all flavors_once (add_legacy src ref vs archs)"
proof -
  show g: "all_grow vs (add_legacy src ref vs archs)" for ref archs
    using add_legacy_extends [of src ref vs archs] all_grow_append [OF all_grow_refl] by auto
  show f: "list_all flavors_once vs \<longrightarrow> list_all flavors_once (add_legacy src ref vs archs)" for ref archs
    using add_legacy_extends [of src ref vs archs] by (fastforce simp: list_all_iff)
  show "step_post p src vs (add_legacy src (image_ref p src) vs (si_Architectures src)) \<or> writes_flavor p src"
    using g f add_legacy_pairs unfolding step_post_def step_pairs_def by blast
qed

lemma points_ok_put:
  assumes "points_ok vs m" "iv_Version e = k" shows "points_ok (vs @ [e]) (map_put k (length vs) m)"
  unfolding points_ok_def
proof (intro allI impI)
  fix k' i assume "map_of (map_put k (length vs) m) k' = Some i"
  then have "k' = k \<and> i = length vs \<or> map_of m k' = Some i" by (rule map_put_SomeD)
  then show "i < length (vs @ [e]) \<and> iv_Version ((vs @ [e]) ! i) = k'"
  proof
    assume "map_of m k' = Some i"
    with assms(1) have "i < length vs \<and> iv_Version (vs ! i) = k'" unfolding points_ok_def by blast
    then show ?thesis by (simp add: nth_append)
  qed (use assms(2) in simp)
qed

lemma points_ok_update:
  assumes "points_ok vs m" "i < length vs" "iv_Version e = iv_Version (vs ! i)"
  shows "points_ok (vs[i := e]) m"
  unfolding points_ok_def
proof (intro allI impI)
  fix k j assume "map_of m k = Some j"
  with assms(1) have "j < length vs \<and> iv_Version (vs ! j) = k" unfolding points_ok_def by blast
  with assms(2,3) show "j < length (vs[i := e]) \<and> iv_Version (vs[i := e] ! j) = k"
    by (cases "j = i") simp_all
qed

lemma list_all_update: "list_all P xs \<Longrightarrow> P y \<Longrightarrow> list_all P (xs[i := y])"
  unfolding list_all_iff using set_update_subset_insert by fastforce

lemma ironcore_step_ok:
  assumes "points_ok vs m"
  shows "\<exists>vs' m'. ironcore_step p (vs, m) src = Some (vs', m') \<and> points_ok vs' m' \<and> step_post p src vs vs'"
proof -
  let ?ref = "image_ref p src"
  define v1 where "v1 = add_legacy src ?ref vs (si_Architectures src)"
  have ok1: "points_ok v1 m"
    using add_legacy_extends [of src ?ref vs "si_Architectures src"] points_ok_append [OF assms]
    by (auto simp: v1_def)
  have g1: "all_grow vs v1" and f1: "list_all flavors_once vs \<longrightarrow> list_all flavors_once v1"
    unfolding v1_def by (rule add_legacy_post)+
  have p1: "set (legacy_pairs v1) = set (legacy_pairs vs) \<union> step_pairs p src"
    "distinct (legacy_pairs vs) \<longrightarrow> distinct (legacy_pairs v1)"
    using add_legacy_pairs [of src ?ref vs "si_Architectures src"] by (auto simp: v1_def step_pairs_def)
  let ?f = "source_flavor p src"
  have ref: "if_Image ?f = ?ref" by (simp add: source_flavor_def)
  consider "\<not> writes_flavor p src"
    | i where "writes_flavor p src" "map_of m (si_CleanVersion src) = Some i"
    | "writes_flavor p src" "map_of m (si_CleanVersion src) = None" by (cases "map_of m (si_CleanVersion src)") auto
  then show ?thesis
  proof cases
    case 1
    then have "ironcore_step p (vs, m) src = Some (v1, m)" by (simp add: ironcore_step_def v1_def Let_def)
    moreover have "step_post p src vs v1" using g1 f1 p1 1 by (simp add: step_post_def)
    ultimately show ?thesis using ok1 by blast
  next
    case (2 i)
    from ok1 2(2) have i: "i < length v1" "iv_Version (v1 ! i) = si_CleanVersion src"
      unfolding points_ok_def by blast+
    let ?vs' = "v1[i := add_flavor ?f (v1 ! i)]"
    have st: "ironcore_step p (vs, m) src = Some (?vs', m)"
      using 2 i by (simp add: ironcore_step_def v1_def Let_def modify_at_def)
    have "add_flavor ?f (v1 ! i) \<in> set ?vs'" using i(1) by (rule set_update_memI)
    then have fl: "flavored ?vs' (si_CleanVersion src) ?ref"
      unfolding flavored_def using add_flavor_has [of ?f "v1 ! i"] ref i(2)
      by (intro bexI [of _ "add_flavor ?f (v1 ! i)"]) simp_all
    have "list_all flavors_once v1 \<longrightarrow> list_all flavors_once ?vs'"
      using list_all_update [of flavors_once v1] flavors_once_add i(1) by (simp add: list_all_length)
    with fl g1 f1 p1 have "step_post p src vs ?vs'"
      using all_grow_update [OF g1] legacy_pairs_update [OF i(1), of "add_flavor ?f (v1 ! i)"]
      by (simp add: step_post_def)
    moreover have "points_ok ?vs' m" by (rule points_ok_update [OF ok1 i(1)]) simp
    ultimately show ?thesis using st by blast
  next
    case 3
    let ?vs' = "v1 @ [clean_entry src ?f]"
    let ?m' = "map_put (si_CleanVersion src) (length v1) m"
    have st: "ironcore_step p (vs, m) src = Some (?vs', ?m')"
      using 3 by (simp add: ironcore_step_def v1_def Let_def)
    have "flavored ?vs' (si_CleanVersion src) ?ref"
      using ref by (auto simp: flavored_def clean_entry_def)
    with g1 f1 p1 have "step_post p src vs ?vs'"
      using all_grow_append [OF g1] by (simp add: step_post_def) (simp add: clean_entry_def)
    moreover have "points_ok ?vs' ?m'" by (rule points_ok_put [OF ok1]) (simp add: clean_entry_def)
    ultimately show ?thesis using st by blast
  qed
qed

definition loop_post :: "IroncoreProvider \<Rightarrow> SourceImage list \<Rightarrow> IMVersion list \<Rightarrow> IMVersion list \<Rightarrow> bool" where
  "loop_post p srcs vs vs' \<longleftrightarrow>
     all_grow vs vs' \<and>
     set (legacy_pairs vs') = set (legacy_pairs vs) \<union> (\<Union>src\<in>set srcs. step_pairs p src) \<and>
     (distinct (legacy_pairs vs) \<longrightarrow> distinct (legacy_pairs vs')) \<and>
     (\<forall>src\<in>set srcs. writes_flavor p src \<longrightarrow> flavored vs' (si_CleanVersion src) (image_ref p src)) \<and>
     (list_all flavors_once vs \<longrightarrow> list_all flavors_once vs')"

lemma ironcore_loop_ok:
  "points_ok vs m \<Longrightarrow>
   \<exists>vs' m'. fold_opt (ironcore_step p) (vs, m) srcs = Some (vs', m') \<and> loop_post p srcs vs vs'"
proof (induction srcs arbitrary: vs m)
  case Nil
  then show ?case by (simp add: loop_post_def)
next
  case (Cons src srcs)
  from ironcore_step_ok [OF Cons.prems, of p src] obtain v1 m1 where
    1: "ironcore_step p (vs, m) src = Some (v1, m1)" "points_ok v1 m1" "step_post p src vs v1" by blast
  from Cons.IH [OF 1(2)] obtain v2 m2 where
    2: "fold_opt (ironcore_step p) (v1, m1) srcs = Some (v2, m2)" "loop_post p srcs v1 v2" by blast
  have "all_grow vs v2" using 1(3) 2(2) all_grow_trans unfolding step_post_def loop_post_def by blast
  moreover have "flavored v2 (si_CleanVersion s) (image_ref p s)"
    if "s \<in> set (src # srcs)" "writes_flavor p s" for s
    using that 1(3) 2(2) flavored_grow unfolding step_post_def loop_post_def by auto
  moreover have "set (legacy_pairs v2) = set (legacy_pairs vs) \<union> (\<Union>s\<in>set (src # srcs). step_pairs p s)"
    using 1(3) 2(2) unfolding step_post_def loop_post_def by auto
  ultimately have "loop_post p (src # srcs) vs v2"
    using 1(3) 2(2) unfolding loop_post_def step_post_def by blast
  with 1(1) 2(1) show ?case by simp
qed

subsection \<open>Configure keeps the contract\<close>

text \<open>The versions under the provider's image name.\<close>

definition im_versions :: "IroncoreProvider \<Rightarrow> IMConfig \<Rightarrow> IMVersion list" where
  "im_versions p c =
     (case IndexFunc (\<lambda>i. ii_Name i = ip_ImageName p) (ic_MachineImages c) of
        None \<Rightarrow> [] | Some i \<Rightarrow> ii_Versions (ic_MachineImages c ! i))"

lemma im_versions_named:
  "versions_named ii_Name (\<lambda>i. map iv_Version (ii_Versions i)) (ip_ImageName p) (ic_MachineImages c) =
   map iv_Version (im_versions p c)"
  by (simp add: versions_named_def im_versions_def split: option.split)

lemma ironcore_cfg_Some:
  "\<exists>c' imgs i vs m.
     ironcore_cfg p c srcs = Some c' \<and>
     locate_named ii_Name (ip_ImageName p)
       \<lparr>ii_Name = ip_ImageName p, ii_Versions = [], ii_other = []\<rparr> (ic_MachineImages c) = (imgs, i) \<and>
     ii_Versions (imgs ! i) = im_versions p c \<and>
     fold_opt (ironcore_step p) (im_versions p c, index_by iv_Version (im_versions p c)) srcs = Some (vs, m) \<and>
     ic_MachineImages c' = imgs[i := (imgs ! i)\<lparr>ii_Versions := vs\<rparr>] \<and> ic_other c' = ic_other c \<and>
     im_versions p c' = vs \<and> loop_post p srcs (im_versions p c) vs"
proof -
  obtain imgs i where l: "locate_named ii_Name (ip_ImageName p)
    \<lparr>ii_Name = ip_ImageName p, ii_Versions = [], ii_other = []\<rparr> (ic_MachineImages c) = (imgs, i)"
    by fastforce
  have v: "ii_Versions (imgs ! i) = im_versions p c"
    using l by (auto simp: locate_named_def im_versions_def split: option.splits)
  obtain vs m where f: "fold_opt (ironcore_step p)
      (im_versions p c, index_by iv_Version (im_versions p c)) srcs = Some (vs, m)"
    "loop_post p srcs (im_versions p c) vs" using ironcore_loop_ok [OF points_ok_index] by blast
  let ?c' = "c\<lparr>ic_MachineImages := imgs[i := (imgs ! i)\<lparr>ii_Versions := vs\<rparr>]\<rparr>"
  note idx = locate_named_index [OF l]
  have "IndexFunc (\<lambda>i. ii_Name i = ip_ImageName p) (ic_MachineImages ?c') = Some i"
    using IndexFunc_list_update [OF idx(3), of "(imgs ! i)\<lparr>ii_Versions := vs\<rparr>"] idx(2) by simp
  then have "im_versions p ?c' = vs" using idx(1) by (simp add: im_versions_def)
  moreover have "ironcore_cfg p c srcs = Some ?c'" using l v f by (simp add: ironcore_cfg_def Let_def)
  ultimately show ?thesis using l v f by (intro exI [of _ ?c'] exI) auto
qed

lemma ironcore_cfg_post:
  assumes "ironcore_cfg p c srcs = Some c'"
  shows "loop_post p srcs (im_versions p c) (im_versions p c')"
  using ironcore_cfg_Some [of p c srcs] assms by auto

lemma ironcore_registers:
  assumes "loop_post p srcs vs vs'" "points_ok vs' m" "src \<in> set srcs" "a \<in> set (si_Architectures src)"
  shows "\<exists>v\<in>set vs'. iv_Image v = image_ref p src \<and> iv_Architecture v = Some a"
proof -
  have "(image_ref p src, a) \<in> set (legacy_pairs vs')"
    using assms(1,3,4) unfolding loop_post_def step_pairs_def by blast
  then have "\<exists>v\<in>set vs'. is_legacy (image_ref p src) a v" by (simp add: is_legacy_pairs)
  then show ?thesis by (auto simp: is_legacy_def)
qed

text \<open>A configuration is well-formed when a flat entry of one of the provider's images has its tag as version.\<close>

definition tags_ok :: "IroncoreProvider \<Rightarrow> IMVersion list \<Rightarrow> bool" where
  "tags_ok p vs \<longleftrightarrow>
     (\<forall>v\<in>set vs. \<forall>a tag. iv_Architecture v = Some a \<and>
        iv_Image v = ip_Registry p @ ''/'' @ ip_Repository p @ '':'' @ tag \<longrightarrow> iv_Version v = tag)"

lemma tags_ok_legacy:
  assumes "tags_ok p vs" shows "tags_ok p (add_legacy src (image_ref p src) vs archs)"
proof -
  obtain ws where ws: "add_legacy src (image_ref p src) vs archs = vs @ ws"
    "\<forall>w\<in>set ws. \<exists>a\<in>set archs. w = legacy_entry src (image_ref p src) a"
    using add_legacy_extends by blast
  have "tags_ok p ws" unfolding tags_ok_def
  proof (intro ballI allI impI)
    fix w a tag assume "w \<in> set ws"
      "iv_Architecture w = Some a \<and> iv_Image w = ip_Registry p @ ''/'' @ ip_Repository p @ '':'' @ tag"
    with ws(2) show "iv_Version w = tag" by (fastforce simp: legacy_entry_def image_ref_def)
  qed
  with assms show ?thesis unfolding ws(1) tags_ok_def by auto
qed

lemma tags_ok_update:
  "tags_ok p vs \<Longrightarrow> i < length vs \<Longrightarrow> tags_ok p (vs[i := add_flavor f (vs ! i)])"
  using set_update_subset_insert [of vs i "add_flavor f (vs ! i)"] nth_mem [of i vs]
  unfolding tags_ok_def by (metis (no_types, opaque_lifting) add_flavor_fields insertE subsetD)

lemma tags_ok_clean: "tags_ok p vs \<Longrightarrow> tags_ok p (vs @ [clean_entry src f])"
  by (auto simp: tags_ok_def clean_entry_def)

lemma tags_ok_step:
  assumes "tags_ok p vs" "ironcore_step p (vs, m) src = Some (vs', m')"
  shows "tags_ok p vs'"
  using assms(2) tags_ok_legacy [OF assms(1), of src "si_Architectures src"]
  by (auto simp: ironcore_step_def Let_def modify_at_def tags_ok_update tags_ok_clean
      split: if_splits option.splits)

lemma tags_ok_loop:
  "tags_ok p vs \<Longrightarrow> fold_opt (ironcore_step p) (vs, m) srcs = Some (vs', m') \<Longrightarrow> tags_ok p vs'"
proof (induction srcs arbitrary: vs m)
  case (Cons src srcs)
  then obtain v1 m1 where 1: "ironcore_step p (vs, m) src = Some (v1, m1)"
    "fold_opt (ironcore_step p) (v1, m1) srcs = Some (vs', m')" by (auto split: option.splits)
  show ?case by (rule Cons.IH [OF tags_ok_step [OF Cons.prems(1) 1(1)] 1(2)])
qed simp

interpretation ironcore: image_provider "\<lambda>c. tags_ok p (im_versions p c)" "ironcore_cfg p" ic_MachineImages ii_Name
  "\<lambda>i. map iv_Version (ii_Versions i)" "ip_ImageName p" for p
proof unfold_locales
  fix c c' srcs
  show "\<exists>c'. ironcore_cfg p c srcs = Some c'" using ironcore_cfg_Some by blast
  assume C: "ironcore_cfg p c srcs = Some c'"
  from ironcore_cfg_Some [of p c srcs] C obtain imgs i vs m where
    l: "locate_named ii_Name (ip_ImageName p)
      \<lparr>ii_Name = ip_ImageName p, ii_Versions = [], ii_other = []\<rparr> (ic_MachineImages c) = (imgs, i)"
    and f: "fold_opt (ironcore_step p) (im_versions p c, index_by iv_Version (im_versions p c)) srcs = Some (vs, m)"
    and c': "ic_MachineImages c' = imgs[i := (imgs ! i)\<lparr>ii_Versions := vs\<rparr>]" "im_versions p c' = vs"
    and post: "loop_post p srcs (im_versions p c) vs"
    by auto
  show "filter (\<lambda>i. ii_Name i \<noteq> ip_ImageName p) (ic_MachineImages c') =
      filter (\<lambda>i. ii_Name i \<noteq> ip_ImageName p) (ic_MachineImages c)"
    unfolding c' using update_named(1) [OF l, of "(imgs ! i)\<lparr>ii_Versions := vs\<rparr>"]
      locate_named_index(2) [OF l] by simp
  have "all_grow (im_versions p c) vs" using post by (simp add: loop_post_def)
  from all_grow_versions [OF this] show "set (versions_named ii_Name (\<lambda>i. map iv_Version (ii_Versions i))
        (ip_ImageName p) (ic_MachineImages c)) \<subseteq>
      set (versions_named ii_Name (\<lambda>i. map iv_Version (ii_Versions i)) (ip_ImageName p) (ic_MachineImages c'))"
    by (simp add: im_versions_named flip: c'(2))
  assume wf: "tags_ok p (im_versions p c)"
  show wf': "tags_ok p (im_versions p c')" unfolding c' by (rule tags_ok_loop [OF wf f])
  show "si_Version src \<in> set (versions_named ii_Name (\<lambda>i. map iv_Version (ii_Versions i))
      (ip_ImageName p) (ic_MachineImages c'))"
    if s: "src \<in> set srcs" and ne: "si_Architectures src \<noteq> []" for src
  proof -
    obtain a where a: "a \<in> set (si_Architectures src)" using ne by (cases "si_Architectures src") auto
    obtain v where v: "v \<in> set vs" "iv_Image v = image_ref p src" "iv_Architecture v = Some a"
      using ironcore_registers [OF post points_ok_index s a] by blast
    then have "iv_Version v = si_Version src"
      using wf' by (auto simp: tags_ok_def c' image_ref_def)
    with v(1) have "si_Version src \<in> iv_Version ` set (im_versions p c')"
      unfolding c'(2) by (metis image_eqI)
    then show ?thesis by (simp add: im_versions_named)
  qed
qed

subsection \<open>Properties\<close>

text \<open>C33 ironcore_flat_entries. After Configure of the IronCore provider the flat entries under the image name are those that were
  there before and one for each architecture of each source image; no reference and architecture occurs
  twice, unless it did before.\<close>

theorem ironcore_flat_entries:
  assumes "ironcore_cfg p c srcs = Some c'"
  shows "set (legacy_pairs (im_versions p c')) =
      set (legacy_pairs (im_versions p c)) \<union>
      {(image_ref p src, a) | src a. src \<in> set srcs \<and> a \<in> set (si_Architectures src)} \<and>
    (distinct (legacy_pairs (im_versions p c)) \<longrightarrow> distinct (legacy_pairs (im_versions p c')))"
  using ironcore_cfg_post [OF assms] unfolding loop_post_def step_pairs_def by auto


text \<open>Configure of the IronCore provider never panics, and with a faithful codec it succeeds on every
  configuration that decodes; on a well-formed one every source image with an architecture is a version
  under the image name afterwards, and the entries of every other image are as they were.\<close>

lemma ironcore_Configure_registers:
  assumes "codec_ok j" "decode j zero_IMConfig pc = Inr c" "tags_ok p (im_versions p c)"
  shows "\<exists>pc' c'. ironcore_Configure j p pc srcs = Ok pc' \<and> decode j zero_IMConfig pc' = Inr c' \<and>
    (\<forall>src\<in>set srcs. si_Architectures src \<noteq> [] \<longrightarrow>
       si_Version src \<in> iv_Version ` set (im_versions p c')) \<and>
    filter (\<lambda>i. ii_Name i \<noteq> ip_ImageName p) (ic_MachineImages c') =
      filter (\<lambda>i. ii_Name i \<noteq> ip_ImageName p) (ic_MachineImages c)"
proof -
  obtain pc' where pc': "ironcore_Configure j p pc srcs = Ok pc'"
    using ironcore.raw_succeeds [OF assms(1,2)] unfolding ironcore_Configure_def by blast
  with ironcore.raw_Ok [OF assms(1), of zero_IMConfig p pc srcs pc'] assms(2) obtain c' where
    c': "ironcore_cfg p c srcs = Some c'" "decode j zero_IMConfig pc' = Inr c'"
    by (auto simp: ironcore_Configure_def)
  have "si_Version src \<in> iv_Version ` set (im_versions p c')"
    if "src \<in> set srcs" "si_Architectures src \<noteq> []" for src
    using ironcore.configure_registers [OF assms(3) c'(1) that] by (simp add: im_versions_named)
  with pc' c' ironcore.configure_frame [OF c'(1)] show ?thesis by blast
qed

subsubsection \<open>Configuring again\<close>

text \<open>
  The position map at the end of the loop and the one built at the start of the next call agree on the
  clean versions when no tag is a clean version: then the next call finds every flavor where this one
  put it. (Without that condition a flat entry appended after the clean entry hides it from the map of
  the next call, which appends the flavors a second time to the flat entry.)
\<close>

lemma index_from_append:
  "index_from key i (xs @ ys) m = index_from key (i + length xs) ys (index_from key i xs m)"
  by (induction xs arbitrary: i m) simp_all

lemma index_by_snoc: "index_by key (xs @ [x]) = map_put (key x) (length xs) (index_by key xs)"
  by (simp add: index_by_def index_from_append)

lemma index_from_map: "map key xs = map key' ys \<Longrightarrow> index_from key i xs m = index_from key' i ys m"
proof (induction xs arbitrary: i ys m)
  case (Cons x xs)
  then show ?case by (cases ys) auto
qed simp

lemma index_by_append_other:
  "\<forall>w\<in>set ws. key w \<noteq> k \<Longrightarrow> map_of (index_by key (xs @ ws)) k = map_of (index_by key xs) k"
proof (induction ws arbitrary: xs)
  case (Cons w ws)
  then have "map_of (index_by key ((xs @ [w]) @ ws)) k = map_of (index_by key (xs @ [w])) k"
    using Cons.IH [of "xs @ [w]"] by simp
  also have "\<dots> = map_of (index_by key xs) k" using Cons.prems by (auto simp: index_by_snoc map_of_map_put)
  finally show ?case by simp
qed simp

definition agrees :: "string set \<Rightarrow> IMVersion list \<Rightarrow> (string, nat) gomap \<Rightarrow> bool" where
  "agrees C vs m \<longleftrightarrow> (\<forall>k\<in>C. map_of m k = map_of (index_by iv_Version vs) k)"

text \<open>The flavor of a source image is in the very entry that the position map names.\<close>

definition settled :: "IroncoreProvider \<Rightarrow> IMVersion list \<Rightarrow> SourceImage \<Rightarrow> bool" where
  "settled p vs src \<longleftrightarrow>
     step_pairs p src \<subseteq> set (legacy_pairs vs) \<and>
     (writes_flavor p src \<longrightarrow>
       (\<exists>i. map_of (index_by iv_Version vs) (si_CleanVersion src) = Some i \<and> i < length vs \<and>
          (\<exists>f\<in>set (iv_CapabilityFlavors (vs ! i)). if_Image f = image_ref p src)))"

lemma agrees_legacy:
  assumes "agrees C vs m" "si_Version src \<notin> C"
  shows "agrees C (add_legacy src ref vs archs) m"
proof -
  obtain ws where ws: "add_legacy src ref vs archs = vs @ ws"
    "\<forall>w\<in>set ws. \<exists>a\<in>set archs. w = legacy_entry src ref a"
    using add_legacy_extends by blast
  show ?thesis unfolding agrees_def ws(1)
  proof
    fix k assume k: "k \<in> C"
    have "\<forall>w\<in>set ws. iv_Version w \<noteq> k" using ws(2) assms(2) k by (auto simp: legacy_entry_def)
    from index_by_append_other [OF this] assms(1) k
    show "map_of m k = map_of (index_by iv_Version (vs @ ws)) k" by (simp add: agrees_def)
  qed
qed

lemma agrees_update:
  assumes "agrees C vs m" shows "agrees C (vs[i := add_flavor f (vs ! i)]) m"
proof (cases "i < length vs")
  case True
  then have "map iv_Version (vs[i := add_flavor f (vs ! i)]) = map iv_Version vs"
    by (simp add: map_update list_update_same_conv)
  from index_from_map [OF this] assms show ?thesis by (simp add: agrees_def index_by_def)
qed (use assms in \<open>simp add: list_update_beyond\<close>)

lemma agrees_clean:
  "agrees C vs m \<Longrightarrow> agrees C (vs @ [clean_entry src f]) (map_put (si_CleanVersion src) (length vs) m)"
  by (simp add: agrees_def index_by_snoc map_of_map_put clean_entry_def)

lemma agrees_step:
  assumes "agrees C vs m" "si_Version src \<notin> C" "ironcore_step p (vs, m) src = Some (vs', m')"
  shows "agrees C vs' m'"
  using assms(3) agrees_legacy [OF assms(1,2), of "image_ref p src" "si_Architectures src"]
  by (auto simp: ironcore_step_def Let_def modify_at_def agrees_update agrees_clean
      split: if_splits option.splits)

text \<open>Once a key is in the map it keeps its position.\<close>

lemma step_keeps_positions:
  assumes "ironcore_step p (vs, m) src = Some (vs', m')" "map_of m k = Some i"
  shows "map_of m' k = Some i"
  using assms by (auto simp: ironcore_step_def Let_def map_of_map_put split: if_splits option.splits)

lemma loop_keeps_positions:
  "fold_opt (ironcore_step p) (vs, m) srcs = Some (vs', m') \<Longrightarrow> map_of m k = Some i \<Longrightarrow> map_of m' k = Some i"
proof (induction srcs arbitrary: vs m)
  case (Cons src srcs)
  then obtain v1 m1 where 1: "ironcore_step p (vs, m) src = Some (v1, m1)"
    "fold_opt (ironcore_step p) (v1, m1) srcs = Some (vs', m')" by (auto split: option.splits)
  show ?case by (rule Cons.IH [OF 1(2) step_keeps_positions [OF 1(1) Cons.prems(2)]])
qed simp

definition placed :: "IroncoreProvider \<Rightarrow> IMVersion list \<Rightarrow> (string, nat) gomap \<Rightarrow> SourceImage \<Rightarrow> bool" where
  "placed p vs m src \<longleftrightarrow>
     (\<exists>i. map_of m (si_CleanVersion src) = Some i \<and> i < length vs \<and>
        (\<exists>f\<in>set (iv_CapabilityFlavors (vs ! i)). if_Image f = image_ref p src))"

lemma step_placed:
  assumes "points_ok vs m" "writes_flavor p src" "ironcore_step p (vs, m) src = Some (vs', m')"
  shows "placed p vs' m' src"
proof -
  let ?v1 = "add_legacy src (image_ref p src) vs (si_Architectures src)"
  let ?f = "source_flavor p src"
  have ref: "if_Image ?f = image_ref p src" by (simp add: source_flavor_def)
  show ?thesis
  proof (cases "map_of m (si_CleanVersion src)")
    case None
    with assms(2,3) have "vs' = ?v1 @ [clean_entry src ?f]" "m' = map_put (si_CleanVersion src) (length ?v1) m"
      by (auto simp: ironcore_step_def Let_def)
    then show ?thesis using ref by (simp add: placed_def map_of_map_put clean_entry_def)
  next
    case (Some i)
    with assms(2,3) have "modify_at i (add_flavor ?f) ?v1 = Some vs'" "m' = m"
      by (auto simp: ironcore_step_def Let_def split: option.splits)
    then have "vs' = ?v1[i := add_flavor ?f (?v1 ! i)]" "i < length ?v1" "m' = m"
      by (auto simp: modify_at_def split: if_splits)
    then show ?thesis using Some add_flavor_has [of ?f "?v1 ! i"] ref by (simp add: placed_def)
  qed
qed

lemma placed_grow:
  assumes "placed p vs m src" "all_grow vs vs'" "\<And>k i. map_of m k = Some i \<Longrightarrow> map_of m' k = Some i"
  shows "placed p vs' m' src"
proof -
  obtain i f where i: "map_of m (si_CleanVersion src) = Some i" "i < length vs"
    "f \<in> set (iv_CapabilityFlavors (vs ! i))" "if_Image f = image_ref p src"
    using assms(1) unfolding placed_def by blast
  have "grows (vs ! i) (vs' ! i)" "i < length vs'" using assms(2) i(2) by (auto simp: all_grow_def)
  then have "f \<in> set (iv_CapabilityFlavors (vs' ! i))" "i < length vs'" using grows_fields i(3) by blast+
  with i assms(3) show ?thesis unfolding placed_def by blast
qed

definition clean_keys :: "IroncoreProvider \<Rightarrow> SourceImage list \<Rightarrow> string set" where
  "clean_keys p srcs = si_CleanVersion ` {src \<in> set srcs. writes_flavor p src}"

lemma loop_placed:
  assumes "points_ok vs m" "agrees C vs m" "\<forall>src\<in>set srcs. si_Version src \<notin> C"
    and "fold_opt (ironcore_step p) (vs, m) srcs = Some (vs', m')"
  shows "agrees C vs' m' \<and> (\<forall>src\<in>set srcs. writes_flavor p src \<longrightarrow> placed p vs' m' src)"
  using assms
proof (induction srcs arbitrary: vs m)
  case (Cons src srcs)
  obtain v1 m1 where 1: "ironcore_step p (vs, m) src = Some (v1, m1)" "points_ok v1 m1"
    "step_post p src vs v1" using ironcore_step_ok [OF Cons.prems(1)] by blast
  have f: "fold_opt (ironcore_step p) (v1, m1) srcs = Some (vs', m')" using Cons.prems(4) 1(1) by simp
  have a: "agrees C v1 m1" using agrees_step [OF Cons.prems(2) _ 1(1)] Cons.prems(3) by simp
  have "all_grow v1 vs'" using ironcore_loop_ok [OF 1(2), of p srcs] f by (auto simp: loop_post_def)
  then have "placed p vs' m' src" if "writes_flavor p src"
    using placed_grow [OF step_placed [OF Cons.prems(1) that 1(1)]] loop_keeps_positions [OF f] by blast
  moreover have "\<forall>s\<in>set srcs. si_Version s \<notin> C" using Cons.prems(3) by simp
  ultimately show ?case using Cons.IH [OF 1(2) a _ f] by simp
qed simp

lemma settled_step:
  assumes "settled p vs src"
  shows "ironcore_step p (vs, index_by iv_Version vs) src = Some (vs, index_by iv_Version vs)"
proof -
  have l: "add_legacy src (image_ref p src) vs (si_Architectures src) = vs"
    using assms by (intro add_legacy_id) (simp add: settled_def step_pairs_def)
  show ?thesis
  proof (cases "writes_flavor p src")
    case True
    then obtain i where i: "map_of (index_by iv_Version vs) (si_CleanVersion src) = Some i" "i < length vs"
      "\<exists>f\<in>set (iv_CapabilityFlavors (vs ! i)). if_Image f = image_ref p src"
      using assms unfolding settled_def by blast
    then have "add_flavor (source_flavor p src) (vs ! i) = vs ! i"
      by (simp add: add_flavor_def source_flavor_def)
    with l i True show ?thesis by (simp add: ironcore_step_def modify_at_def)
  qed (simp add: l ironcore_step_def)
qed

lemma settled_loop:
  "\<forall>src\<in>set srcs. settled p vs src \<Longrightarrow>
   fold_opt (ironcore_step p) (vs, index_by iv_Version vs) srcs = Some (vs, index_by iv_Version vs)"
  by (induction srcs) (simp_all add: settled_step)


end
