(* ===== verification/Status.thy ===== *)
theory Status
  imports ApiTypes GoStrings
begin

section \<open>The status of a ManagedCloudProfile\<close>

text \<open>
  Models \<^verbatim>\<open>applyCondition\<close> and \<^verbatim>\<open>patchStatusAndCondition\<close> of
  \<^verbatim>\<open>controllers/managedcloudprofile_controller.go\<close>, \<^verbatim>\<open>markReconcileFailed\<close> of
  \<^verbatim>\<open>controllers/cloud_profile.go\<close> and \<^verbatim>\<open>truncateConditionMessage\<close> of
  \<^verbatim>\<open>controllers/cloud_profile_helpers.go\<close>. The API server's answer to a patch, the semantic equality of
  apimachinery and the rendering of an error are functions of a record.
\<close>

definition CloudProfileAppliedConditionType :: string where
  "CloudProfileAppliedConditionType = ''CloudProfileApplied''"

definition maxConditionMessageLen :: nat where
  "maxConditionMessageLen = 32768"

definition truncated_suffix :: string where
  "truncated_suffix = ''...[truncated]''"

definition truncateConditionMessage :: "string \<Rightarrow> string" where
  "truncateConditionMessage msg =
     (if length msg \<le> maxConditionMessageLen then msg
      else take (maxConditionMessageLen - length truncated_suffix) msg @ truncated_suffix)"

definition applyCondition :: "time \<Rightarrow> Condition list \<Rightarrow> Condition \<Rightarrow> Condition list" where
  "applyCondition now conditions cond =
     (let (conditions, idx) =
            (case IndexFunc (\<lambda>c. co_Type c = co_Type cond) conditions of
               Some i \<Rightarrow> (conditions, i)
             | None \<Rightarrow> (conditions @ [zero_Condition], length conditions));
          lastTransition =
            (if co_Status (conditions ! idx) \<noteq> co_Status cond then Some now
             else co_LastTransitionTime (conditions ! idx))
      in conditions[idx :=
           \<lparr>co_Type = co_Type cond, co_Status = co_Status cond,
            co_ObservedGeneration = co_ObservedGeneration cond, co_LastTransitionTime = lastTransition,
            co_Reason = co_Reason cond, co_Message = co_Message cond\<rparr>])"

text \<open>
  The status client. A patch sends the difference to the original; its error, if any, is what the
  API server answers.
\<close>

record status_client =
  sc_now :: time
  sc_DeepEqual :: "ManagedCloudProfileStatus \<Rightarrow> ManagedCloudProfileStatus \<Rightarrow> bool"
  sc_Patch :: "ManagedCloudProfile \<Rightarrow> ManagedCloudProfile \<Rightarrow> goerror option"
  sc_show :: "goerror \<Rightarrow> string"

text \<open>
  The result is the profile with its status as the code leaves it in memory, whether a patch was sent, and
  the error.
\<close>

definition patchStatusAndCondition ::
  "status_client \<Rightarrow> ManagedCloudProfile \<Rightarrow> ReconcileStatus \<Rightarrow> Condition
   \<Rightarrow> ManagedCloudProfile \<times> bool \<times> goerror option" where
  "patchStatusAndCondition C mcp status cond =
     (let st = (mcp_Status mcp)\<lparr>st_Status := status\<rparr>;
          st = (if co_Type cond \<noteq> []
                then st\<lparr>st_Conditions := applyCondition (sc_now C) (st_Conditions st) cond\<rparr> else st);
          mcp' = mcp\<lparr>mcp_Status := st\<rparr>
      in if sc_DeepEqual C (mcp_Status mcp) (mcp_Status mcp') then (mcp', False, None)
         else (mcp', True, sc_Patch C mcp mcp'))"

definition failed_condition :: "status_client \<Rightarrow> ManagedCloudProfile \<Rightarrow> goerror \<Rightarrow> Condition" where
  "failed_condition C mcp err =
     \<lparr>co_Type = CloudProfileAppliedConditionType, co_Status = ConditionFalse,
      co_ObservedGeneration = mcp_Generation mcp, co_LastTransitionTime = None,
      co_Reason = ''ApplyFailed'',
      co_Message = truncateConditionMessage (''Failed to apply CloudProfile: '' @ sc_show C err)\<rparr>"

definition markReconcileFailed ::
  "status_client \<Rightarrow> ManagedCloudProfile \<Rightarrow> goerror \<Rightarrow> ManagedCloudProfile \<times> bool \<times> goerror option" where
  "markReconcileFailed C mcp err =
     (case patchStatusAndCondition C mcp FailedReconcileStatus (failed_condition C mcp err) of
        (mcp', sent, None) \<Rightarrow> (mcp', sent, None)
      | (mcp', sent, Some statusErr) \<Rightarrow>
          (mcp', sent, Some (Wrapf ''failed to patch ManagedCloudProfile status: %w'' [] statusErr)))"

subsection \<open>Lemmas\<close>

lemma length_suffix: "length truncated_suffix = 14"
  by (simp add: truncated_suffix_def)

lemma condition_eta:
  "\<lparr>co_Type = co_Type cond, co_Status = co_Status cond, co_ObservedGeneration = co_ObservedGeneration cond,
    co_LastTransitionTime = t, co_Reason = co_Reason cond, co_Message = co_Message cond\<rparr> =
   cond\<lparr>co_LastTransitionTime := t\<rparr>"
  by (cases cond) simp

lemma applyCondition_cases:
  obtains i where "IndexFunc (\<lambda>c. co_Type c = co_Type cond) cs = Some i" "i < length cs"
    "co_Type (cs ! i) = co_Type cond"
    "applyCondition now cs cond = cs[i := cond\<lparr>co_LastTransitionTime :=
       (if co_Status (cs ! i) \<noteq> co_Status cond then Some now else co_LastTransitionTime (cs ! i))\<rparr>]"
  | "IndexFunc (\<lambda>c. co_Type c = co_Type cond) cs = None" "\<forall>c\<in>set cs. co_Type c \<noteq> co_Type cond"
    "applyCondition now cs cond = cs @ [cond\<lparr>co_LastTransitionTime :=
       (if co_Status cond \<noteq> [] then Some now else None)\<rparr>]"
proof (cases "IndexFunc (\<lambda>c. co_Type c = co_Type cond) cs")
  case None
  then show ?thesis
    by (intro that(2)) (simp_all add: applyCondition_def zero_Condition_def condition_eta,
      simp add: IndexFunc_None)
next
  case (Some i)
  from IndexFunc_Some [OF Some] show ?thesis
    by (intro that(1) [OF Some]) (auto simp: applyCondition_def Some condition_eta)
qed

text \<open>The condition of a type.\<close>

definition condition_of :: "Condition list \<Rightarrow> string \<Rightarrow> Condition option" where
  "condition_of cs t = find (\<lambda>c. co_Type c = t) cs"

lemma find_update_first:
  "IndexFunc P xs = Some i \<Longrightarrow> P y \<Longrightarrow> find P (xs[i := y]) = Some y"
proof (induction xs arbitrary: i)
  case (Cons x xs)
  then show ?case by (cases i) (auto split: if_splits)
qed simp

lemma find_index_update:
  "IndexFunc P xs = Some i \<Longrightarrow> P y \<Longrightarrow> IndexFunc P (xs[i := y]) = Some i"
proof (induction xs arbitrary: i)
  case (Cons x xs)
  then show ?case by (cases i) (auto split: if_splits)
qed simp

lemma find_update_other:
  "i < length xs \<Longrightarrow> \<not> P y \<Longrightarrow> \<not> P (xs ! i) \<Longrightarrow> find P (xs[i := y]) = find P xs"
proof (induction xs arbitrary: i)
  case (Cons x xs)
  then show ?case by (cases i) auto
qed simp

lemma find_IndexFunc: "find P xs = map_option ((!) xs) (IndexFunc P xs)"
  by (induction xs) (auto simp: option.map_comp comp_def)

lemma find_append: "find P (xs @ ys) = (case find P xs of None \<Rightarrow> find P ys | Some x \<Rightarrow> Some x)"
  by (induction xs) auto

subsection \<open>Properties\<close>

text \<open>Applying a condition sets the condition of its type, with a new transition time exactly when the
  status changes (or the condition is new), leaves the conditions of all other types as they are, and adds
  at most one condition.\<close>

lemma applyCondition_sets:
  assumes "co_Status cond \<noteq> []"
  shows "condition_of (applyCondition now cs cond) (co_Type cond) =
      Some (cond\<lparr>co_LastTransitionTime :=
        (case condition_of cs (co_Type cond) of
           None \<Rightarrow> Some now
         | Some old \<Rightarrow> if co_Status old = co_Status cond then co_LastTransitionTime old else Some now)\<rparr>) \<and>
    (\<forall>t. t \<noteq> co_Type cond \<longrightarrow> condition_of (applyCondition now cs cond) t = condition_of cs t) \<and>
    length (applyCondition now cs cond) =
      (if condition_of cs (co_Type cond) = None then Suc (length cs) else length cs)"
proof (cases rule: applyCondition_cases [of cond cs now])
  case (1 i)
  then have "condition_of cs (co_Type cond) = Some (cs ! i)" by (simp add: condition_of_def find_IndexFunc)
  with 1 show ?thesis
    using find_update_first [OF 1(1)] find_update_other [OF 1(2)]
    by (auto simp: condition_of_def)
next
  case 2
  then have "condition_of cs (co_Type cond) = None" by (simp add: condition_of_def find_IndexFunc)
  with 2 assms show ?thesis
    by (auto simp: condition_of_def find_append split: option.split)
qed

text \<open>Applying the same condition again, at any later time, changes nothing: the status of a profile
  that keeps failing or succeeding in the same way is not patched over and over.\<close>

lemma applyCondition_settles:
  "applyCondition later (applyCondition now cs cond) cond = applyCondition now cs cond"
proof -
  let ?c = "\<lambda>t. cond\<lparr>co_LastTransitionTime := t\<rparr>"
  have again: "applyCondition later (cs[i := ?c t]) cond = cs[i := ?c t]"
    if "IndexFunc (\<lambda>c. co_Type c = co_Type cond) (cs[i := ?c t]) = Some i" "i < length cs" for cs i t
    using that by (simp add: applyCondition_def condition_eta)
  show ?thesis
  proof (cases rule: applyCondition_cases [of cond cs now])
    case (1 i)
    have "IndexFunc (\<lambda>c. co_Type c = co_Type cond) (cs[i := ?c t]) = Some i" for t
      using find_index_update [OF 1(1)] by simp
    with again 1 show ?thesis by simp
  next
    case 2
    let ?t = "if co_Status cond \<noteq> [] then Some now else None"
    have "IndexFunc (\<lambda>c. co_Type c = co_Type cond) (cs @ [?c ?t]) = Some (length cs)"
      using 2(1) by (simp add: IndexFunc_append)
    then show ?thesis unfolding 2(3) by (simp add: applyCondition_def nth_append condition_eta)
  qed
qed

text \<open>The message of a condition never exceeds the 32768 bytes that the API server accepts; a message
  within the limit is not changed, and a longer one keeps its first 32754 bytes and says that it was cut.\<close>

lemma truncateConditionMessage_bound:
  "length (truncateConditionMessage msg) \<le> 32768 \<and>
   (length msg \<le> 32768 \<longrightarrow> truncateConditionMessage msg = msg) \<and>
   (32768 < length msg \<longrightarrow> truncateConditionMessage msg = take 32754 msg @ ''...[truncated]'')"
  unfolding truncateConditionMessage_def length_suffix maxConditionMessageLen_def
  by (auto simp: truncated_suffix_def min_def)

end
