(* ===== verification/Reconciler.thy ===== *)
theory Reconciler
  imports OciSource GlanceSource Landscape OpenStackProvider IroncoreProvider Status
begin

section \<open>The reconciler\<close>

text \<open>
  Models \<^verbatim>\<open>controllers/cloud_profile.go\<close>, \<^verbatim>\<open>controllers/cloud_profile_helpers.go\<close> and
  \<^verbatim>\<open>controllers/managedcloudprofile_controller.go\<close>: choosing source and provider of an update, preparing the
  machine images and the Kubernetes versions, writing the CloudProfile, and the status. The Kubernetes
  client, the OpenStack and registry clients, the JSON codecs and the clock are the fields of the record
  \<open>env\<close>. The clock is read at four places, each with a value of its own.
\<close>

datatype clock_read = GCClock MachineImageUpdate | GlanceClock GlanceSource | K8sClock

type_synonym Source = "SourceImage list outcome" \<comment> \<open>what \<^verbatim>\<open>GetVersions\<close> answers\<close>

type_synonym OCISourceFactory =
  "Params \<Rightarrow> int64 \<Rightarrow> (string, string) gomap \<Rightarrow> ImageFilter option \<Rightarrow> Source outcome"

record 'v env =
  en_semver :: "'v semver"
  en_clock :: "clock_read \<Rightarrow> time"
  en_GetMCP :: "string \<Rightarrow> goerror + ManagedCloudProfile"
  en_IsNotFound :: "goerror \<Rightarrow> bool"
  en_IsInvalid :: "goerror \<Rightarrow> bool"
  en_ListShoots :: "goerror + Shoot list"
  en_GetSecret :: "string \<Rightarrow> string \<Rightarrow> goerror + (string, string) gomap" \<comment> \<open>name, namespace\<close>
  en_SetControllerReference :: "ManagedCloudProfile \<Rightarrow> CloudProfile \<Rightarrow> goerror + CloudProfile"
  en_SetDefaults :: "CloudProfile \<Rightarrow> CloudProfile"
  en_CreateOrPatch :: "CloudProfile \<Rightarrow> (CloudProfile \<Rightarrow> CloudProfile outcome) \<Rightarrow> CloudProfile outcome"
  en_status :: status_client
  en_OCISourceFactory :: OCISourceFactory
  en_RegistryProviderFunc :: "string \<Rightarrow> RegistryClient outcome"
  en_EnableCapabilities :: bool
  en_gophercloud :: gophercloud
  en_glance_order :: "(string, SourceImage) gomap \<Rightarrow> (string, SourceImage) gomap"
  en_glance_deliver :: "Glance \<Rightarrow> (goerror + SourceImage list) list"
  en_openstack_codec :: "OSConfig codec"
  en_ironcore_codec :: "IMConfig codec"
  en_NewRepository :: "string \<Rightarrow> goerror option"
  en_landscape_repo :: "remote_config \<Rightarrow> landscape_repo"
  en_version_order :: "string list \<Rightarrow> string list" \<comment> \<open>iteration order of the set of Gardener versions\<close>

subsection \<open>Sources and providers\<close>

text \<open>
  The default factory: a failed \<^verbatim>\<open>NewOCI\<close> is its error, a created source answers \<^verbatim>\<open>GetVersions\<close> with
  what its goroutines deliver.
\<close>

definition DefaultOCISourceFactory_Create ::
  "(string \<Rightarrow> goerror option) \<Rightarrow> (remote_config \<Rightarrow> repository)
   \<Rightarrow> (OCISource \<Rightarrow> string list \<Rightarrow> result list) \<Rightarrow> OCISourceFactory" where
  "DefaultOCISourceFactory_Create NewRepository connect deliver params permits featureToCapabilityMap imageFilter =
     bindO (NewOCI NewRepository connect params permits featureToCapabilityMap imageFilter)
       (\<lambda>src. Ok (oci_GetVersions src (deliver src)))"

definition getCredential :: "'v env \<Rightarrow> SecretReference \<Rightarrow> string outcome" where
  "getCredential r ref =
     (if sr_Name ref = [] then Ok []
      else (case en_GetSecret r (sr_Name ref) (sr_Namespace ref) of
              Inl err \<Rightarrow> Fail (Wrapf ''failed to get secret: %w'' [] err)
            | Inr data \<Rightarrow>
                (case map_of data (sr_Key ref) of
                   None \<Rightarrow> Fail (Errorf ''secret %s/%s does not have key %s''
                             [FStr (sr_Namespace ref), FStr (sr_Name ref), FStr (sr_Key ref)])
                 | Some v \<Rightarrow> Ok v)))"

definition newOCISource :: "'v env \<Rightarrow> OCI \<Rightarrow> Source outcome" where
  "newOCISource r src =
     bindO (getCredential r (oci_Password src)) (\<lambda>password.
       wrapO ''failed to initialize OCI source: %w'' []
         (en_OCISourceFactory r
            \<lparr>pr_Registry = oci_Registry src, pr_Repository = oci_Repository src,
             pr_Username = oci_Username src, pr_Password = password, pr_Insecure = oci_Insecure src\<rparr>
            1 (oci_FeatureToCapabilityMap src) (oci_ImageFilter src)))"

definition glance_params :: "GlanceSource \<Rightarrow> string \<Rightarrow> GlanceParams" where
  "glance_params g password =
     \<lparr>gp_AuthURLFormat = gl_AuthURLFormat g, gp_Regions = gl_Regions g, gp_NamePrefix = gl_NamePrefix g,
      gp_KeepLatest = gl_KeepLatest g, gp_Parallel = gl_Parallel g, gp_VersionOffset = gl_VersionOffset g,
      gp_ExcludedSuffixes = gl_ExcludedSuffixes g, gp_RequireAllRegions = gl_RequireAllRegions g,
      gp_ProjectName = gl_ProjectName g, gp_ProjectDomainName = gl_ProjectDomainName g,
      gp_Username = gl_Username g, gp_UserDomainName = gl_UserDomainName g, gp_Password = password\<rparr>"

definition newGlanceSource :: "'v env \<Rightarrow> GlanceSource \<Rightarrow> Source outcome" where
  "newGlanceSource r g =
     bindO (getCredential r (gl_PasswordSecret g)) (\<lambda>password.
     bindO (wrapO ''failed to initialize Glance source: %w'' []
              (NewGlance (en_gophercloud r) (glance_params g password))) (\<lambda>source.
     Ok (glance_GetVersions (en_semver r) source (en_clock r (GlanceClock g)) (en_glance_order r)
           (en_glance_deliver r source))))"

definition selectSource :: "'v env \<Rightarrow> MachineImageUpdateSource \<Rightarrow> Source outcome" where
  "selectSource r src =
     (case us_OCI src of
        Some oci \<Rightarrow> newOCISource r oci
      | None \<Rightarrow>
          (case us_Glance src of
             Some g \<Rightarrow> newGlanceSource r g
           | None \<Rightarrow> Fail (Errorf ''no machine images source configured'' [])))"

definition selectProvider :: "'v env \<Rightarrow> MachineImageUpdate \<Rightarrow> Configure outcome" where
  "selectProvider r update =
     (case up_IroncoreMetal (mu_Provider update) of
        Some im \<Rightarrow>
          Ok (ironcore_Configure (en_ironcore_codec r)
                \<lparr>ip_Registry = im_Registry im, ip_Repository = im_Repository im,
                 ip_ImageName = mu_ImageName update, ip_EnableCapabilities = en_EnableCapabilities r\<rparr>)
      | None \<Rightarrow>
          (case up_OpenStack (mu_Provider update) of
             Some _ \<Rightarrow>
               Ok (openstack_Configure (en_openstack_codec r)
                     \<lparr>op_ImageName = mu_ImageName update, op_EnableCapabilities = en_EnableCapabilities r\<rparr>)
           | None \<Rightarrow> Fail (Errorf ''no known provider configured'' [])))"

definition landscapeSetupSource :: "'v env \<Rightarrow> LandscapeSetup \<Rightarrow> FetchVersions outcome" where
  "landscapeSetupSource r ls =
     bindO (wrapO ''getting oci password: %w'' [] (getCredential r (oci_Password (ls_OCI ls)))) (\<lambda>ociPassword.
     bindO (wrapO ''initializing landscape source: %w'' []
              (NewLandscapeKubernetesSource (en_NewRepository r) (en_landscape_repo r)
                 \<lparr>pr_Registry = oci_Registry (ls_OCI ls), pr_Repository = oci_Repository (ls_OCI ls),
                  pr_Username = oci_Username (ls_OCI ls), pr_Password = ociPassword,
                  pr_Insecure = oci_Insecure (ls_OCI ls)\<rparr> (ls_Provider ls))) (\<lambda>s.
     Ok (landscape_FetchVersions (en_semver r) s)))"

text \<open>The set of versions, visited in the order of one \<^verbatim>\<open>range\<close> loop.\<close>

fun version_set :: "Shoot list \<Rightarrow> string list \<Rightarrow> string list" where
  "version_set [] versionSet = versionSet"
| "version_set (s # shoots) versionSet =
     version_set shoots
       (if sh_GardenerVersion s = [] \<or> sh_GardenerVersion s \<in> set versionSet then versionSet
        else versionSet @ [sh_GardenerVersion s])"

definition version_cmp :: "'v semver \<Rightarrow> string \<times> 'v \<Rightarrow> string \<times> 'v \<Rightarrow> int" where
  "version_cmp L a b = sv_Compare L (snd a) (snd b)"

definition gardenerVersionFromShoots :: "'v env \<Rightarrow> Shoot list \<Rightarrow> string outcome" where
  "gardenerVersionFromShoots r shoots =
     (let L = en_semver r;
          entries = parse_tags L (en_version_order r (version_set shoots []))
      in if length entries = 0 then Fail ErrNoShoots
         else (case SortFunc (version_cmp L) entries of [] \<Rightarrow> Panic | e # es \<Rightarrow> Ok (fst e)))"

subsection \<open>Preparing an update\<close>

definition ValidateMinVersionForUpdate :: "'v semver \<Rightarrow> string \<Rightarrow> goerror option" where
  "ValidateMinVersionForUpdate L v =
     (case sv_Parse L v of
        Inl err \<Rightarrow> Some (Wrapf ''minVersionForUpdate %q is not valid semver: %w'' [FStr v] err)
      | Inr _ \<Rightarrow> None)"

text \<open>An error of the garbage collection filter is logged and the update goes on without a filter.\<close>

definition gc_filter_of :: "GCFilter option outcome \<Rightarrow> (SourceImage list \<Rightarrow> SourceImage list) option outcome" where
  "gc_filter_of f =
     (case f of
        Ok None \<Rightarrow> Ok None
      | Ok (Some flt) \<Rightarrow> Ok (Some (Filter flt))
      | Fail err \<Rightarrow> Ok None
      | Panic \<Rightarrow> Panic)"

definition prepareMachineImageUpdate ::
  "'v env \<Rightarrow> ManagedCloudProfile \<Rightarrow> Shoot list option \<Rightarrow> MachineImage list \<Rightarrow> RawExtension option
   \<Rightarrow> MachineImageUpdate \<Rightarrow> (MachineImage list \<times> RawExtension option) outcome" where
  "prepareMachineImageUpdate r mcp shoots baseImages baseProviderConfig update =
     (case (case mu_MinVersionForUpdate update of
              None \<Rightarrow> None | Some v \<Rightarrow> ValidateMinVersionForUpdate (en_semver r) v) of
        Some err \<Rightarrow> Fail err
      | None \<Rightarrow>
          bindO (selectSource r (mu_Source update)) (\<lambda>source.
          bindO (selectProvider r update) (\<lambda>provider.
          bindO (gc_filter_of (buildGCFilter (en_RegistryProviderFunc r) (en_clock r (GCClock update))
                                 mcp shoots update)) (\<lambda>flt.
          let updater = \<lparr>iu_Source = source, iu_Provider = Some provider, iu_ImageName = mu_ImageName update,
                         iu_EnableCapabilities = en_EnableCapabilities r,
                         iu_MinVersionForUpdate = mu_MinVersionForUpdate update, iu_Filter = flt\<rparr> in
          bindO (wrapO ''fetching machine images failed: %w'' [] (Fetch (en_semver r) updater))
            (\<lambda>sourceImages.
          wrapO ''applying machine images failed: %w'' []
            (Apply (en_semver r) updater (cs_MachineCapabilities (ms_CloudProfile (mcp_Spec mcp)))
               baseImages baseProviderConfig sourceImages))))))"

definition prepareKubernetesUpdate ::
  "'v env \<Rightarrow> KubernetesVersionUpdateConfig \<Rightarrow> Shoot list option \<Rightarrow> ExpirableVersion list outcome" where
  "prepareKubernetesUpdate r cfg shoots =
     (case ku_LandscapeSetup cfg of
        None \<Rightarrow> Fail (Errorf ''no kubernetes version source configured'' [])
      | Some ls \<Rightarrow>
          bindO (wrapO ''getting landscape setup source: %w'' [] (landscapeSetupSource r ls)) (\<lambda>source.
          case shoots of
            None \<Rightarrow> Panic
          | Some items \<Rightarrow>
              bindO (case gardenerVersionFromShoots r items of
                       Ok v \<Rightarrow> Ok (Some v)
                     | Fail err \<Rightarrow>
                         if \<not> errors_Is err ErrNoShoots
                         then Fail (Wrapf ''resolving Gardener version: %w'' [] err) else Ok None
                     | Panic \<Rightarrow> Panic) (\<lambda>gardenerVersion.
              let updater = NewKubernetesVersionUpdater source (ku_ExpirationThreshold cfg) in
              bindO (wrapO ''fetching kubernetes versions failed: %w'' [] (k8s_Fetch updater gardenerVersion))
                (\<lambda>fetched.
              wrapO ''applying kubernetes versions failed: %w'' []
                (k8s_Apply updater (en_clock r K8sClock) fetched)))))"

subsection \<open>Writing the CloudProfile\<close>

definition expirationDateKey :: "string \<Rightarrow> string \<Rightarrow> string" where
  "expirationDateKey imageName version = imageName @ ''/'' @ version"

fun stored_versions :: "string \<Rightarrow> MachineImageVersion list \<Rightarrow> (string, time) gomap \<Rightarrow> (string, time) gomap" where
  "stored_versions name [] stored = stored"
| "stored_versions name (v # vs) stored =
     stored_versions name vs
       (case mv_ExpirationDate v of
          None \<Rightarrow> stored | Some t \<Rightarrow> map_put (expirationDateKey name (mv_Version v)) t stored)"

fun stored_dates :: "MachineImage list \<Rightarrow> (string, time) gomap \<Rightarrow> (string, time) gomap" where
  "stored_dates [] stored = stored"
| "stored_dates (img # imgs) stored =
     stored_dates imgs (stored_versions (mi_Name img) (mi_Versions img) stored)"

definition carry_version :: "(string, time) gomap \<Rightarrow> string \<Rightarrow> MachineImageVersion \<Rightarrow> MachineImageVersion" where
  "carry_version stored name v =
     (let isDeprecated = (mv_Classification v = Some ClassificationDeprecated) in
      if \<not> isDeprecated then v
      else (case map_of stored (expirationDateKey name (mv_Version v)) of
              Some exp \<Rightarrow> v\<lparr>mv_ExpirationDate := Some exp\<rparr>
            | None \<Rightarrow> v))"

definition carryExpirationDates :: "MachineImage list \<Rightarrow> MachineImage list \<Rightarrow> MachineImage list" where
  "carryExpirationDates existing next_imgs =
     (let stored = stored_dates existing [] in
      map (\<lambda>img. img\<lparr>mi_Versions := map (carry_version stored (mi_Name img)) (mi_Versions img)\<rparr>) next_imgs)"

definition copyStaticSpecFields :: "GardenerCloudProfileSpec \<Rightarrow> CloudProfileSpec \<Rightarrow> GardenerCloudProfileSpec" where
  "copyStaticSpecFields dst src =
     dst\<lparr>gs_CABundle := cs_CABundle src, gs_Kubernetes := cs_Kubernetes src,
         gs_MachineTypes := cs_MachineTypes src, gs_Regions := cs_Regions src,
         gs_SeedSelector := cs_SeedSelector src, gs_Type := cs_Type src,
         gs_VolumeTypes := cs_VolumeTypes src, gs_Bastion := cs_Bastion src, gs_Limits := cs_Limits src,
         gs_MachineCapabilities := cs_MachineCapabilities src, gs_ControlPlane := cs_ControlPlane src\<rparr>"

definition CloudProfileSpecToGardener :: "CloudProfileSpec \<Rightarrow> GardenerCloudProfileSpec" where
  "CloudProfileSpecToGardener spec =
     \<lparr>gs_CABundle = cs_CABundle spec, gs_Kubernetes = cs_Kubernetes spec,
      gs_MachineImages = cs_MachineImages spec, gs_MachineTypes = cs_MachineTypes spec,
      gs_ProviderConfig = cs_ProviderConfig spec, gs_Regions = cs_Regions spec,
      gs_SeedSelector = cs_SeedSelector spec, gs_Type = cs_Type spec, gs_VolumeTypes = cs_VolumeTypes spec,
      gs_Bastion = cs_Bastion spec, gs_Limits = cs_Limits spec,
      gs_MachineCapabilities = cs_MachineCapabilities spec, gs_ControlPlane = cs_ControlPlane spec\<rparr>"

text \<open>The mutate function that is given to \<^verbatim>\<open>CreateOrPatch\<close>.\<close>

definition mutate_profile ::
  "'v env \<Rightarrow> ManagedCloudProfile \<Rightarrow> MachineImage list \<Rightarrow> RawExtension option \<Rightarrow> ExpirableVersion list
   \<Rightarrow> CloudProfile \<Rightarrow> CloudProfile outcome" where
  "mutate_profile r mcp imgs providerConfig versions cloudProfile =
     (case en_SetControllerReference r mcp cloudProfile of
        Inl err \<Rightarrow> Fail err
      | Inr cloudProfile \<Rightarrow>
          (let base = ms_CloudProfile (mcp_Spec mcp);
               spec = copyStaticSpecFields (cp_Spec cloudProfile) base;
               (imgs, providerConfig) =
                 (if ms_MachineImagesPaused (mcp_Spec mcp) then
                    (if length (gs_MachineImages spec) = 0
                     then (cs_MachineImages base, cs_ProviderConfig base)
                     else (gs_MachineImages spec, gs_ProviderConfig spec))
                  else (imgs, providerConfig));
               imgs = carryExpirationDates (gs_MachineImages spec) imgs;
               spec = spec\<lparr>gs_MachineImages := imgs, gs_ProviderConfig := providerConfig\<rparr>;
               spec = (if ms_KubernetesUpdate (mcp_Spec mcp) \<noteq> None
                       then spec\<lparr>gs_Kubernetes := (gs_Kubernetes spec)\<lparr>ks_Versions := versions\<rparr>\<rparr> else spec)
           in Ok (en_SetDefaults r (cloudProfile\<lparr>cp_Spec := spec\<rparr>))))"

subsection \<open>Reconciling\<close>

text \<open>
  What a reconciliation leaves behind: the CloudProfile that was written, if any, the profile with the
  status the code computed last, whether a status patch was issued, and how it ended. \<open>re_mcp\<close> is the profile
  in memory with its status; its specification is only as it was read: \<^verbatim>\<open>Apply\<close> may write into the machine images
  there (theory \<open>ImageMemory\<close> says what), but nothing reads them after that, as the base images go into the
  CloudProfile only while updates are paused, and they are not sent, as the patch is of the status.
\<close>

record reconciled =
  re_written :: "CloudProfile option"
  re_mcp :: ManagedCloudProfile
  re_patched :: bool
  re_outcome :: "unit outcome"

definition fail_with :: "'v env \<Rightarrow> ManagedCloudProfile \<Rightarrow> goerror \<Rightarrow> unit outcome \<Rightarrow> reconciled" where
  "fail_with r mcp err end_outcome =
     (case markReconcileFailed (en_status r) mcp err of
        (mcp', issued, Some statusErr) \<Rightarrow>
          \<lparr>re_written = None, re_mcp = mcp', re_patched = issued, re_outcome = Fail statusErr\<rparr>
      | (mcp', issued, None) \<Rightarrow>
          \<lparr>re_written = None, re_mcp = mcp', re_patched = issued, re_outcome = end_outcome\<rparr>)"

definition panic_with :: "ManagedCloudProfile \<Rightarrow> reconciled" where
  "panic_with mcp = \<lparr>re_written = None, re_mcp = mcp, re_patched = False, re_outcome = Panic\<rparr>"

fun prepare_updates ::
  "'v env \<Rightarrow> ManagedCloudProfile \<Rightarrow> Shoot list option \<Rightarrow> MachineImageUpdate list
   \<Rightarrow> MachineImage list \<times> RawExtension option \<Rightarrow> (MachineImage list \<times> RawExtension option) outcome" where
  "prepare_updates r mcp shoots [] st = Ok st"
| "prepare_updates r mcp shoots (update # updates) (imgs, providerConfig) =
     bindO (prepareMachineImageUpdate r mcp shoots imgs providerConfig update)
       (prepare_updates r mcp shoots updates)"

definition succeeded_condition :: "ManagedCloudProfile \<Rightarrow> Condition" where
  "succeeded_condition mcp =
     \<lparr>co_Type = CloudProfileAppliedConditionType, co_Status = ConditionTrue,
      co_ObservedGeneration = mcp_Generation mcp, co_LastTransitionTime = None, co_Reason = ''Applied'',
      co_Message = ''Generated CloudProfile applied successfully''\<rparr>"

definition new_profile :: "ManagedCloudProfile \<Rightarrow> CloudProfile" where
  "new_profile mcp = \<lparr>cp_Name = mcp_Name mcp, cp_meta = [], cp_Spec = zero_CloudProfileSpec\<rparr>"

definition needShoots :: "ManagedCloudProfile \<Rightarrow> bool" where
  "needShoots mcp =
     (let spec = mcp_Spec mcp;
          needShootsForGC =
            (case ms_GarbageCollection spec of None \<Rightarrow> False | Some gc \<Rightarrow> gc_Enabled gc) \<and>
            \<not> ms_MachineImagesPaused spec;
          needShootsForK8s = (ms_KubernetesUpdate spec \<noteq> None)
      in needShootsForGC \<or> needShootsForK8s)"

definition apply_profile ::
  "'v env \<Rightarrow> ManagedCloudProfile \<Rightarrow> MachineImage list \<Rightarrow> RawExtension option \<Rightarrow> ExpirableVersion list
   \<Rightarrow> reconciled" where
  "apply_profile r mcp imgs providerConfig versions =
     (case en_CreateOrPatch r (new_profile mcp) (mutate_profile r mcp imgs providerConfig versions) of
        Panic \<Rightarrow> panic_with mcp
      | Fail err \<Rightarrow>
          fail_with r mcp err
            (if en_IsInvalid r err then Ok ()
             else Fail (Wrapf ''failed to create or patch CloudProfile: %w'' [] err))
      | Ok cloudProfile \<Rightarrow>
          (case patchStatusAndCondition (en_status r) mcp SucceededReconcileStatus (succeeded_condition mcp) of
             (mcp', issued, None) \<Rightarrow>
               \<lparr>re_written = Some cloudProfile, re_mcp = mcp', re_patched = issued, re_outcome = Ok ()\<rparr>
           | (mcp', issued, Some statusErr) \<Rightarrow>
               \<lparr>re_written = Some cloudProfile, re_mcp = mcp', re_patched = issued,
                re_outcome = Fail (Wrapf ''failed to patch ManagedCloudProfile status: %w'' [] statusErr)\<rparr>))"

definition reconcile_with_shoots :: "'v env \<Rightarrow> ManagedCloudProfile \<Rightarrow> Shoot list option \<Rightarrow> reconciled" where
  "reconcile_with_shoots r mcp shoots =
     (let spec = mcp_Spec mcp; base = ms_CloudProfile spec in
      case (if \<not> ms_MachineImagesPaused spec
            then prepare_updates r mcp shoots (ms_MachineImageUpdates spec)
                   (cs_MachineImages base, cs_ProviderConfig base)
            else Ok ([], None)) of
        Panic \<Rightarrow> panic_with mcp
      | Fail err \<Rightarrow> fail_with r mcp err (Fail err)
      | Ok (imgs, providerConfig) \<Rightarrow>
          (case (case ms_KubernetesUpdate spec of
                   None \<Rightarrow> Ok [] | Some cfg \<Rightarrow> prepareKubernetesUpdate r cfg shoots) of
             Panic \<Rightarrow> panic_with mcp
           | Fail err \<Rightarrow> fail_with r mcp err (Fail err)
           | Ok versions \<Rightarrow> apply_profile r mcp imgs providerConfig versions))"

definition reconcileCloudProfile :: "'v env \<Rightarrow> ManagedCloudProfile \<Rightarrow> reconciled" where
  "reconcileCloudProfile r mcp =
     (if needShoots mcp then
        (case en_ListShoots r of
           Inl err \<Rightarrow>
             \<lparr>re_written = None, re_mcp = mcp, re_patched = False,
              re_outcome = Fail (Wrapf ''failed to list Shoots: %w'' [] err)\<rparr>
         | Inr shoots \<Rightarrow> reconcile_with_shoots r mcp (Some shoots))
      else reconcile_with_shoots r mcp None)"

text \<open>\<^verbatim>\<open>Reconcile\<close>: the requeue delay (in nanoseconds, 0 for none) or the error.\<close>

definition Reconcile :: "'v env \<Rightarrow> string \<Rightarrow> duration outcome" where
  "Reconcile r name =
     (case en_GetMCP r name of
        Inl err \<Rightarrow> if en_IsNotFound r err then Ok 0 else Fail err
      | Inr mcp \<Rightarrow>
          (case re_outcome (reconcileCloudProfile r mcp) of
             Ok _ \<Rightarrow> Ok (5 * 60 * 1000000000)
           | Fail err \<Rightarrow> Fail err
           | Panic \<Rightarrow> Panic))"

text \<open>The defaults that \<^verbatim>\<open>SetupWithManager\<close> puts in place of a missing factory or registry function.\<close>

definition setup_defaults ::
  "'v env \<Rightarrow> OCISourceFactory option \<Rightarrow> (string \<Rightarrow> RegistryClient outcome) option
   \<Rightarrow> OCISourceFactory \<Rightarrow> http \<Rightarrow> (string \<Rightarrow> string) \<Rightarrow> 'v env" where
  "setup_defaults r factory registry default_factory H unicode =
     r\<lparr>en_OCISourceFactory := (case factory of None \<Rightarrow> default_factory | Some f \<Rightarrow> f),
       en_RegistryProviderFunc := (case registry of None \<Rightarrow> getRegistryProvider H unicode | Some f \<Rightarrow> f)\<rparr>"

end
