(* ===== verification/ReconcilerProps.thy ===== *)
theory ReconcilerProps
  imports Reconciler
begin

section \<open>What a reconciliation promises\<close>

text \<open>
  Carrying expiration dates over, keeping paused images, the Gardener version of the shoots, the status, and
  the absence of panics, among them the dereference of a nil list of shoots.
\<close>

subsection \<open>Keys and stored dates\<close>

lemma last_slash_unique:
  assumes "CHR ''/'' \<notin> set v" "CHR ''/'' \<notin> set w" "a @ CHR ''/'' # v = b @ CHR ''/'' # w"
  shows "a = b \<and> v = w"
proof -
  have split: "takeWhile (\<lambda>c. c \<noteq> CHR ''/'') (rev u @ CHR ''/'' # r) = rev u" if "CHR ''/'' \<notin> set u" for u r :: string
    using that by (subst takeWhile_append2) auto
  have r: "rev v @ CHR ''/'' # rev a = rev w @ CHR ''/'' # rev b"
    using arg_cong [OF assms(3), of rev] by simp
  have "rev v = rev w" using split [OF assms(1)] split [OF assms(2)] r by metis
  with assms(3) show ?thesis by simp
qed

lemma expirationDateKey_eq:
  "CHR ''/'' \<notin> set v \<Longrightarrow> CHR ''/'' \<notin> set w \<Longrightarrow>
   expirationDateKey n v = expirationDateKey m w \<longleftrightarrow> n = m \<and> v = w"
  using last_slash_unique [of v w n m] by (auto simp: expirationDateKey_def)

text \<open>The versions of all images with the name of their image, and their dates.\<close>

definition entries :: "MachineImage list \<Rightarrow> (string \<times> MachineImageVersion) list" where
  "entries imgs = concat (map (\<lambda>img. map (Pair (mi_Name img)) (mi_Versions img)) imgs)"

definition dated :: "(string \<times> MachineImageVersion) list \<Rightarrow> (string \<times> time) list" where
  "dated es = List.map_filter
     (\<lambda>(n, v). map_option (Pair (expirationDateKey n (mv_Version v))) (mv_ExpirationDate v)) es"

lemma dated_simps [simp]:
  "dated [] = []"
  "dated ((n, v) # es) =
     (case mv_ExpirationDate v of None \<Rightarrow> dated es
      | Some t \<Rightarrow> (expirationDateKey n (mv_Version v), t) # dated es)"
  by (auto simp: dated_def List.map_filter_simps split: option.split)

lemma dated_append [simp]: "dated (es @ fs) = dated es @ dated fs"
  by (induction es) (auto split: option.split)

lemma stored_versions_map:
  "map_of (stored_versions n vs m) = map_of m ++ map_of (rev (dated (map (Pair n) vs)))"
  by (induction n vs m rule: stored_versions.induct)
    (auto simp: map_of_map_put map_add_def fun_eq_iff split: option.split)

lemma stored_dates_map: "map_of (stored_dates imgs m) = map_of m ++ map_of (rev (dated (entries imgs)))"
  by (induction imgs m rule: stored_dates.induct)
    (simp_all add: stored_versions_map entries_def map_add_assoc)

lemma set_dated:
  "(k, t) \<in> set (dated es) \<longleftrightarrow>
     (\<exists>(n, v)\<in>set es. k = expirationDateKey n (mv_Version v) \<and> mv_ExpirationDate v = Some t)"
proof (induction es)
  case (Cons e es)
  obtain n v where e: "e = (n, v)" by (cases e)
  show ?case using Cons.IH by (cases "mv_ExpirationDate v") (auto simp: e)
qed simp

text \<open>Versions contain no slash (they are semantic versions); then a key names one image and version.\<close>

definition slash_free :: "MachineImage list \<Rightarrow> bool" where
  "slash_free imgs \<longleftrightarrow> (\<forall>(n, v)\<in>set (entries imgs). CHR ''/'' \<notin> set (mv_Version v))"

definition entries_distinct :: "MachineImage list \<Rightarrow> bool" where
  "entries_distinct imgs \<longleftrightarrow> distinct (map (\<lambda>(n, v). (n, mv_Version v)) (entries imgs))"

lemma stored_date:
  assumes "slash_free imgs" "CHR ''/'' \<notin> set w"
  shows "map_of (stored_dates imgs []) (expirationDateKey n w) = Some t \<Longrightarrow>
      \<exists>v. (n, v) \<in> set (entries imgs) \<and> mv_Version v = w \<and> mv_ExpirationDate v = Some t"
    and "map_of (stored_dates imgs []) (expirationDateKey n w) = None \<Longrightarrow>
      \<forall>v. (n, v) \<in> set (entries imgs) \<and> mv_Version v = w \<longrightarrow> mv_ExpirationDate v = None"
proof -
  have m: "map_of (stored_dates imgs []) = map_of (rev (dated (entries imgs)))"
    by (simp add: stored_dates_map)
  {
    assume "map_of (stored_dates imgs []) (expirationDateKey n w) = Some t"
    then have "(expirationDateKey n w, t) \<in> set (dated (entries imgs))"
      unfolding m by (metis map_of_SomeD set_rev)
    then obtain n' v where v: "(n', v) \<in> set (entries imgs)"
      "expirationDateKey n w = expirationDateKey n' (mv_Version v)" "mv_ExpirationDate v = Some t"
      by (auto simp: set_dated)
    have "CHR ''/'' \<notin> set (mv_Version v)" using v(1) assms(1) by (auto simp: slash_free_def)
    with v(2) assms(2) have "n = n'" "w = mv_Version v" by (simp_all add: expirationDateKey_eq)
    with v show "\<exists>v. (n, v) \<in> set (entries imgs) \<and> mv_Version v = w \<and> mv_ExpirationDate v = Some t" by blast
  }
  {
    assume none: "map_of (stored_dates imgs []) (expirationDateKey n w) = None"
    show "\<forall>v. (n, v) \<in> set (entries imgs) \<and> mv_Version v = w \<longrightarrow> mv_ExpirationDate v = None"
    proof (intro allI impI)
      fix v assume v: "(n, v) \<in> set (entries imgs) \<and> mv_Version v = w"
      have "expirationDateKey n w \<notin> fst ` set (dated (entries imgs))"
        using none unfolding m by (simp add: map_of_eq_None_iff)
      then have "(expirationDateKey n w, t) \<notin> set (dated (entries imgs))" for t by force
      with v show "mv_ExpirationDate v = None" by (cases "mv_ExpirationDate v") (auto simp: set_dated)
    qed
  }
qed

subsection \<open>Carrying dates\<close>

lemma carry_version_simps [simp]:
  "mv_Version (carry_version st n v) = mv_Version v"
  "mv_Classification (carry_version st n v) = mv_Classification v"
  "mv_other (carry_version st n v) = mv_other v"
  by (simp_all add: carry_version_def split: option.split)

lemma carry_version_idem [simp]: "carry_version st n (carry_version st n v) = carry_version st n v"
  by (auto simp: carry_version_def split: option.split)

lemma carry_idem:
  "carryExpirationDates existing (carryExpirationDates existing imgs) = carryExpirationDates existing imgs"
  by (simp add: carryExpirationDates_def Let_def comp_def)

lemma entries_mem: "(n, v) \<in> set (entries imgs) \<longleftrightarrow> (\<exists>img\<in>set imgs. mi_Name img = n \<and> v \<in> set (mi_Versions img))"
  by (auto simp: entries_def)

lemma distinct_entry:
  assumes "entries_distinct imgs" "(n, v) \<in> set (entries imgs)" "(n, w) \<in> set (entries imgs)"
    "mv_Version v = mv_Version w"
  shows "v = w"
proof -
  have "inj_on (\<lambda>(n, v). (n, mv_Version v)) (set (entries imgs))"
    using assms(1) by (simp add: entries_distinct_def distinct_map)
  from inj_onD [OF this _ assms(2,3)] assms(4) show ?thesis by simp
qed

lemma carry_self:
  assumes "slash_free imgs" "entries_distinct imgs"
  shows "carryExpirationDates imgs imgs = imgs"
proof -
  let ?st = "stored_dates imgs []"
  have same: "carry_version ?st (mi_Name img) v = v" if iv: "img \<in> set imgs" "v \<in> set (mi_Versions img)" for img v
  proof (cases "map_of ?st (expirationDateKey (mi_Name img) (mv_Version v))")
    case (Some t)
    have e: "(mi_Name img, v) \<in> set (entries imgs)" using iv by (auto simp: entries_mem)
    then have "CHR ''/'' \<notin> set (mv_Version v)" using assms(1) by (auto simp: slash_free_def)
    from stored_date(1) [OF assms(1) this Some] obtain w where
      "(mi_Name img, w) \<in> set (entries imgs)" "mv_Version w = mv_Version v" "mv_ExpirationDate w = Some t" by blast
    with distinct_entry [OF assms(2) e this(1)] have "mv_ExpirationDate v = Some t" by simp
    with Some show ?thesis by (simp add: carry_version_def)
  qed (simp add: carry_version_def)
  show ?thesis
    unfolding carryExpirationDates_def Let_def
    by (rule map_idI) (simp add: same map_idI)
qed

text \<open>C9 expiration_is_sticky. The date on which a deprecated version expires never moves: when the CloudProfile has a version with
  an expiration date and the next images have that version of that image as deprecated, it keeps the date
  that was stored, whatever the source says now; versions that are not deprecated are not touched, and
  carrying the dates a second time changes nothing.\<close>

theorem expiration_is_sticky:
  assumes "slash_free existing" "entries_distinct existing"
    and "(n, v) \<in> set (entries existing)" "mv_ExpirationDate v = Some t"
    and "(n, w) \<in> set (entries imgs)" "mv_Version w = mv_Version v"
  shows "(\<exists>w'. (n, w') \<in> set (entries (carryExpirationDates existing imgs)) \<and>
      w' = (if mv_Classification w = Some ClassificationDeprecated then w\<lparr>mv_ExpirationDate := Some t\<rparr> else w)) \<and>
    carryExpirationDates existing (carryExpirationDates existing imgs) = carryExpirationDates existing imgs"
proof
  let ?st = "stored_dates existing []"
  obtain img where img: "img \<in> set imgs" "mi_Name img = n" "w \<in> set (mi_Versions img)"
    using assms(5) by (auto simp: entries_mem)
  have sf: "CHR ''/'' \<notin> set (mv_Version w)" using assms(1,3,6) by (auto simp: slash_free_def)
  have "map_of ?st (expirationDateKey n (mv_Version w)) = Some t"
  proof (cases "map_of ?st (expirationDateKey n (mv_Version w))")
    case None
    then have False using stored_date(2) [OF assms(1) sf None] assms(3,4,6) by simp
    then show ?thesis ..
  next
    case (Some t')
    from stored_date(1) [OF assms(1) sf Some] obtain u where
      "(n, u) \<in> set (entries existing)" "mv_Version u = mv_Version w" "mv_ExpirationDate u = Some t'" by blast
    with distinct_entry [OF assms(2,3) this(1)] assms(4,6) Some show ?thesis by simp
  qed
  then have "carry_version ?st n w =
      (if mv_Classification w = Some ClassificationDeprecated then w\<lparr>mv_ExpirationDate := Some t\<rparr> else w)"
    by (simp add: carry_version_def)
  moreover have "(n, carry_version ?st n w) \<in> set (entries (carryExpirationDates existing imgs))"
    using img by (force simp: entries_mem carryExpirationDates_def Let_def)
  ultimately show "\<exists>w'. (n, w') \<in> set (entries (carryExpirationDates existing imgs)) \<and>
      w' = (if mv_Classification w = Some ClassificationDeprecated then w\<lparr>mv_ExpirationDate := Some t\<rparr> else w)"
    by metis
  show "carryExpirationDates existing (carryExpirationDates existing imgs) = carryExpirationDates existing imgs"
    by (rule carry_idem)
qed

subsection \<open>The profile that is written\<close>

text \<open>
  What the callback computes before the defaults are set; setting the owner reference changes the
  metadata only.
\<close>

definition owner_only :: "'v env \<Rightarrow> bool" where
  "owner_only r \<longleftrightarrow>
     (\<forall>mcp cp cp'. en_SetControllerReference r mcp cp = Inr cp' \<longrightarrow> cp_Spec cp' = cp_Spec cp)"

lemma mutate_profile_Ok:
  assumes "owner_only r" "mutate_profile r mcp imgs pc versions cp = Ok cp'"
  shows "\<exists>pre. cp' = en_SetDefaults r pre \<and>
    (let base = ms_CloudProfile (mcp_Spec mcp); old = cp_Spec cp;
         keep = ms_MachineImagesPaused (mcp_Spec mcp) \<and> gs_MachineImages old \<noteq> [];
         init = ms_MachineImagesPaused (mcp_Spec mcp) \<and> gs_MachineImages old = [] in
     cp_Spec pre =
       (CloudProfileSpecToGardener base)\<lparr>
         gs_Kubernetes := (if ms_KubernetesUpdate (mcp_Spec mcp) \<noteq> None
           then (cs_Kubernetes base)\<lparr>ks_Versions := versions\<rparr> else cs_Kubernetes base),
         gs_MachineImages := carryExpirationDates (gs_MachineImages old)
           (if keep then gs_MachineImages old else if init then cs_MachineImages base else imgs),
         gs_ProviderConfig := (if keep then gs_ProviderConfig old
           else if init then cs_ProviderConfig base else pc)\<rparr>)"
proof -
  obtain cp1 where cp1: "en_SetControllerReference r mcp cp = Inr cp1"
    using assms(2) by (auto simp: mutate_profile_def split: sum.splits)
  have s: "cp_Spec cp1 = cp_Spec cp" using assms(1) cp1 unfolding owner_only_def by blast
  have g: "x\<lparr>gs_CABundle := gs_CABundle y, gs_Kubernetes := gs_Kubernetes y, gs_MachineTypes := gs_MachineTypes y,
      gs_Regions := gs_Regions y, gs_SeedSelector := gs_SeedSelector y, gs_Type := gs_Type y,
      gs_VolumeTypes := gs_VolumeTypes y, gs_Bastion := gs_Bastion y, gs_Limits := gs_Limits y,
      gs_MachineCapabilities := gs_MachineCapabilities y, gs_ControlPlane := gs_ControlPlane y,
      gs_MachineImages := a, gs_ProviderConfig := b\<rparr> = y\<lparr>gs_MachineImages := a, gs_ProviderConfig := b\<rparr>"
    for x y :: GardenerCloudProfileSpec and a b
    by (cases x; cases y) simp
  show ?thesis using assms(2) cp1 s
    by (auto simp: mutate_profile_def Let_def copyStaticSpecFields_def CloudProfileSpecToGardener_def
        split: if_splits)
qed

subsection \<open>No panics\<close>

text \<open>
  What the environment must not do: the factory and the registry clients do not panic, the iteration order of
  a map is a permutation, the sum of a Glance source's \<open>keepLatest\<close> and the number of images found is a
  machine integer for every Glance source of the profile, and writing the CloudProfile panics only if the callback does.
\<close>

definition factory_quiet :: "'v env \<Rightarrow> bool" where
  "factory_quiet r \<longleftrightarrow>
     (\<forall>params permits caps flt. en_OCISourceFactory r params permits caps flt \<noteq> Panic \<and>
        en_OCISourceFactory r params permits caps flt \<noteq> Ok Panic)"

definition registry_quiet :: "'v env \<Rightarrow> bool" where
  "registry_quiet r \<longleftrightarrow>
     (\<forall>registry. en_RegistryProviderFunc r registry \<noteq> Panic \<and>
        (\<forall>client reg repo. en_RegistryProviderFunc r registry = Ok client \<longrightarrow> client reg repo \<noteq> Panic))"

definition glance_fits :: "'v env \<Rightarrow> MachineImageUpdateSource \<Rightarrow> bool" where
  "glance_fits r src \<longleftrightarrow> permuting (en_glance_order r) \<and>
     (\<forall>gl password g. us_Glance src = Some gl \<and>
        NewGlance (en_gophercloud r) (glance_params gl password) = Ok g \<longrightarrow>
        sint (gl_keepLatest g) + int (length (found_images (en_glance_deliver r g))) < 2 ^ 63)"

definition writer_quiet :: "'v env \<Rightarrow> bool" where
  "writer_quiet r \<longleftrightarrow>
     (\<forall>cp f. en_CreateOrPatch r cp f = Panic \<longrightarrow> (\<exists>old. f old = Panic))"

lemma getCredential_no_panic [simp]: "getCredential r ref \<noteq> Panic"
  by (simp add: getCredential_def split: sum.split option.split)

lemma NewGlance_no_panic [simp]: "NewGlance G params \<noteq> Panic"
  by (simp add: NewGlance_def Let_def)

lemma NewLandscape_no_panic [simp]: "NewLandscapeKubernetesSource f g params provider \<noteq> Panic"
  by (simp add: NewLandscapeKubernetesSource_def ocirepo_New_def Let_def outcome_simps split: option.split)

lemma selectSource_quiet:
  assumes "factory_quiet r" "glance_fits r src"
  shows "selectSource r src \<noteq> Panic \<and> selectSource r src \<noteq> Ok Panic"
proof -
  have "newOCISource r oci \<noteq> Panic \<and> newOCISource r oci \<noteq> Ok Panic" for oci
    using assms(1) by (auto simp: newOCISource_def factory_quiet_def outcome_simps)
  moreover have "newGlanceSource r g \<noteq> Panic \<and> newGlanceSource r g \<noteq> Ok Panic" if "us_Glance src = Some g" for g
    using assms(2) that unfolding glance_fits_def
    by (auto simp: newGlanceSource_def glance_no_panic outcome_simps)
  ultimately show ?thesis by (simp add: selectSource_def split: option.split)
qed

lemma selectProvider_quiet:
  "selectProvider r update \<noteq> Panic \<and> (selectProvider r update = Ok f \<longrightarrow> f pc srcs \<noteq> Panic)"
  by (auto simp: selectProvider_def ironcore_Configure_def openstack_Configure_def
      ironcore.raw_no_panic openstack.raw_no_panic split: option.split)

lemma buildGCFilter_quiet:
  assumes "registry_quiet r"
    and "shoots = None \<Longrightarrow> buildGCFilter (en_RegistryProviderFunc r) now mcp (Some []) update = Ok None"
  shows "buildGCFilter (en_RegistryProviderFunc r) now mcp shoots update \<noteq> Panic"
proof (cases shoots)
  case None
  with assms(2) show ?thesis
    by (auto simp: buildGCFilter_def referencedVersions_def outcome_simps Let_def split: option.splits if_splits)
next
  case (Some items)
  then show ?thesis using assms(1)
    by (auto simp: buildGCFilter_def referencedVersions_def registry_quiet_def outcome_simps Let_def
        split: option.splits if_splits)
qed

lemma prepareMachineImageUpdate_quiet:
  assumes "factory_quiet r" "glance_fits r (mu_Source update)" "registry_quiet r"
    and "\<And>now. shoots = None \<Longrightarrow> buildGCFilter (en_RegistryProviderFunc r) now mcp (Some []) update = Ok None"
  shows "prepareMachineImageUpdate r mcp shoots imgs pc update \<noteq> Panic"
proof -
  have g: "gc_filter_of (buildGCFilter (en_RegistryProviderFunc r) now mcp shoots update) \<noteq> Panic" for now
    using buildGCFilter_quiet [OF assms(3,4)]
    by (auto simp: gc_filter_of_def split: outcome.split option.split)
  have f: "Fetch (en_semver r) iu \<noteq> Panic" if "iu_Source iu \<noteq> Panic" for iu
    using that by (simp add: Fetch_def outcome_simps Let_def)
  have a: "Apply (en_semver r) iu caps base pc srcs \<noteq> Panic"
    if "iu_Provider iu = Some p" "selectProvider r update = Ok p" for iu caps base pc srcs p
    using that selectProvider_quiet [of r update p] by (intro Apply_never_panics) auto
  show ?thesis
    using selectSource_quiet [OF assms(1,2)] selectProvider_quiet [of r update]
    by (auto simp: prepareMachineImageUpdate_def outcome_simps Let_def g split: option.splits
        dest!: f [THEN notE, rotated] a [THEN notE, rotated 2])
qed

lemma gardenerVersionFromShoots_no_panic: "gardenerVersionFromShoots r shoots \<noteq> Panic"
  by (auto simp: gardenerVersionFromShoots_def Let_def split: list.splits)

lemma landscapeSetupSource_Ok:
  "landscapeSetupSource r ls = Ok fetch \<Longrightarrow> \<exists>s. fetch = landscape_FetchVersions (en_semver r) s"
  by (auto simp: landscapeSetupSource_def outcome_simps)

lemma k8s_Apply_no_panic: "k8s_Apply ku now vs \<noteq> Panic"
  using k8s_Apply_filters by blast

lemma prepareKubernetesUpdate_quiet: "prepareKubernetesUpdate r cfg (Some items) \<noteq> Panic"
proof (cases "ku_LandscapeSetup cfg")
  case (Some ls)
  have s: "landscapeSetupSource r ls \<noteq> Panic" by (simp add: landscapeSetupSource_def outcome_simps)
  have "k8s_Fetch (NewKubernetesVersionUpdater fetch thr) gv \<noteq> Panic"
    if "landscapeSetupSource r ls = Ok fetch" for fetch thr gv
    using landscapeSetupSource_Ok [OF that] landscape.update_no_panic by blast
  with Some s show ?thesis
    using gardenerVersionFromShoots_no_panic [of r items] k8s_Apply_no_panic
    by (auto simp: prepareKubernetesUpdate_def outcome_simps Let_def split: outcome.splits if_splits)
qed (simp add: prepareKubernetesUpdate_def)

lemma prepare_updates_quiet:
  assumes "factory_quiet r" "registry_quiet r"
    and "\<And>update now. shoots = None \<Longrightarrow>
      buildGCFilter (en_RegistryProviderFunc r) now mcp (Some []) update = Ok None"
    and "\<forall>update\<in>set updates. glance_fits r (mu_Source update)"
  shows "prepare_updates r mcp shoots updates st \<noteq> Panic"
  using assms(4)
proof (induction updates arbitrary: st)
  case (Cons update updates)
  obtain imgs pc where st: "st = (imgs, pc)" by (cases st)
  have "prepareMachineImageUpdate r mcp shoots imgs pc update \<noteq> Panic"
    using Cons.prems assms(3) by (intro prepareMachineImageUpdate_quiet [OF assms(1) _ assms(2)]) simp_all
  then show ?case using Cons by (simp add: st outcome_simps)
qed simp

lemma needShoots_off:
  assumes "\<not> needShoots mcp" "\<not> ms_MachineImagesPaused (mcp_Spec mcp)"
  shows "buildGCFilter RP now mcp (Some []) update = Ok None"
  using assms by (auto simp: needShoots_def buildGCFilter_def Let_def split: option.splits)

lemma mutate_profile_no_panic: "mutate_profile r mcp imgs pc versions cp \<noteq> Panic"
  by (simp add: mutate_profile_def Let_def split: sum.split)

lemma fail_with_outcome: "re_outcome (fail_with r mcp err e) = Panic \<Longrightarrow> e = Panic"
  by (auto simp: fail_with_def split: prod.splits option.splits)

lemma reconcile_quiet:
  assumes "factory_quiet r" "registry_quiet r" "writer_quiet r"
    and "\<forall>update\<in>set (ms_MachineImageUpdates (mcp_Spec mcp)). glance_fits r (mu_Source update)"
  shows "re_outcome (reconcileCloudProfile r mcp) \<noteq> Panic"
proof -
  have wr: "re_outcome (apply_profile r mcp imgs pc versions) \<noteq> Panic" for imgs pc versions
  proof -
    have "en_CreateOrPatch r (new_profile mcp) (mutate_profile r mcp imgs pc versions) \<noteq> Panic"
      using assms(3) mutate_profile_no_panic unfolding writer_quiet_def by metis
    then show ?thesis
      by (auto simp: apply_profile_def split: outcome.split prod.split option.split if_splits
          dest!: fail_with_outcome)
  qed
  have run: "re_outcome (reconcile_with_shoots r mcp shoots) \<noteq> Panic"
    if s: "shoots = None \<Longrightarrow> \<not> needShoots mcp" for shoots
  proof -
    have u: "prepare_updates r mcp shoots (ms_MachineImageUpdates (mcp_Spec mcp)) st \<noteq> Panic"
      if "\<not> ms_MachineImagesPaused (mcp_Spec mcp)" for st
      by (rule prepare_updates_quiet [OF assms(1,2) _ assms(4)]) (rule needShoots_off [OF s that])
    have k: "prepareKubernetesUpdate r cfg shoots \<noteq> Panic"
      if "ms_KubernetesUpdate (mcp_Spec mcp) = Some cfg" for cfg
    proof (cases shoots)
      case None
      with s that show ?thesis by (simp add: needShoots_def Let_def)
    qed (simp add: prepareKubernetesUpdate_quiet)
    show ?thesis
      using u k wr
      by (auto simp: reconcile_with_shoots_def Let_def split: outcome.split option.split prod.split
          dest!: fail_with_outcome)
  qed
  have "re_outcome (reconcile_with_shoots r mcp (Some items)) \<noteq> Panic" for items by (rule run) simp
  moreover have "\<not> needShoots mcp \<Longrightarrow> re_outcome (reconcile_with_shoots r mcp None) \<noteq> Panic" by (rule run)
  ultimately show ?thesis by (simp add: reconcileCloudProfile_def split: sum.split)
qed

text \<open>The factory and the registry clients that \<^verbatim>\<open>SetupWithManager\<close> puts in place do not panic.\<close>

lemma setup_defaults_quiet:
  "factory_quiet (setup_defaults r None None (DefaultOCISourceFactory_Create N connect deliver) H unicode)"
  "registry_quiet (setup_defaults r None None (DefaultOCISourceFactory_Create N connect deliver) H unicode)"
proof -
  have "oci_GetVersions src results \<noteq> Panic" for src results
    by (auto simp: oci_GetVersions_def oci_collected_def Let_def split: prod.split option.split)
  then show "factory_quiet (setup_defaults r None None (DefaultOCISourceFactory_Create N connect deliver) H unicode)"
    by (auto simp: factory_quiet_def setup_defaults_def DefaultOCISourceFactory_Create_def NewOCI_def ocirepo_New_def
        Let_def split: option.split)
  show "registry_quiet (setup_defaults r None None (DefaultOCISourceFactory_Create N connect deliver) H unicode)"
    by (auto simp: registry_quiet_def setup_defaults_def getRegistryProvider_def FetchKeppelTags_no_panic)
qed


subsection \<open>What is written\<close>

text \<open>
  The documented behaviour of \<^verbatim>\<open>controllerutil.CreateOrPatch\<close>: when it succeeds, the profile is what the
  callback made of the stored object (of the initial one, when there is none).
\<close>

definition patches :: "'v env \<Rightarrow> (CloudProfile \<Rightarrow> CloudProfile) \<Rightarrow> bool" where
  "patches r stored \<longleftrightarrow> (\<forall>cp f p. en_CreateOrPatch r cp f = Ok p \<longrightarrow> f (stored cp) = Ok p)"

text \<open>
  The specification of the profile before its defaults are set: from the stored images \<open>old\<close>, the prepared
  images, provider configuration and Kubernetes versions.
\<close>

definition next_images ::
  "ManagedCloudProfileSpec \<Rightarrow> GardenerCloudProfileSpec \<Rightarrow> MachineImage list \<times> RawExtension option
   \<Rightarrow> MachineImage list \<times> RawExtension option" where
  "next_images spec old prepared =
     (if \<not> ms_MachineImagesPaused spec then prepared
      else if gs_MachineImages old = [] then (cs_MachineImages (ms_CloudProfile spec), cs_ProviderConfig (ms_CloudProfile spec))
      else (gs_MachineImages old, gs_ProviderConfig old))"

definition profile_spec ::
  "ManagedCloudProfileSpec \<Rightarrow> GardenerCloudProfileSpec \<Rightarrow> MachineImage list \<times> RawExtension option
   \<Rightarrow> ExpirableVersion list \<Rightarrow> GardenerCloudProfileSpec" where
  "profile_spec spec old prepared versions =
     (CloudProfileSpecToGardener (ms_CloudProfile spec))\<lparr>
       gs_Kubernetes :=
         (if ms_KubernetesUpdate spec = None then cs_Kubernetes (ms_CloudProfile spec)
          else (cs_Kubernetes (ms_CloudProfile spec))\<lparr>ks_Versions := versions\<rparr>),
       gs_MachineImages := carryExpirationDates (gs_MachineImages old) (fst (next_images spec old prepared)),
       gs_ProviderConfig := snd (next_images spec old prepared)\<rparr>"

lemma mutate_profile_spec:
  assumes "owner_only r" "mutate_profile r mcp imgs pc versions cp = Ok cp'"
  shows "\<exists>pre. cp' = en_SetDefaults r pre \<and>
    cp_Spec pre = profile_spec (mcp_Spec mcp) (cp_Spec cp) (imgs, pc) versions"
  using mutate_profile_Ok [OF assms]
  by (auto simp: profile_spec_def next_images_def Let_def CloudProfileSpecToGardener_def)

lemma fail_with_written [simp]: "re_written (fail_with r mcp err e) = None"
  by (simp add: fail_with_def split: prod.split option.split)

lemma panic_with_written [simp]: "re_written (panic_with mcp) = None"
  by (simp add: panic_with_def)

lemma apply_profile_written:
  "re_written (apply_profile r mcp imgs pc versions) = Some p \<longleftrightarrow>
     en_CreateOrPatch r (new_profile mcp) (mutate_profile r mcp imgs pc versions) = Ok p"
  by (auto simp: apply_profile_def split: outcome.split prod.split option.split)

definition listed_shoots :: "'v env \<Rightarrow> ManagedCloudProfile \<Rightarrow> Shoot list option \<Rightarrow> bool" where
  "listed_shoots r mcp shoots \<longleftrightarrow>
     (case shoots of None \<Rightarrow> \<not> needShoots mcp | Some items \<Rightarrow> needShoots mcp \<and> en_ListShoots r = Inr items)"

lemma reconcile_written:
  assumes "re_written (reconcileCloudProfile r mcp) = Some p"
  obtains shoots imgs pc versions where "listed_shoots r mcp shoots"
    "\<not> ms_MachineImagesPaused (mcp_Spec mcp) \<Longrightarrow>
       prepare_updates r mcp shoots (ms_MachineImageUpdates (mcp_Spec mcp))
         (cs_MachineImages (ms_CloudProfile (mcp_Spec mcp)), cs_ProviderConfig (ms_CloudProfile (mcp_Spec mcp))) =
       Ok (imgs, pc)"
    "\<And>cfg. ms_KubernetesUpdate (mcp_Spec mcp) = Some cfg \<Longrightarrow> prepareKubernetesUpdate r cfg shoots = Ok versions"
    "en_CreateOrPatch r (new_profile mcp) (mutate_profile r mcp imgs pc versions) = Ok p"
proof -
  obtain shoots where s: "listed_shoots r mcp shoots" "re_written (reconcile_with_shoots r mcp shoots) = Some p"
  proof (cases "needShoots mcp")
    case True
    with assms obtain items where "en_ListShoots r = Inr items"
      "re_written (reconcile_with_shoots r mcp (Some items)) = Some p"
      by (auto simp: reconcileCloudProfile_def split: sum.splits)
    with True show ?thesis by (intro that [of "Some items"]) (simp_all add: listed_shoots_def)
  next
    case False
    with assms show ?thesis
      by (intro that [of None]) (simp_all add: listed_shoots_def reconcileCloudProfile_def)
  qed
  then show ?thesis
    by (auto simp: reconcile_with_shoots_def Let_def apply_profile_written
        split: outcome.splits option.splits if_splits prod.splits intro: that)
qed

lemma reconcile_written_spec:
  assumes "patches r stored" "owner_only r" "re_written (reconcileCloudProfile r mcp) = Some p"
  shows "\<exists>pre shoots imgs pc versions. listed_shoots r mcp shoots \<and>
    (\<not> ms_MachineImagesPaused (mcp_Spec mcp) \<longrightarrow>
       prepare_updates r mcp shoots (ms_MachineImageUpdates (mcp_Spec mcp))
         (cs_MachineImages (ms_CloudProfile (mcp_Spec mcp)), cs_ProviderConfig (ms_CloudProfile (mcp_Spec mcp))) =
       Ok (imgs, pc)) \<and>
    (\<forall>cfg. ms_KubernetesUpdate (mcp_Spec mcp) = Some cfg \<longrightarrow> prepareKubernetesUpdate r cfg shoots = Ok versions) \<and>
    p = en_SetDefaults r pre \<and>
    cp_Spec pre = profile_spec (mcp_Spec mcp) (cp_Spec (stored (new_profile mcp))) (imgs, pc) versions"
proof (rule reconcile_written [OF assms(3)])
  fix shoots imgs pc versions
  assume w: "listed_shoots r mcp shoots"
    "\<not> ms_MachineImagesPaused (mcp_Spec mcp) \<Longrightarrow>
       prepare_updates r mcp shoots (ms_MachineImageUpdates (mcp_Spec mcp))
         (cs_MachineImages (ms_CloudProfile (mcp_Spec mcp)), cs_ProviderConfig (ms_CloudProfile (mcp_Spec mcp))) =
       Ok (imgs, pc)"
    "\<And>cfg. ms_KubernetesUpdate (mcp_Spec mcp) = Some cfg \<Longrightarrow> prepareKubernetesUpdate r cfg shoots = Ok versions"
    "en_CreateOrPatch r (new_profile mcp) (mutate_profile r mcp imgs pc versions) = Ok p"
  have "mutate_profile r mcp imgs pc versions (stored (new_profile mcp)) = Ok p"
    using assms(1) w(4) unfolding patches_def by blast
  from mutate_profile_spec [OF assms(2) this] w(1-3) show ?thesis by metis
qed

text \<open>C5 reconcile_writes. What a reconciliation writes: the static fields of the ManagedCloudProfile; the Kubernetes versions of
  the update, when one is configured, else those of the base; the machine images and the provider
  configuration that the updates prepared one after the other from the base or, when they are paused, those
  already stored (those of the base, when none are stored); and the expiration dates of deprecated versions
  carried over from the stored images.\<close>

theorem reconcile_writes:
  assumes "patches r stored" "owner_only r" "re_written (reconcileCloudProfile r mcp) = Some p"
  shows "\<exists>pre shoots imgs pc versions. listed_shoots r mcp shoots \<and>
    (\<not> ms_MachineImagesPaused (mcp_Spec mcp) \<longrightarrow>
       prepare_updates r mcp shoots (ms_MachineImageUpdates (mcp_Spec mcp))
         (cs_MachineImages (ms_CloudProfile (mcp_Spec mcp)), cs_ProviderConfig (ms_CloudProfile (mcp_Spec mcp))) =
       Ok (imgs, pc)) \<and>
    (\<forall>cfg. ms_KubernetesUpdate (mcp_Spec mcp) = Some cfg \<longrightarrow> prepareKubernetesUpdate r cfg shoots = Ok versions) \<and>
    p = en_SetDefaults r pre \<and>
    cp_Spec pre = profile_spec (mcp_Spec mcp) (cp_Spec (stored (new_profile mcp))) (imgs, pc) versions"
  by (rule reconcile_written_spec [OF assms])

text \<open>C6 paused_keeps. While the machine images are paused, a reconciliation keeps the stored ones: when the CloudProfile has
  machine images, whose versions are distinct and contain no slash, the written profile has exactly these
  images and this provider configuration; when it has none, it gets those of the ManagedCloudProfile. The
  image updates are not looked at.\<close>

theorem paused_keeps:
  assumes "patches r stored" "owner_only r" "re_written (reconcileCloudProfile r mcp) = Some p"
    and "ms_MachineImagesPaused (mcp_Spec mcp)"
    and "old = cp_Spec (stored (new_profile mcp))"
    and "slash_free (gs_MachineImages old)" "entries_distinct (gs_MachineImages old)"
  shows "\<exists>pre. p = en_SetDefaults r pre \<and>
    (gs_MachineImages (cp_Spec pre), gs_ProviderConfig (cp_Spec pre)) =
      (if gs_MachineImages old = []
       then (cs_MachineImages (ms_CloudProfile (mcp_Spec mcp)), cs_ProviderConfig (ms_CloudProfile (mcp_Spec mcp)))
       else (gs_MachineImages old, gs_ProviderConfig old))"
proof -
  from reconcile_written_spec [OF assms(1-3)] obtain pre imgs pc versions where pre: "p = en_SetDefaults r pre"
    "cp_Spec pre = profile_spec (mcp_Spec mcp) old (imgs, pc) versions" unfolding assms(5) by blast
  have none: "carryExpirationDates [] imgs = imgs" for imgs
    by (simp add: carryExpirationDates_def carry_version_def map_idI cong: if_cong)
  show ?thesis
    using pre(1) carry_self [OF assms(6,7)]
    by (intro exI [of _ pre]) (simp add: pre(2) profile_spec_def next_images_def assms(4) none)
qed

subsection \<open>The status\<close>

lemma patchStatus_fields:
  assumes "patchStatusAndCondition C mcp status cond = (mcp', issued, err)" "co_Type cond \<noteq> []"
  shows "mcp_Spec mcp' = mcp_Spec mcp" "st_Status (mcp_Status mcp') = status"
    "st_Conditions (mcp_Status mcp') = applyCondition (sc_now C) (st_Conditions (mcp_Status mcp)) cond"
    "issued \<or> sc_DeepEqual C (mcp_Status mcp) (mcp_Status mcp')"
  using assms by (auto simp: patchStatusAndCondition_def Let_def split: if_splits)

lemma condition_of_set:
  "\<exists>t. condition_of (applyCondition now cs cond) (co_Type cond) = Some (cond\<lparr>co_LastTransitionTime := t\<rparr>)"
proof (cases rule: applyCondition_cases [of cond cs now])
  case (1 i)
  then show ?thesis using find_update_first [OF 1(1)] by (auto simp: condition_of_def)
next
  case 2
  then have "condition_of cs (co_Type cond) = None" by (simp add: condition_of_def find_IndexFunc)
  with 2 show ?thesis by (auto simp: condition_of_def find_append)
qed

text \<open>The \<^verbatim>\<open>CloudProfileApplied\<close> condition of a profile, without its transition time.\<close>

definition applied_condition :: "ManagedCloudProfile \<Rightarrow> Condition option" where
  "applied_condition mcp =
     map_option (\<lambda>c. c\<lparr>co_LastTransitionTime := None\<rparr>)
       (condition_of (st_Conditions (mcp_Status mcp)) CloudProfileAppliedConditionType)"

definition status_is :: "ManagedCloudProfile \<Rightarrow> ManagedCloudProfile \<Rightarrow> ReconcileStatus \<Rightarrow> Condition \<Rightarrow> bool" where
  "status_is mcp mcp' status cond \<longleftrightarrow>
     st_Status (mcp_Status mcp') = status \<and> applied_condition mcp' = Some cond"

lemma patchStatus_is:
  assumes "patchStatusAndCondition C mcp status cond = (mcp', issued, err)"
    and "co_Type cond = CloudProfileAppliedConditionType" "co_LastTransitionTime cond = None"
  shows "status_is mcp mcp' status cond"
proof -
  have t: "co_Type cond \<noteq> []" using assms(2) by (simp add: CloudProfileAppliedConditionType_def)
  obtain s where "condition_of (st_Conditions (mcp_Status mcp')) CloudProfileAppliedConditionType =
      Some (cond\<lparr>co_LastTransitionTime := s\<rparr>)"
    using condition_of_set [of "sc_now C" "st_Conditions (mcp_Status mcp)" cond]
    unfolding patchStatus_fields(3) [OF assms(1) t] assms(2) by blast
  with patchStatus_fields [OF assms(1) t] assms(3) show ?thesis
    by (cases cond) (simp add: status_is_def applied_condition_def)
qed

lemma fail_with_status:
  assumes "R = fail_with r mcp err e"
  shows "status_is mcp (re_mcp R) FailedReconcileStatus (failed_condition (en_status r) mcp err)"
proof -
  obtain mcp' issued serr where p: "patchStatusAndCondition (en_status r) mcp FailedReconcileStatus
      (failed_condition (en_status r) mcp err) = (mcp', issued, serr)"
    using prod_cases3 by blast
  have "re_mcp R = mcp'"
    unfolding assms by (simp add: fail_with_def markReconcileFailed_def p split: option.split)
  then show ?thesis using patchStatus_is [OF p] by (simp add: failed_condition_def)
qed

lemma apply_profile_status:
  assumes "R = apply_profile r mcp imgs pc versions" "re_outcome R \<noteq> Panic"
  shows "(\<exists>p. re_written R = Some p \<and> status_is mcp (re_mcp R) SucceededReconcileStatus (succeeded_condition mcp)) \<or>
    (\<exists>err. re_written R = None \<and>
       status_is mcp (re_mcp R) FailedReconcileStatus (failed_condition (en_status r) mcp err) \<and>
       (re_outcome R = Ok () \<longrightarrow> en_IsInvalid r err))"
proof (cases "en_CreateOrPatch r (new_profile mcp) (mutate_profile r mcp imgs pc versions)")
  case (Ok p)
  obtain mcp' issued serr where p: "patchStatusAndCondition (en_status r) mcp SucceededReconcileStatus
      (succeeded_condition mcp) = (mcp', issued, serr)"
    using prod_cases3 by blast
  have "re_mcp R = mcp'" "re_written R = Some p"
    unfolding assms(1) by (simp_all add: apply_profile_def Ok p split: option.split)
  then show ?thesis using patchStatus_is [OF p] by (simp add: succeeded_condition_def)
next
  case (Fail err)
  then have R: "R = fail_with r mcp err (if en_IsInvalid r err then Ok ()
      else Fail (Wrapf ''failed to create or patch CloudProfile: %w'' [] err))"
    unfolding assms(1) by (simp add: apply_profile_def)
  moreover have "re_outcome R = Ok () \<Longrightarrow> en_IsInvalid r err"
    unfolding R by (auto simp: fail_with_def split: prod.splits option.splits if_splits)
  ultimately show ?thesis using fail_with_status [OF R] by auto
next
  case Panic
  then show ?thesis using assms by (simp add: apply_profile_def panic_with_def)
qed

lemma reconcile_with_shoots_status:
  assumes "R = reconcile_with_shoots r mcp shoots" "re_outcome R \<noteq> Panic"
  shows "(\<exists>p. re_written R = Some p \<and> status_is mcp (re_mcp R) SucceededReconcileStatus (succeeded_condition mcp)) \<or>
    (\<exists>err. re_written R = None \<and>
       status_is mcp (re_mcp R) FailedReconcileStatus (failed_condition (en_status r) mcp err) \<and>
       (re_outcome R = Ok () \<longrightarrow> en_IsInvalid r err))"
proof -
  consider "R = panic_with mcp" | err where "R = fail_with r mcp err (Fail err)"
    | imgs pc versions where "R = apply_profile r mcp imgs pc versions"
    using assms(1) by (auto simp: reconcile_with_shoots_def Let_def split: outcome.splits prod.splits if_splits)
  then show ?thesis
  proof cases
    case 1
    with assms(2) show ?thesis by (simp add: panic_with_def)
  next
    case (2 err)
    then have "re_outcome R \<noteq> Ok ()"
      by (auto simp: fail_with_def split: prod.splits option.splits)
    then show ?thesis using fail_with_status [OF 2] 2 by auto
  next
    case (3 imgs pc versions)
    from apply_profile_status [OF 3 assms(2)] show ?thesis .
  qed
qed


subsection \<open>Requeueing\<close>

text \<open>A request ends without an error in exactly two ways: the ManagedCloudProfile does not exist, and then
  nothing is scheduled, or its reconciliation ended without an error, and then, whether a profile was written or
  the API server called it invalid, the next one is scheduled in five minutes.\<close>

lemma Reconcile_requeues:
  "Reconcile r name = Ok d \<longleftrightarrow>
     (case en_GetMCP r name of
        Inl err \<Rightarrow> en_IsNotFound r err \<and> d = 0
      | Inr mcp \<Rightarrow> re_outcome (reconcileCloudProfile r mcp) = Ok () \<and> d = 300000000000)"
  by (auto simp: Reconcile_def split: sum.split outcome.split)

subsection \<open>The Gardener version of the shoots\<close>

definition gardener_versions :: "Shoot list \<Rightarrow> string set" where
  "gardener_versions shoots = {v \<in> sh_GardenerVersion ` set shoots. v \<noteq> []}"

lemma version_set_eq: "set (version_set shoots vs) = set vs \<union> gardener_versions shoots"
proof (induction shoots vs rule: version_set.induct)
  case (2 s shoots vs)
  then show ?case by (auto simp: gardener_versions_def)
qed (simp add: gardener_versions_def)

lemma version_cmp_comparator: "semver_order L \<Longrightarrow> comparator (version_cmp L)"
  unfolding semver_order_def comparator_def version_cmp_def by blast

text \<open>C37 gardenerVersion_minimum. The Gardener version used to look up Kubernetes versions is a lowest one: it is the version of some
  shoot, and no shoot with a parsable version has a lower one, in whatever order the set is visited. None is
  found exactly when no shoot has a parsable version.\<close>

theorem gardenerVersion_minimum:
  assumes "semver_order (en_semver r)" "\<And>vs. set (en_version_order r vs) = set vs"
  shows "(case gardenerVersionFromShoots r shoots of
      Ok v \<Rightarrow> v \<in> gardener_versions shoots \<and>
        (\<forall>w\<in>gardener_versions shoots. sv_parsable (en_semver r) w \<longrightarrow> tag_ge (en_semver r) w v)
    | Fail err \<Rightarrow> err = ErrNoShoots \<and> (\<forall>w\<in>gardener_versions shoots. \<not> sv_parsable (en_semver r) w)
    | Panic \<Rightarrow> False)"
proof -
  let ?L = "en_semver r"
  define ps where "ps = parse_tags ?L (en_version_order r (version_set shoots []))"
  have ps: "(t, v) \<in> set ps \<longleftrightarrow> t \<in> gardener_versions shoots \<and> sv_ParseTolerant ?L t = Inr v" for t v
    by (simp add: ps_def set_parse_tags assms(2) version_set_eq)
  have sorted: "sorted_by (version_cmp ?L) (SortFunc (version_cmp ?L) ps)"
    by (rule comparator.SortFunc_sorted [OF version_cmp_comparator [OF assms(1)]])
  show ?thesis
  proof (cases "SortFunc (version_cmp ?L) ps")
    case Nil
    then have "ps = []" by simp
    then have "\<not> sv_parsable ?L w" if "w \<in> gardener_versions shoots" for w
      using ps [of w] that by (simp add: sv_parsable_def)
    with \<open>ps = []\<close> show ?thesis by (simp add: gardenerVersionFromShoots_def Let_def flip: ps_def)
  next
    case (Cons e es)
    then have ne: "ps \<noteq> []" by auto
    obtain t v where e: "e = (t, v)" by (cases e)
    have "(t, v) \<in> set ps" using Cons e by (metis list.set_intros(1) set_SortFunc)
    then have tv: "t \<in> gardener_versions shoots" "sv_ParseTolerant ?L t = Inr v" using ps by simp_all
    have "tag_ge ?L w t" if w: "w \<in> gardener_versions shoots" "sv_ParseTolerant ?L w = Inr x" for w x
    proof -
      have "(w, x) \<in> set (e # es)" using ps [of w x] w Cons by (metis set_SortFunc)
      with sorted Cons have "version_cmp ?L e (w, x) \<le> 0"
        using comparator.sorted_head_least [OF version_cmp_comparator [OF assms(1)], of e es "(w, x)"] by simp
      then show ?thesis using tv w by (simp add: tag_ge_def version_cmp_def e)
    qed
    then have "gardenerVersionFromShoots r shoots = Ok t" "\<forall>w\<in>gardener_versions shoots.
        sv_parsable ?L w \<longrightarrow> tag_ge ?L w t"
      using ne Cons by (auto simp: gardenerVersionFromShoots_def sv_parsable_def Let_def e simp flip: ps_def)
    with tv show ?thesis by simp
  qed
qed

end
