(* ===== verification/UpdatePipeline.thy ===== *)
theory UpdatePipeline
  imports Reconciler
begin

section \<open>From the source to the CloudProfile\<close>

text \<open>
  Lemmas about \<^verbatim>\<open>prepareMachineImageUpdate\<close> as the composition of source, garbage collection, updater and
  provider. The root theory states the properties.
\<close>

definition updater_of ::
  "'v env \<Rightarrow> MachineImageUpdate \<Rightarrow> Source \<Rightarrow> Configure \<Rightarrow> (SourceImage list \<Rightarrow> SourceImage list) option
   \<Rightarrow> ImageUpdater" where
  "updater_of r update source configure flt =
     \<lparr>iu_Source = source, iu_Provider = Some configure, iu_ImageName = mu_ImageName update,
      iu_EnableCapabilities = en_EnableCapabilities r,
      iu_MinVersionForUpdate = mu_MinVersionForUpdate update, iu_Filter = flt\<rparr>"

lemma updater_of_simps [simp]:
  "iu_Source (updater_of r update source configure flt) = source"
  "iu_Provider (updater_of r update source configure flt) = Some configure"
  "iu_ImageName (updater_of r update source configure flt) = mu_ImageName update"
  "iu_EnableCapabilities (updater_of r update source configure flt) = en_EnableCapabilities r"
  "iu_Filter (updater_of r update source configure flt) = flt"
  by (simp_all add: updater_of_def)

abbreviation profile_caps :: "ManagedCloudProfile \<Rightarrow> CapabilityDefinition list" where
  "profile_caps mcp \<equiv> cs_MachineCapabilities (ms_CloudProfile (mcp_Spec mcp))"

lemma prepare_Ok:
  assumes "prepareMachineImageUpdate r mcp shoots base pc update = Ok (imgs, pc')"
  obtains raw configure flt srcs where
    "selectSource r (mu_Source update) = Ok (Ok raw)"
    "selectProvider r update = Ok configure"
    "gc_filter_of (buildGCFilter (en_RegistryProviderFunc r) (en_clock r (GCClock update)) mcp shoots update) = Ok flt"
    "Fetch (en_semver r) (updater_of r update (Ok raw) configure flt) = Ok srcs"
    "Apply (en_semver r) (updater_of r update (Ok raw) configure flt) (profile_caps mcp) base pc srcs = Ok (imgs, pc')"
proof -
  obtain source configure flt srcs where p: "selectSource r (mu_Source update) = Ok source"
    "selectProvider r update = Ok configure"
    "gc_filter_of (buildGCFilter (en_RegistryProviderFunc r) (en_clock r (GCClock update)) mcp shoots update) = Ok flt"
    "Fetch (en_semver r) (updater_of r update source configure flt) = Ok srcs"
    "Apply (en_semver r) (updater_of r update source configure flt) (profile_caps mcp) base pc srcs = Ok (imgs, pc')"
    using assms by (auto simp: prepareMachineImageUpdate_def updater_of_def outcome_simps Let_def split: option.splits)
  from p(4) obtain raw where "source = Ok raw" by (auto simp: Fetch_def outcome_simps)
  with p show ?thesis by (intro that) auto
qed

text \<open>The filter is none or that of garbage collection, so it is lawful.\<close>

lemma gc_filter_of_cases:
  assumes "gc_filter_of f = Ok flt"
  shows "flt = None \<and> (\<forall>g. f \<noteq> Ok (Some g)) \<or> (\<exists>g. f = Ok (Some g) \<and> flt = Some (Filter g))"
  using assms by (auto simp: gc_filter_of_def split: outcome.splits option.splits)

lemma pipeline_filter_lawful:
  assumes "gc_filter_of f = Ok flt"
  shows "filter_lawful (updater_of r update source configure flt)"
  using gc_filter_of_cases [OF assms] gc_filter.version_filter_axioms by (auto simp: filter_lawful_def)

text \<open>What a delivered image becomes, and that it stays unless the filter drops it.\<close>

lemma Fetch_delivers:
  assumes "Fetch L (updater_of r update (Ok raw) configure flt) = Ok srcs"
    and "x \<in> set raw" "validate_one L x = Some y"
    and "\<And>f. flt = Some f \<Longrightarrow> y \<in> set (f (SortFunc source_cmp (validateImageVersions L raw)))"
  shows "y \<in> set srcs"
proof -
  have v: "y \<in> set (SortFunc source_cmp (validateImageVersions L raw))"
    using assms(2,3) set_validateImageVersions [of y L raw] by auto
  with assms(1,4) show ?thesis by (auto simp: Fetch_def Let_def split: option.splits)
qed

lemma Fetch_from:
  assumes "filter_lawful iu" "iu_Source iu = Ok raw" "Fetch L iu = Ok srcs" "y \<in> set srcs"
  shows "\<exists>x\<in>set raw. validate_one L x = Some y"
  using Fetch_Ok [OF assms(1,3)] assms(2,4) set_validateImageVersions [of y L raw] by auto

lemma validate_one_clean:
  assumes "validate_one L x = Some y" "si_CleanVersion y \<noteq> []"
  shows "\<exists>p. si_CleanVersion x \<noteq> [] \<and> sv_ParseTolerant L (si_CleanVersion x) = Inr p \<and> si_CleanVersion y = sv_String L p"
  using assms by (cases x rule: validate_clean_cases [where L = L]) (auto simp: validate_one_Some)

subsection \<open>Garbage collection and the versions in use\<close>

text \<open>The names under which an image appears among the machine images: its tag and its clean version.\<close>

definition appears_as :: "'v env \<Rightarrow> SourceImage \<Rightarrow> string \<Rightarrow> bool" where
  "appears_as r x k \<longleftrightarrow>
     (sv_valid (en_semver r) (si_Version x) \<and> k = si_Version x) \<or>
     (en_EnableCapabilities r \<and> si_CleanVersion x \<noteq> [] \<and> k \<noteq> [] \<and>
        (\<exists>p. sv_ParseTolerant (en_semver r) (si_CleanVersion x) = Inr p \<and> k = sv_String (en_semver r) p))"

lemma appears_as_validated:
  assumes "appears_as r x k" "si_Architectures x \<noteq> []"
  shows "\<exists>y. validate_one (en_semver r) x = Some y \<and>
    (si_Version y = k \<and> sv_valid (en_semver r) k \<or> en_EnableCapabilities r \<and> si_CleanVersion y = k \<and> k \<noteq> [])"
  using assms
  by (cases x rule: validate_clean_cases [where L = "en_semver r"])
    (auto simp: appears_as_def validate_one_Some)

lemma used_image_stays:
  assumes P: "prepareMachineImageUpdate r mcp (Some shoots) base pc update = Ok (imgs, pc')"
    and S: "selectSource r (mu_Source update) = Ok (Ok raw)"
    and d: "versions_distinct (image_versions (mu_ImageName update) base)"
    and u: "in_use shoots (mcp_Name mcp) (mu_ImageName update) v" "v \<noteq> []"
    and x: "x \<in> set raw" "si_Architectures x \<noteq> []" "appears_as r x (NormalizeTag v)"
  shows "version_entry (mu_ImageName update) imgs (NormalizeTag v) \<noteq> None"
proof (rule prepare_Ok [OF P])
  fix raw' configure flt srcs
  assume src: "selectSource r (mu_Source update) = Ok (Ok raw')"
    and flt: "gc_filter_of (buildGCFilter (en_RegistryProviderFunc r) (en_clock r (GCClock update)) mcp (Some shoots) update) = Ok flt"
    and F: "Fetch (en_semver r) (updater_of r update (Ok raw') configure flt) = Ok srcs"
    and A: "Apply (en_semver r) (updater_of r update (Ok raw') configure flt) (profile_caps mcp) base pc srcs = Ok (imgs, pc')"
  let ?k = "NormalizeTag v"
  have raw: "x \<in> set raw'" using src S x(1) by simp
  obtain y where y: "validate_one (en_semver r) x = Some y"
    "si_Version y = ?k \<and> sv_valid (en_semver r) ?k \<or> en_EnableCapabilities r \<and> si_CleanVersion y = ?k \<and> ?k \<noteq> []"
    using appears_as_validated [OF x(3,2)] by blast
  have "y \<in> set (SortFunc source_cmp (validateImageVersions (en_semver r) raw'))"
    using raw y(1) set_validateImageVersions [of y "en_semver r" raw'] by auto
  then have "y \<in> set (f (SortFunc source_cmp (validateImageVersions (en_semver r) raw')))" if "flt = Some f" for f
    using gc_filter_of_cases [OF flt] gc_keeps_used [OF _ u(1) _ u(2)] y(2) that by auto
  then have "y \<in> set srcs" by (rule Fetch_delivers [OF F raw y(1)])
  moreover have "?k \<noteq> []" using u(2) by simp
  ultimately show ?thesis
    using Apply_registers [of "updater_of r update (Ok raw') configure flt" base, OF _ A] d y(2)
    unfolding updater_of_simps by metis
qed

subsection \<open>Machine images and provider configuration\<close>

definition ironcore_of :: "'v env \<Rightarrow> MachineImageUpdate \<Rightarrow> MachineImagesUpdateProviderIroncoreMetal \<Rightarrow> IroncoreProvider" where
  "ironcore_of r update im =
     \<lparr>ip_Registry = im_Registry im, ip_Repository = im_Repository im, ip_ImageName = mu_ImageName update,
      ip_EnableCapabilities = en_EnableCapabilities r\<rparr>"

definition openstack_of :: "'v env \<Rightarrow> MachineImageUpdate \<Rightarrow> OpenStackProvider" where
  "openstack_of r update =
     \<lparr>op_ImageName = mu_ImageName update, op_EnableCapabilities = en_EnableCapabilities r\<rparr>"

text \<open>A version of the updated image can be resolved: the provider configuration has an entry for it.\<close>

definition resolvable :: "'v env \<Rightarrow> MachineImageUpdate \<Rightarrow> RawExtension option \<Rightarrow> string \<Rightarrow> bool" where
  "resolvable r update pc k \<longleftrightarrow>
     (case up_IroncoreMetal (mu_Provider update) of
        Some im \<Rightarrow>
          (case decode (en_ironcore_codec r) zero_IMConfig pc of
             Inl err \<Rightarrow> False
           | Inr c \<Rightarrow> k \<in> iv_Version ` set (im_versions (ironcore_of r update im) c))
      | None \<Rightarrow>
          (case decode (en_openstack_codec r) zero_OSConfig pc of
             Inl err \<Rightarrow> False
           | Inr c \<Rightarrow>
               k \<in> set (versions_named oi_Name (\<lambda>i. map ov_Version (oi_Versions i)) (mu_ImageName update)
                         (oc_MachineImages c))))"

text \<open>The provider configuration it starts from is well-formed.\<close>

definition base_config_ok :: "'v env \<Rightarrow> MachineImageUpdate \<Rightarrow> RawExtension option \<Rightarrow> bool" where
  "base_config_ok r update pc \<longleftrightarrow>
     (case up_IroncoreMetal (mu_Provider update) of
        None \<Rightarrow> True
      | Some im \<Rightarrow>
          (case decode (en_ironcore_codec r) zero_IMConfig pc of
             Inl err \<Rightarrow> True
           | Inr c \<Rightarrow> tags_ok (ironcore_of r update im) (im_versions (ironcore_of r update im) c)))"

text \<open>
  The clean version of a delivered image is one the provider writes: for IronCore the image has a declared
  capability, for OpenStack the clean version is the tag.
\<close>

definition clean_written :: "'v env \<Rightarrow> ManagedCloudProfile \<Rightarrow> MachineImageUpdate \<Rightarrow> SourceImage \<Rightarrow> bool" where
  "clean_written r mcp update x \<longleftrightarrow>
     (if up_IroncoreMetal (mu_Provider update) \<noteq> None
      then filterCapabilities (si_Capabilities x) (allowedCapabilityValues (profile_caps mcp)) \<noteq> None
      else (\<forall>p. sv_ParseTolerant (en_semver r) (si_CleanVersion x) = Inr p \<longrightarrow>
              sv_String (en_semver r) p = si_Version x))"

lemma selectProvider_cases:
  assumes "selectProvider r update = Ok configure"
  obtains im where "up_IroncoreMetal (mu_Provider update) = Some im"
      "configure = ironcore_Configure (en_ironcore_codec r) (ironcore_of r update im)"
  | "up_IroncoreMetal (mu_Provider update) = None"
      "configure = openstack_Configure (en_openstack_codec r) (openstack_of r update)"
  using assms by (auto simp: selectProvider_def ironcore_of_def openstack_of_def split: option.splits)

text \<open>Configure makes the tag of every image with an architecture resolvable, and the clean versions it writes.\<close>

lemma Configure_resolves:
  assumes "codec_ok (en_ironcore_codec r)" "codec_ok (en_openstack_codec r)" "base_config_ok r update pc"
    and "selectProvider r update = Ok configure" "configure pc srcs = Ok pc'"
    and "src \<in> set srcs" "si_Architectures src \<noteq> []"
  shows "resolvable r update pc' (si_Version src) \<and>
    (en_EnableCapabilities r \<and> up_IroncoreMetal (mu_Provider update) \<noteq> None \<and>
       si_Capabilities src \<noteq> None \<and> si_CleanVersion src \<noteq> [] \<longrightarrow>
     resolvable r update pc' (si_CleanVersion src))"
  using assms(4)
proof (cases rule: selectProvider_cases)
  case (1 im)
  let ?p = "ironcore_of r update im"
  from ironcore.raw_Ok [OF assms(1), of zero_IMConfig ?p pc srcs pc'] assms(5) 1 obtain c c' where
    c: "decode (en_ironcore_codec r) zero_IMConfig pc = Inr c" "ironcore_cfg ?p c srcs = Some c'"
      "decode (en_ironcore_codec r) zero_IMConfig pc' = Inr c'" by (auto simp: ironcore_Configure_def)
  have wf: "tags_ok ?p (im_versions ?p c)" using assms(3) 1 c(1) by (simp add: base_config_ok_def)
  have name: "ip_ImageName ?p = mu_ImageName update" by (simp add: ironcore_of_def)
  have "si_Version src \<in> iv_Version ` set (im_versions ?p c')"
    using ironcore.configure_registers [OF wf c(2) assms(6,7)] by (simp add: im_versions_named)
  moreover have "si_CleanVersion src \<in> iv_Version ` set (im_versions ?p c')" if "writes_flavor ?p src"
  proof -
    have "flavored (im_versions ?p c') (si_CleanVersion src) (image_ref ?p src)"
      using ironcore_cfg_post [OF c(2)] assms(6) that unfolding loop_post_def by blast
    then show ?thesis unfolding flavored_def by (metis image_eqI)
  qed
  ultimately show ?thesis using 1 c(3)
    by (cases "si_CleanVersion src = si_Version src")
      (auto simp: resolvable_def writes_flavor_def ironcore_of_def)
next
  case 2
  let ?p = "openstack_of r update"
  from openstack.raw_Ok [OF assms(2), of zero_OSConfig ?p pc srcs pc'] assms(5) 2 obtain c c' where
    c: "openstack_cfg ?p c srcs = Some c'" "decode (en_openstack_codec r) zero_OSConfig pc' = Inr c'"
    by (auto simp: openstack_Configure_def)
  from openstack.configure_registers [OF TrueI c(1) assms(6,7)] 2 c(2) show ?thesis
    by (simp add: resolvable_def openstack_of_def)
qed

lemma Apply_added:
  assumes "versions_distinct (image_versions (iu_ImageName iu) base)"
    and "Apply L iu caps base pc srcs = Ok (imgs, pc')"
    and "version_entry (iu_ImageName iu) base k = None" "version_entry (iu_ImageName iu) imgs k \<noteq> None"
  obtains src where "src \<in> set (filter_sources caps srcs)"
    "si_Version src = k \<or> iu_EnableCapabilities iu \<and> si_CleanVersion src = k \<and> k \<noteq> []"
proof -
  have "filter (\<lambda>p. op_key p = k) (source_ops iu (filter_sources caps srcs)) \<noteq> []"
    using assms(3,4) unfolding Apply_entry [OF assms(1,2)] by auto
  then obtain p where p: "p \<in> set (source_ops iu (filter_sources caps srcs))" "op_key p = k"
    by (auto simp: filter_empty_conv)
  then show ?thesis
    by (cases p rule: vop.exhaust) (auto simp: source_ops_LegacyOp source_ops_CleanOp intro: that)
qed

lemma added_resolvable:
  assumes P: "prepareMachineImageUpdate r mcp shoots base pc update = Ok (imgs, pc')"
    and S: "selectSource r (mu_Source update) = Ok (Ok raw)"
    and d: "versions_distinct (image_versions (mu_ImageName update) base)"
    and codecs: "codec_ok (en_ironcore_codec r)" "codec_ok (en_openstack_codec r)" "base_config_ok r update pc"
    and clean: "\<forall>x\<in>set raw. en_EnableCapabilities r \<and> si_CleanVersion x \<noteq> [] \<longrightarrow> clean_written r mcp update x"
    and new: "version_entry (mu_ImageName update) base k = None" "version_entry (mu_ImageName update) imgs k \<noteq> None"
  shows "resolvable r update pc' k"
proof (rule prepare_Ok [OF P])
  let ?L = "en_semver r"
  let ?al = "allowedCapabilityValues (profile_caps mcp)"
  fix raw' configure flt srcs
  let ?iu = "updater_of r update (Ok raw') configure flt"
  assume src: "selectSource r (mu_Source update) = Ok (Ok raw')" and pr: "selectProvider r update = Ok configure"
    and flt: "gc_filter_of (buildGCFilter (en_RegistryProviderFunc r) (en_clock r (GCClock update)) mcp shoots update) = Ok flt"
    and F: "Fetch ?L ?iu = Ok srcs"
    and A: "Apply ?L ?iu (profile_caps mcp) base pc srcs = Ok (imgs, pc')"
  have raw: "raw' = raw" using src S by simp
  obtain s where s: "s \<in> set (filter_sources (profile_caps mcp) srcs)"
    "si_Version s = k \<or> en_EnableCapabilities r \<and> si_CleanVersion s = k \<and> k \<noteq> []"
    by (rule Apply_added [of ?iu base, OF _ A, of k]) (use d new in simp_all)
  then obtain y where y: "y \<in> set srcs" "s = y\<lparr>si_Capabilities := filterCapabilities (si_Capabilities y) ?al\<rparr>"
    by (auto simp: filter_sources_fields)
  obtain x where x: "x \<in> set raw" "validate_one ?L x = Some y"
    using Fetch_from [OF pipeline_filter_lawful [OF flt] _ F y(1)] raw by auto
  have cfg: "configure pc (filter_sources (profile_caps mcp) srcs) = Ok pc'"
    using A by (rule Apply_Ok) (auto simp: outcome_simps)
  have arch: "si_Architectures s \<noteq> []" using x(2) y(2) by (auto simp: validate_one_Some)
  note res = Configure_resolves [OF codecs pr cfg s(1) arch]
  show ?thesis
  proof (cases "si_Version s = k")
    case True
    with res show ?thesis by blast
  next
    case False
    with s(2) have c: "en_EnableCapabilities r" "si_CleanVersion s = k" "si_CleanVersion y = k" "k \<noteq> []"
      using y(2) by auto
    with validate_one_clean [OF x(2)] obtain p where p: "si_CleanVersion x \<noteq> []"
      "sv_ParseTolerant ?L (si_CleanVersion x) = Inr p" "k = sv_String ?L p" by auto
    have w: "clean_written r mcp update x" using clean x(1) c(1) p(1) by blast
    show ?thesis
    proof (cases "up_IroncoreMetal (mu_Provider update)")
      case None
      then have "k = si_Version x" using w p by (simp add: clean_written_def)
      then show ?thesis using False validate_one_frame [OF x(2)] y(2) by simp
    next
      case (Some im)
      then have "si_Capabilities s \<noteq> None"
        using w validate_one_frame [OF x(2)] y(2) by (simp add: clean_written_def)
      with res c Some show ?thesis by simp
    qed
  qed
qed

subsection \<open>When an update succeeds\<close>

lemma gc_filter_of_total: "f \<noteq> Panic \<Longrightarrow> \<exists>flt. gc_filter_of f = Ok flt"
  by (cases f) (auto simp: gc_filter_of_def split: option.split)

lemma Fetch_succeeds: "iu_Source iu = Ok raw \<Longrightarrow> \<exists>srcs. Fetch L iu = Ok srcs"
  by (simp add: Fetch_def Let_def)

lemma Apply_succeeds:
  assumes "\<forall>srcs. \<exists>pc'. configure pc srcs = Ok pc'" "iu_Provider iu = Some configure"
  shows "\<exists>imgs pc'. Apply L iu caps base pc srcs = Ok (imgs, pc')"
proof -
  obtain ms i where "locate_image (iu_ImageName iu) base = (ms, i)" by fastforce
  moreover obtain vs where "update_versions L iu (filter_sources caps srcs) (mi_Versions (ms ! i)) = Some vs"
    using update_versions_total by blast
  moreover obtain pc' where "configure pc (filter_sources caps srcs) = Ok pc'" using assms(1) by blast
  ultimately show ?thesis using assms(2) by (simp add: Apply_def Let_def)
qed

text \<open>
  An update succeeds when its source delivers, its minimal version is one, its provider configuration
  can be decoded, and building the garbage collection filter does not panic (its errors are passed over).
\<close>

lemma prepare_succeeds:
  assumes "\<forall>v. mu_MinVersionForUpdate update = Some v \<longrightarrow> sv_valid (en_semver r) v"
    and "selectSource r (mu_Source update) = Ok (Ok raw)" "selectProvider r update = Ok configure"
    and "buildGCFilter (en_RegistryProviderFunc r) (en_clock r (GCClock update)) mcp shoots update \<noteq> Panic"
    and "\<forall>srcs. \<exists>pc'. configure pc srcs = Ok pc'"
  shows "\<exists>imgs pc'. prepareMachineImageUpdate r mcp shoots base pc update = Ok (imgs, pc')"
proof -
  obtain flt where flt: "gc_filter_of (buildGCFilter (en_RegistryProviderFunc r) (en_clock r (GCClock update)) mcp shoots update) = Ok flt"
    using gc_filter_of_total [OF assms(4)] by blast
  let ?iu = "updater_of r update (Ok raw) configure flt"
  obtain srcs where F: "Fetch (en_semver r) ?iu = Ok srcs" using Fetch_succeeds [of ?iu raw] by auto
  obtain imgs pc' where A: "Apply (en_semver r) ?iu (profile_caps mcp) base pc srcs = Ok (imgs, pc')"
    using Apply_succeeds [where configure = configure and pc = pc and iu = ?iu] assms(5)
    unfolding updater_of_simps by blast
  have "(case mu_MinVersionForUpdate update of None \<Rightarrow> None | Some v \<Rightarrow> ValidateMinVersionForUpdate (en_semver r) v) = None"
    using assms(1) by (auto simp: ValidateMinVersionForUpdate_def sv_valid_def split: option.split)
  then show ?thesis
    using assms(2,3) flt F A by (simp add: prepareMachineImageUpdate_def updater_of_def Let_def)
qed

text \<open>The provider of the update can read the configuration; a missing one always can be read.\<close>

definition config_readable :: "'v env \<Rightarrow> MachineImageUpdate \<Rightarrow> RawExtension option \<Rightarrow> bool" where
  "config_readable r update pc \<longleftrightarrow>
     (case up_IroncoreMetal (mu_Provider update) of
        Some im \<Rightarrow> (\<exists>c. decode (en_ironcore_codec r) zero_IMConfig pc = Inr c)
      | None \<Rightarrow> (\<exists>c. decode (en_openstack_codec r) zero_OSConfig pc = Inr c))"

lemma config_readable_None [simp]: "config_readable r update None"
  by (simp add: config_readable_def decode_def split: option.split)

lemma Configure_succeeds:
  assumes "codec_ok (en_ironcore_codec r)" "codec_ok (en_openstack_codec r)" "selectProvider r update = Ok configure"
    and "config_readable r update pc"
  shows "\<forall>srcs. \<exists>pc'. configure pc srcs = Ok pc'"
  using assms(3)
proof (cases rule: selectProvider_cases)
  case (1 im)
  with assms(4) show ?thesis
    using ironcore.raw_succeeds [OF assms(1), of zero_IMConfig pc] by (auto simp: ironcore_Configure_def config_readable_def)
next
  case 2
  with assms(4) show ?thesis
    using openstack.raw_succeeds [OF assms(2), of zero_OSConfig pc] by (auto simp: openstack_Configure_def config_readable_def)
qed

end
