(* ===== verification/PlainCodec.thy ===== *)
theory PlainCodec
  imports IroncoreProvider OpenStackProvider
begin

section \<open>A concrete codec for the witnesses\<close>

text \<open>
  The providers leave the JSON codec of their configuration a parameter and assume that decoding undoes
  encoding. This theory shows that the hypothesis can hold: a prefix code for strings, options, pairs and
  lists, with its round trip, and from it executable codecs for both configuration types. A decoder returns the
  value and the rest of the text.
\<close>

type_synonym 'a decoder = "string \<Rightarrow> ('a \<times> string) option"

definition prefix_code :: "('a \<Rightarrow> string) \<Rightarrow> 'a decoder \<Rightarrow> bool" where
  "prefix_code enc dec \<longleftrightarrow> (\<forall>x r. dec (enc x @ r) = Some (x, r))"

lemma prefix_codeD [simp]: "prefix_code enc dec \<Longrightarrow> dec (enc x @ r) = Some (x, r)"
  by (simp add: prefix_code_def)

subsection \<open>Combinators\<close>

definition enc_pair :: "('a \<Rightarrow> string) \<Rightarrow> ('b \<Rightarrow> string) \<Rightarrow> 'a \<times> 'b \<Rightarrow> string" where
  "enc_pair e f p = e (fst p) @ f (snd p)"

definition dec_pair :: "'a decoder \<Rightarrow> 'b decoder \<Rightarrow> ('a \<times> 'b) decoder" where
  "dec_pair d g s =
     (case d s of None \<Rightarrow> None
      | Some (x, r) \<Rightarrow> (case g r of None \<Rightarrow> None | Some (y, r) \<Rightarrow> Some ((x, y), r)))"

lemma pair_code: "prefix_code e d \<Longrightarrow> prefix_code f g \<Longrightarrow> prefix_code (enc_pair e f) (dec_pair d g)"
  unfolding prefix_code_def by (simp add: enc_pair_def dec_pair_def)

definition enc_list :: "('a \<Rightarrow> string) \<Rightarrow> 'a list \<Rightarrow> string" where
  "enc_list e xs = concat (map (\<lambda>x. CHR ''1'' # e x) xs) @ ''0''"

fun dec_items :: "'a decoder \<Rightarrow> nat \<Rightarrow> 'a list decoder" where
  "dec_items d 0 s = None"
| "dec_items d (Suc n) s =
     (case s of [] \<Rightarrow> None
      | c # r \<Rightarrow>
          if c = CHR ''0'' then Some ([], r)
          else (case d r of None \<Rightarrow> None
                | Some (x, r) \<Rightarrow>
                    (case dec_items d n r of None \<Rightarrow> None | Some (xs, r) \<Rightarrow> Some (x # xs, r))))"

definition dec_list :: "'a decoder \<Rightarrow> 'a list decoder" where
  "dec_list d s = dec_items d (length s) s"

lemma dec_items_enc:
  assumes "prefix_code e d"
  shows "length xs < n \<Longrightarrow> dec_items d n (enc_list e xs @ r) = Some (xs, r)"
proof (induction xs arbitrary: n)
  case Nil
  then show ?case by (cases n) (simp_all add: enc_list_def)
next
  case (Cons x xs)
  then obtain m where n: "n = Suc m" "length xs < m" by (cases n) auto
  have "enc_list e (x # xs) @ r = CHR ''1'' # e x @ enc_list e xs @ r" by (simp add: enc_list_def)
  then show ?case using n assms by (simp add: Cons.IH)
qed

lemma list_code: "prefix_code e d \<Longrightarrow> prefix_code (enc_list e) (dec_list d)"
proof -
  assume c: "prefix_code e d"
  have "length xs < length (enc_list e xs @ r)" for xs r
    by (induction xs) (simp_all add: enc_list_def)
  with dec_items_enc [OF c] show ?thesis unfolding prefix_code_def dec_list_def by blast
qed

definition dec_char :: "char decoder" where
  "dec_char s = (case s of [] \<Rightarrow> None | c # r \<Rightarrow> Some (c, r))"

lemma char_code: "prefix_code (\<lambda>c. [c]) dec_char"
  by (simp add: prefix_code_def dec_char_def)

definition enc_opt :: "('a \<Rightarrow> string) \<Rightarrow> 'a option \<Rightarrow> string" where
  "enc_opt e x = (case x of None \<Rightarrow> ''0'' | Some y \<Rightarrow> CHR ''1'' # e y)"

definition dec_opt :: "'a decoder \<Rightarrow> 'a option decoder" where
  "dec_opt d s =
     (case s of [] \<Rightarrow> None
      | c # r \<Rightarrow>
          if c = CHR ''0'' then Some (None, r)
          else (case d r of None \<Rightarrow> None | Some (x, r) \<Rightarrow> Some (Some x, r)))"

lemma opt_code: "prefix_code e d \<Longrightarrow> prefix_code (enc_opt e) (dec_opt d)"
  unfolding prefix_code_def by (simp add: enc_opt_def dec_opt_def split: option.split)

text \<open>A type is coded through an isomorphic one.\<close>

definition dec_map :: "('a \<Rightarrow> 'b) \<Rightarrow> 'a decoder \<Rightarrow> 'b decoder" where
  "dec_map f d s = map_option (map_prod f (\<lambda>r. r)) (d s)"

lemma iso_code: "prefix_code e d \<Longrightarrow> (\<And>x. f (g x) = x) \<Longrightarrow> prefix_code (e \<circ> g) (dec_map f d)"
  unfolding prefix_code_def by (simp add: dec_map_def)

definition plain_codec :: "('c \<Rightarrow> string) \<Rightarrow> 'c decoder \<Rightarrow> 'c codec" where
  "plain_codec e d =
     \<lparr>unmarshal = (\<lambda>s. case d s of Some (c, []) \<Rightarrow> Inr c | _ \<Rightarrow> Inl (ExtErr ''invalid document'')),
      marshal = (\<lambda>c. Inr (e c))\<rparr>"

lemma plain_codec_ok: "prefix_code e d \<Longrightarrow> codec_ok (plain_codec e d)"
  using prefix_codeD [of e d _ "[]"] by (simp add: codec_ok_def plain_codec_def)

subsection \<open>The configurations\<close>

abbreviation enc_str :: "string \<Rightarrow> string" where
  "enc_str \<equiv> enc_list (\<lambda>c. [c])"

abbreviation dec_str :: "string decoder" where
  "dec_str \<equiv> dec_list dec_char"

abbreviation enc_caps :: "Capabilities \<Rightarrow> string" where
  "enc_caps \<equiv> enc_opt (enc_list (enc_pair enc_str (enc_list enc_str)))"

abbreviation dec_caps :: "Capabilities decoder" where
  "dec_caps \<equiv> dec_opt (dec_list (dec_pair dec_str (dec_list dec_str)))"

lemmas str_code = list_code [OF char_code]
lemmas caps_code = opt_code [OF list_code [OF pair_code [OF str_code list_code [OF str_code]]]]

definition enc_IMFlavor :: "IMFlavor \<Rightarrow> string" where
  "enc_IMFlavor = enc_pair enc_str (enc_pair enc_caps enc_str) \<circ> (\<lambda>f. (if_Image f, if_Capabilities f, if_other f))"

definition dec_IMFlavor :: "IMFlavor decoder" where
  "dec_IMFlavor =
     dec_map (\<lambda>(a, b, c). \<lparr>if_Image = a, if_Capabilities = b, if_other = c\<rparr>) (dec_pair dec_str (dec_pair dec_caps dec_str))"

lemma IMFlavor_code: "prefix_code enc_IMFlavor dec_IMFlavor"
  unfolding enc_IMFlavor_def dec_IMFlavor_def
  by (intro iso_code pair_code str_code caps_code) simp

definition enc_IMVersion :: "IMVersion \<Rightarrow> string" where
  "enc_IMVersion =
     enc_pair enc_str (enc_pair enc_str (enc_pair (enc_opt enc_str) (enc_pair (enc_list enc_IMFlavor) enc_str))) \<circ>
     (\<lambda>v. (iv_Version v, iv_Image v, iv_Architecture v, iv_CapabilityFlavors v, iv_other v))"

definition dec_IMVersion :: "IMVersion decoder" where
  "dec_IMVersion =
     dec_map (\<lambda>(a, b, c, d, e). \<lparr>iv_Version = a, iv_Image = b, iv_Architecture = c, iv_CapabilityFlavors = d, iv_other = e\<rparr>)
       (dec_pair dec_str (dec_pair dec_str (dec_pair (dec_opt dec_str) (dec_pair (dec_list dec_IMFlavor) dec_str))))"

lemma IMVersion_code: "prefix_code enc_IMVersion dec_IMVersion"
  unfolding enc_IMVersion_def dec_IMVersion_def
  by (intro iso_code pair_code opt_code list_code [OF IMFlavor_code] str_code) simp

definition enc_IMImages :: "IMImages \<Rightarrow> string" where
  "enc_IMImages =
     enc_pair enc_str (enc_pair (enc_list enc_IMVersion) enc_str) \<circ> (\<lambda>i. (ii_Name i, ii_Versions i, ii_other i))"

definition dec_IMImages :: "IMImages decoder" where
  "dec_IMImages =
     dec_map (\<lambda>(a, b, c). \<lparr>ii_Name = a, ii_Versions = b, ii_other = c\<rparr>)
       (dec_pair dec_str (dec_pair (dec_list dec_IMVersion) dec_str))"

lemma IMImages_code: "prefix_code enc_IMImages dec_IMImages"
  unfolding enc_IMImages_def dec_IMImages_def
  by (intro iso_code pair_code list_code [OF IMVersion_code] str_code) simp

definition im_codec :: "IMConfig codec" where
  "im_codec =
     plain_codec (enc_pair (enc_list enc_IMImages) enc_str \<circ> (\<lambda>c. (ic_MachineImages c, ic_other c)))
       (dec_map (\<lambda>(a, b). \<lparr>ic_MachineImages = a, ic_other = b\<rparr>) (dec_pair (dec_list dec_IMImages) dec_str))"

lemma im_codec_ok: "codec_ok im_codec"
  unfolding im_codec_def
  by (intro plain_codec_ok iso_code pair_code list_code [OF IMImages_code] str_code) simp

definition enc_Region :: "RegionIDMapping \<Rightarrow> string" where
  "enc_Region = enc_pair enc_str (enc_pair enc_str enc_str) \<circ> (\<lambda>r. (rm_Name r, rm_ID r, rm_other r))"

definition dec_Region :: "RegionIDMapping decoder" where
  "dec_Region =
     dec_map (\<lambda>(a, b, c). \<lparr>rm_Name = a, rm_ID = b, rm_other = c\<rparr>) (dec_pair dec_str (dec_pair dec_str dec_str))"

lemma Region_code: "prefix_code enc_Region dec_Region"
  unfolding enc_Region_def dec_Region_def by (intro iso_code pair_code str_code) simp

definition enc_OSFlavor :: "OSImageFlavor \<Rightarrow> string" where
  "enc_OSFlavor =
     enc_pair enc_caps (enc_pair (enc_list enc_Region) enc_str) \<circ> (\<lambda>f. (of_Capabilities f, of_Regions f, of_other f))"

definition dec_OSFlavor :: "OSImageFlavor decoder" where
  "dec_OSFlavor =
     dec_map (\<lambda>(a, b, c). \<lparr>of_Capabilities = a, of_Regions = b, of_other = c\<rparr>)
       (dec_pair dec_caps (dec_pair (dec_list dec_Region) dec_str))"

lemma OSFlavor_code: "prefix_code enc_OSFlavor dec_OSFlavor"
  unfolding enc_OSFlavor_def dec_OSFlavor_def
  by (intro iso_code pair_code caps_code list_code [OF Region_code] str_code) simp

definition enc_OSVersion :: "OSImageVersion \<Rightarrow> string" where
  "enc_OSVersion =
     enc_pair enc_str (enc_pair (enc_list enc_Region) (enc_pair (enc_list enc_OSFlavor) enc_str)) \<circ>
     (\<lambda>v. (ov_Version v, ov_Regions v, ov_CapabilityFlavors v, ov_other v))"

definition dec_OSVersion :: "OSImageVersion decoder" where
  "dec_OSVersion =
     dec_map (\<lambda>(a, b, c, d). \<lparr>ov_Version = a, ov_Regions = b, ov_CapabilityFlavors = c, ov_other = d\<rparr>)
       (dec_pair dec_str (dec_pair (dec_list dec_Region) (dec_pair (dec_list dec_OSFlavor) dec_str)))"

lemma OSVersion_code: "prefix_code enc_OSVersion dec_OSVersion"
  unfolding enc_OSVersion_def dec_OSVersion_def
  by (intro iso_code pair_code list_code [OF Region_code] list_code [OF OSFlavor_code] str_code) simp

definition enc_OSImages :: "OSImages \<Rightarrow> string" where
  "enc_OSImages =
     enc_pair enc_str (enc_pair (enc_list enc_OSVersion) enc_str) \<circ> (\<lambda>i. (oi_Name i, oi_Versions i, oi_other i))"

definition dec_OSImages :: "OSImages decoder" where
  "dec_OSImages =
     dec_map (\<lambda>(a, b, c). \<lparr>oi_Name = a, oi_Versions = b, oi_other = c\<rparr>)
       (dec_pair dec_str (dec_pair (dec_list dec_OSVersion) dec_str))"

lemma OSImages_code: "prefix_code enc_OSImages dec_OSImages"
  unfolding enc_OSImages_def dec_OSImages_def
  by (intro iso_code pair_code list_code [OF OSVersion_code] str_code) simp

definition os_codec :: "OSConfig codec" where
  "os_codec =
     plain_codec (enc_pair (enc_list enc_OSImages) enc_str \<circ> (\<lambda>c. (oc_MachineImages c, oc_other c)))
       (dec_map (\<lambda>(a, b). \<lparr>oc_MachineImages = a, oc_other = b\<rparr>) (dec_pair (dec_list dec_OSImages) dec_str))"

lemma os_codec_ok: "codec_ok os_codec"
  unfolding os_codec_def
  by (intro plain_codec_ok iso_code pair_code list_code [OF OSImages_code] str_code) simp

end
