(* ===== verification/ExampleEnv.thy ===== *)
theory ExampleEnv
  imports Reconciler PlainCodec
begin

section \<open>A concrete environment for the witnesses\<close>

text \<open>
  An OCI registry with two Garden Linux images, a Keppel registry that knows when their tags were pushed, two
  OpenStack regions, a landscape repository with one component descriptor, a shoot, and an API
  server that stores one CloudProfile. Every hypothesis about an environment holds in it.
\<close>

subsection \<open>Registries\<close>

definition example_repo :: repository where
  "example_repo =
     \<lparr>rp_Tags = ([[''1.0.0'', ''2.0.0'']], None),
      rp_FetchReference = (\<lambda>tag. Inr tag),
      rp_Annotations = (\<lambda>m. Inr [(''architecture'', ''amd64''), (''version'', m), (''feature_set'', ''_usi'')])\<rparr>"

definition example_factory :: OCISourceFactory where
  "example_factory =
     DefaultOCISourceFactory_Create (\<lambda>reference. None) (\<lambda>config. example_repo) (\<lambda>src tags. map (read_tag src) tags)"

definition example_registry :: "string \<Rightarrow> RegistryClient outcome" where
  "example_registry registry = Ok (\<lambda>registry repository. Ok [(''1.0.0'', 0), (''2.0.0'', 900)])"

definition example_cd :: componentDescriptor where
  "example_cd =
     \<lparr>cd_Resources =
        [\<lparr>re_Name = ''kube-apiserver'', re_Version = ''1.30.0'',
          re_Access = \<lparr>ra_Type = [], ra_LocalReference = [], ra_MediaType = [], ra_Size = 0\<rparr>\<rparr>,
         \<lparr>re_Name = ''kubernetes-version-data'', re_Version = ''1'',
          re_Access = \<lparr>ra_Type = ''localBlob/v1'', ra_LocalReference = ''blob'', ra_MediaType = ''text'', ra_Size = 1\<rparr>\<rparr>],
      cd_ComponentReferences =
        [\<lparr>rf_ComponentName = ''github.com/gardener/gardener'', rf_Version = ''v1.100.0''\<rparr>]\<rparr>"

definition example_landscape :: landscape_repo where
  "example_landscape =
     \<lparr>lr_Reference = ''landscape'', lr_Tags = ([[''1.0.0''], [''1.1.0'']], None), lr_FetchBytes = (\<lambda>tag. Inr tag),
      lr_Layers = (\<lambda>m. Inr [m]), lr_FetchAll = (\<lambda>l. Inr l),
      lr_Tar = (\<lambda>b. ([(''./component-descriptor.yaml'', Inr b)], None)), lr_Descriptor = (\<lambda>b. Inr example_cd),
      lr_Blob = (\<lambda>ref size media. Inr ref), lr_ReadAll = (\<lambda>rc. Inr rc),
      lr_Providers = (\<lambda>raw. Inr [\<lparr>pv_Name = ''openstack'', pv_Versions =
        [\<lparr>yv_Version = ''1.30.0'', yv_Classification = Some ClassificationSupported, yv_ExpirationDate = None\<rparr>,
         \<lparr>yv_Version = ''1.29.0'', yv_Classification = None, yv_ExpirationDate = None\<rparr>]\<rparr>])\<rparr>"

text \<open>Two regions, each with a public image of the same version.\<close>

definition example_image :: "string \<Rightarrow> GlanceImage" where
  "example_image rid =
     \<lparr>gi_ID = rid, gi_Name = ''gardenlinux-openstack-gardener_prod-amd64-3.0.0-abc'', gi_Status = ''active'', gi_CreatedAt = 1\<rparr>"

definition example_gophercloud :: gophercloud where
  "example_gophercloud =
     \<lparr>gc_NewClient = (\<lambda>u. Inr u), gc_WithTimeout = (\<lambda>c t. c), gc_Authenticate = (\<lambda>c opts. Inr c),
      gc_NewImageV2 = (\<lambda>c region. Inr region), gc_AllPages = (\<lambda>c visibility n. Inr c),
      gc_ExtractImages = (\<lambda>p. Inr [example_image p])\<rparr>"

subsection \<open>The API server\<close>

definition example_ref :: SecretReference where
  "example_ref = \<lparr>sr_Name = ''credentials'', sr_Namespace = ''garden'', sr_Key = ''password''\<rparr>"

definition example_oci :: OCI where
  "example_oci =
     \<lparr>oci_Registry = ''keppel.example.com'', oci_Repository = ''account/gardenlinux'', oci_Username = ''user'',
      oci_Password = example_ref, oci_Insecure = False, oci_ImageFilter = None,
      oci_FeatureToCapabilityMap = [(''_usi'', ''secureboot'')]\<rparr>"

definition example_glance :: GlanceSource where
  "example_glance =
     \<lparr>gl_AuthURLFormat = ''https://identity.%s/v3'', gl_Regions = [''eu-1'', ''eu-2''], gl_NamePrefix = [],
      gl_KeepLatest = 2, gl_VersionOffset = 0, gl_ExcludedSuffixes = [], gl_RequireAllRegions = True,
      gl_Parallel = 2, gl_ProjectName = ''p'', gl_ProjectDomainName = ''d'', gl_Username = ''u'',
      gl_UserDomainName = ''d'', gl_PasswordSecret = example_ref\<rparr>"

definition openstack_update :: MachineImageUpdate where
  "openstack_update =
     \<lparr>mu_Source = \<lparr>us_OCI = Some example_oci, us_Glance = None\<rparr>,
      mu_Provider = \<lparr>up_IroncoreMetal = None, up_OpenStack = Some ()\<rparr>,
      mu_ImageName = ''gardenlinux'', mu_MinVersionForUpdate = Some ''1.0.0''\<rparr>"

definition ironcore_update :: MachineImageUpdate where
  "ironcore_update = openstack_update\<lparr>mu_Provider :=
     \<lparr>up_IroncoreMetal = Some \<lparr>im_Registry = ''registry'', im_Repository = ''images''\<rparr>, up_OpenStack = None\<rparr>\<rparr>"

definition glance_update :: MachineImageUpdate where
  "glance_update = openstack_update\<lparr>mu_Source := \<lparr>us_OCI = None, us_Glance = Some example_glance\<rparr>\<rparr>"

definition example_k8s :: KubernetesVersionUpdateConfig where
  "example_k8s =
     \<lparr>ku_ExpirationThreshold = 0,
      ku_LandscapeSetup = Some \<lparr>ls_OCI = example_oci, ls_Provider = ''openstack''\<rparr>\<rparr>"

definition example_base :: CloudProfileSpec where
  "example_base =
     \<lparr>cs_CABundle = None, cs_Kubernetes = \<lparr>ks_Versions = []\<rparr>, cs_MachineImages = [], cs_MachineTypes = ''types'',
      cs_ProviderConfig = None, cs_Regions = ''regions'', cs_SeedSelector = [], cs_Type = ''openstack'',
      cs_VolumeTypes = [], cs_Bastion = [], cs_Limits = [],
      cs_MachineCapabilities = [\<lparr>cd_Name = ''architecture'', cd_Values = [''amd64'', ''arm64'']\<rparr>],
      cs_ControlPlane = []\<rparr>"

definition example_mcp :: ManagedCloudProfile where
  "example_mcp =
     \<lparr>mcp_Name = ''profile'', mcp_Generation = 1,
      mcp_Spec =
        \<lparr>ms_CloudProfile = example_base, ms_MachineImagesPaused = False, ms_MachineImageUpdates = [openstack_update],
         ms_GarbageCollection = Some \<lparr>gc_Enabled = True, gc_MaxAge = 500\<rparr>, ms_KubernetesUpdate = Some example_k8s\<rparr>,
      mcp_Status = \<lparr>st_Status = UnsetReconcileStatus, st_Conditions = []\<rparr>\<rparr>"

definition paused_mcp :: ManagedCloudProfile where
  "paused_mcp = example_mcp\<lparr>mcp_Spec := (mcp_Spec example_mcp)\<lparr>ms_MachineImagesPaused := True\<rparr>\<rparr>"

definition example_shoot :: Shoot where
  "example_shoot =
     \<lparr>sh_CloudProfile = Some ''profile'',
      sh_WorkerImages = [None, Some \<lparr>sm_Name = ''gardenlinux'', sm_Version = Some ''1.0.0''\<rparr>],
      sh_GardenerVersion = ''v1.100.2''\<rparr>"

definition example_version :: MachineImageVersion where
  "example_version =
     \<lparr>mv_Version = ''0.9.0'', mv_Classification = Some ClassificationDeprecated, mv_ExpirationDate = Some 77,
      mv_Architectures = [''amd64''], mv_InPlaceUpdates = None, mv_CapabilityFlavors = [], mv_other = []\<rparr>"

definition example_images :: "MachineImage list" where
  "example_images = [\<lparr>mi_Name = ''gardenlinux'', mi_Versions = [example_version], mi_other = []\<rparr>]"

definition stored_profile :: "CloudProfile \<Rightarrow> CloudProfile" where
  "stored_profile cp = cp\<lparr>cp_Spec := (cp_Spec cp)\<lparr>gs_MachineImages := example_images\<rparr>\<rparr>"

definition example_env :: "nat list env" where
  "example_env =
     \<lparr>en_semver = plain_semver,
      en_clock = (\<lambda>c. 1000),
      en_GetMCP = (\<lambda>name. Inr example_mcp),
      en_IsNotFound = (\<lambda>e. False),
      en_IsInvalid = (\<lambda>e. False),
      en_ListShoots = Inr [example_shoot],
      en_GetSecret = (\<lambda>name namespace. Inr [(''password'', ''secret'')]),
      en_SetControllerReference = (\<lambda>mcp cp. Inr (cp\<lparr>cp_meta := ''owner''\<rparr>)),
      en_SetDefaults = (\<lambda>cp. cp),
      en_CreateOrPatch = (\<lambda>cp f. f (stored_profile cp)),
      en_status = \<lparr>sc_now = 1000, sc_DeepEqual = (\<lambda>a b. a = b), sc_Patch = (\<lambda>a b. None), sc_show = (\<lambda>e. ''error'')\<rparr>,
      en_OCISourceFactory = example_factory,
      en_RegistryProviderFunc = example_registry,
      en_EnableCapabilities = True,
      en_gophercloud = example_gophercloud,
      en_glance_order = (\<lambda>m. m),
      en_glance_deliver =
        (\<lambda>g. map (discoverRegion plain_semver (\<lambda>f a. f) g (\<lambda>m. m)) [''eu-1'', ''eu-2'']),
      en_openstack_codec = os_codec,
      en_ironcore_codec = im_codec,
      en_NewRepository = (\<lambda>reference. None),
      en_landscape_repo = (\<lambda>config. example_landscape),
      en_version_order = (\<lambda>vs. vs)\<rparr>"

subsection \<open>What the sources deliver\<close>

lemma trim_usi [simp]: "str_TrimSpace ''_usi'' = ''_usi''"
  by (rule str_TrimSpace_printable) (simp_all add: printable_def)

lemma split_usi [simp]: "splitAnnotationRaw ''_usi'' = {''_usi''}"
  by (auto simp: splitAnnotationRaw_eq)

definition example_source :: OCISource where
  "example_source =
     \<lparr>os_repo = example_repo, os_parallel = 1, os_featureToCapabilityMap = [(''_usi'', ''secureboot'')],
      os_imageFilter = None\<rparr>"

definition example_delivered :: "string \<Rightarrow> SourceImage" where
  "example_delivered tag =
     \<lparr>si_Version = tag, si_CleanVersion = tag, si_Architectures = [''amd64''],
      si_Capabilities = Some [(''architecture'', [''amd64'']), (''secureboot'', [''true''])],
      si_SupportInPlaceUpdate = True, si_Regions = [], si_Classification = None, si_ExpirationDate = None\<rparr>"

lemma example_read_tag:
  "read_tag example_source ''1.0.0'' = Inr \<lparr>ci_image = example_delivered ''1.0.0'', ci_featureSetRaw = ''_usi''\<rparr>"
  "read_tag example_source ''2.0.0'' = Inr \<lparr>ci_image = example_delivered ''2.0.0'', ci_featureSetRaw = ''_usi''\<rparr>"
  by (simp_all add: read_tag_def example_source_def example_repo_def example_delivered_def Let_def
      ArchitectureCapability_def FeatureSetAnnotation_def supportsInPlaceUpdate_def usiImageFeature_def
      image_capabilities_def)

lemma example_source_simps [simp]:
  "rp_Tags (os_repo example_source) = ([[''1.0.0'', ''2.0.0'']], None)"
  "os_imageFilter example_source = None"
  by (simp_all add: example_source_def example_repo_def)

lemma example_GetVersions:
  "oci_GetVersions example_source (map (read_tag example_source)) =
     Ok [example_delivered ''1.0.0'', example_delivered ''2.0.0'']"
  by (simp add: oci_GetVersions_def oci_collected_def Let_def example_read_tag errors_Join_def)

lemma example_env_simps [simp]:
  "en_semver example_env = plain_semver" "en_clock example_env c = 1000"
  "en_ListShoots example_env = Inr [example_shoot]"
  "en_SetDefaults example_env cp = cp" "en_CreateOrPatch example_env cp f = f (stored_profile cp)"
  "en_OCISourceFactory example_env = example_factory" "en_RegistryProviderFunc example_env = example_registry"
  "en_EnableCapabilities example_env = True" "en_gophercloud example_env = example_gophercloud"
  "en_glance_order example_env = (\<lambda>m. m)" "en_openstack_codec example_env = os_codec"
  "en_ironcore_codec example_env = im_codec" "en_version_order example_env = (\<lambda>vs. vs)"
  "en_landscape_repo example_env config = example_landscape" "en_NewRepository example_env reference = None"
  "en_IsInvalid example_env err = False"
  by (simp_all add: example_env_def)

lemma example_selectSource:
  "selectSource example_env (mu_Source openstack_update) =
     Ok (Ok [example_delivered ''1.0.0'', example_delivered ''2.0.0''])"
proof -
  have p: "getCredential example_env example_ref = Ok ''secret''"
    by (simp add: getCredential_def example_ref_def example_env_def)
  have "\<lparr>os_repo = example_repo, os_parallel = 1, os_featureToCapabilityMap = [(''_usi'', ''secureboot'')],
      os_imageFilter = None\<rparr> = example_source" by (simp add: example_source_def)
  then show ?thesis
    by (simp add: selectSource_def openstack_update_def example_oci_def newOCISource_def p example_factory_def
        DefaultOCISourceFactory_Create_def NewOCI_def ocirepo_New_def Let_def example_GetVersions)
qed

lemma ironcore_update_simps [simp]:
  "mu_Source ironcore_update = mu_Source openstack_update" "mu_ImageName ironcore_update = ''gardenlinux''"
  "mu_MinVersionForUpdate ironcore_update = Some ''1.0.0''"
  "up_IroncoreMetal (mu_Provider ironcore_update) = Some \<lparr>im_Registry = ''registry'', im_Repository = ''images''\<rparr>"
  "mu_ImageName openstack_update = ''gardenlinux''" "mu_MinVersionForUpdate openstack_update = Some ''1.0.0''"
  "mu_Provider openstack_update = \<lparr>up_IroncoreMetal = None, up_OpenStack = Some ()\<rparr>"
  by (simp_all add: ironcore_update_def openstack_update_def)

lemma example_parse [simp]:
  "plain_Parse ''1.0.0'' = Inr [1, 0, 0]" "plain_Parse ''2.0.0'' = Inr [2, 0, 0]"
  "plain_ParseTolerant ''1.0.0'' = Inr [1, 0, 0]" "plain_ParseTolerant ''2.0.0'' = Inr [2, 0, 0]"
  "plain_String [1, 0, 0] = ''1.0.0''" "plain_String [2, 0, 0] = ''2.0.0''"
  by code_simp+

lemma plain_semver_simps [simp]:
  "sv_Parse plain_semver = plain_Parse" "sv_ParseTolerant plain_semver = plain_ParseTolerant"
  "sv_String plain_semver = plain_String" "sv_Compare plain_semver = cmp_Compare"
  by (simp_all add: plain_semver_def)

end
