(* ===== verification/Examples.thy ===== *)
theory Examples
  imports ReconcilerProps UpdatePipeline ExampleEnv
begin

section \<open>The properties at work in the example environment\<close>

text \<open>
  The witnesses of the reconciler's properties: in the example environment the updates succeed, the
  profile is written, and every hypothesis of the properties holds.
\<close>

subsection \<open>The updates\<close>

lemma example_prepare:
  assumes "update = openstack_update \<or> update = ironcore_update"
  shows "\<exists>imgs pc'. prepareMachineImageUpdate example_env example_mcp (Some [example_shoot]) [] None update = Ok (imgs, pc')"
proof -
  have src: "selectSource example_env (mu_Source update) =
      Ok (Ok [example_delivered ''1.0.0'', example_delivered ''2.0.0''])"
    using assms example_selectSource by auto
  obtain configure where p: "selectProvider example_env update = Ok configure"
    using assms by (auto simp: selectProvider_def)
  have "buildGCFilter example_registry 1000 example_mcp (Some [example_shoot]) update \<noteq> Panic"
    by (auto simp: buildGCFilter_def example_registry_def referencedVersions_def outcome_simps Let_def
        split: option.split)
  then show ?thesis
    using assms Configure_succeeds [OF _ _ p config_readable_None] im_codec_ok os_codec_ok
    by (intro prepare_succeeds [OF _ src p]) (auto simp: sv_valid_def)
qed

lemma example_kubernetes:
  "prepareKubernetesUpdate example_env example_k8s (Some [example_shoot]) =
     Ok [\<lparr>ev_Version = ''1.30.0'', ev_Classification = Some ClassificationSupported, ev_ExpirationDate = None\<rparr>]"
proof -
  have p: "getCredential example_env example_ref = Ok ''secret''"
    by (simp add: getCredential_def example_ref_def example_env_def)
  have g: "gardenerVersionFromShoots example_env [example_shoot] = Ok ''v1.100.2''" by code_simp
  have l: "landscape_FetchVersions plain_semver \<lparr>lk_ociRepo = example_landscape, lk_provider = ''openstack''\<rparr> (Some ''v1.100.2'') =
      Ok [\<lparr>ev_Version = ''1.30.0'', ev_Classification = Some ClassificationSupported, ev_ExpirationDate = None\<rparr>]"
    by code_simp
  show ?thesis
    by (simp add: prepareKubernetesUpdate_def example_k8s_def landscapeSetupSource_def p example_oci_def
        NewLandscapeKubernetesSource_def ocirepo_New_def Let_def g k8s_Fetch_def NewKubernetesVersionUpdater_def l
        k8s_Apply_def)
qed


subsection \<open>The hypotheses\<close>

lemma example_factory_quiet: "factory_quiet example_env"
  by (auto simp: factory_quiet_def example_factory_def DefaultOCISourceFactory_Create_def NewOCI_def ocirepo_New_def
      Let_def oci_GetVersions_def oci_collected_def errors_Join_def split: prod.split option.split)

lemma example_registry_quiet: "registry_quiet example_env"
  by (simp add: registry_quiet_def example_registry_def)

lemma example_writer_quiet: "writer_quiet example_env"
  by (auto simp: writer_quiet_def)

lemma example_patches: "patches example_env stored_profile"
  by (simp add: patches_def)

lemma example_owner_only: "owner_only example_env"
  by (simp add: owner_only_def example_env_def)

lemma mcp_simps [simp]:
  "ms_MachineImageUpdates (mcp_Spec example_mcp) = [openstack_update]"
  "ms_MachineImagesPaused (mcp_Spec example_mcp) = False"
  "ms_MachineImagesPaused (mcp_Spec paused_mcp) = True"
  "ms_KubernetesUpdate (mcp_Spec example_mcp) = Some example_k8s"
  "ms_KubernetesUpdate (mcp_Spec paused_mcp) = Some example_k8s"
  "ms_CloudProfile (mcp_Spec example_mcp) = example_base"
  "cs_MachineImages example_base = []" "cs_ProviderConfig example_base = None"
  by (simp_all add: example_mcp_def paused_mcp_def example_base_def)

lemma example_needShoots: "needShoots example_mcp" "needShoots paused_mcp"
  by (simp_all add: needShoots_def Let_def)

lemma mutate_succeeds: "\<exists>p. mutate_profile example_env mcp imgs pc versions cp = Ok p"
  by (simp add: mutate_profile_def example_env_def Let_def split: prod.split)

lemma example_written:
  assumes "mcp = example_mcp \<or> mcp = paused_mcp"
  shows "\<exists>p. re_written (reconcileCloudProfile example_env mcp) = Some p"
proof -
  obtain imgs pc where P: "prepareMachineImageUpdate example_env example_mcp (Some [example_shoot]) [] None openstack_update = Ok (imgs, pc)"
    using example_prepare by blast
  have "\<exists>imgs pc versions. reconcile_with_shoots example_env mcp (Some [example_shoot]) = apply_profile example_env mcp imgs pc versions"
    using assms P by (auto simp: reconcile_with_shoots_def Let_def example_kubernetes) blast+
  then obtain imgs pc versions where R: "reconcileCloudProfile example_env mcp = apply_profile example_env mcp imgs pc versions"
    using assms example_needShoots by (auto simp: reconcileCloudProfile_def)
  obtain p where "mutate_profile example_env mcp imgs pc versions (stored_profile (new_profile mcp)) = Ok p"
    using mutate_succeeds by blast
  then show ?thesis unfolding R apply_profile_written by simp
qed

lemma example_quiet:
  "\<forall>update\<in>set (ms_MachineImageUpdates (mcp_Spec example_mcp)). glance_fits example_env (mu_Source update)"
  by (simp add: glance_fits_def permuting_def openstack_update_def)

subsection \<open>The witnesses\<close>

definition example_manager :: "nat list env" where
  "example_manager = setup_defaults example_env None None example_factory
     \<lparr>ht_NewRequest = (\<lambda>url. None), ht_Do = (\<lambda>url. Inl (ExtErr ''down'')), ht_Decode = (\<lambda>body. Inr [])\<rparr> (\<lambda>s. s)"


theorem reconcile_writes_witness:
  "\<exists>p pre imgs pc versions. re_written (reconcileCloudProfile example_env example_mcp) = Some p \<and>
     prepare_updates example_env example_mcp (Some [example_shoot]) [openstack_update] ([], None) = Ok (imgs, pc) \<and>
     cp_Spec pre = profile_spec (mcp_Spec example_mcp) (cp_Spec (stored_profile (new_profile example_mcp))) (imgs, pc) versions \<and>
     p = pre"
proof -
  obtain p where p: "re_written (reconcileCloudProfile example_env example_mcp) = Some p"
    using example_written by blast
  from reconcile_writes [OF example_patches example_owner_only p] obtain pre shoots imgs pc versions where
    w: "listed_shoots example_env example_mcp shoots"
    "prepare_updates example_env example_mcp shoots [openstack_update] ([], None) = Ok (imgs, pc)"
    "p = pre" "cp_Spec pre = profile_spec (mcp_Spec example_mcp) (cp_Spec (stored_profile (new_profile example_mcp))) (imgs, pc) versions"
    by auto
  have "shoots = Some [example_shoot]"
    using w(1) by (simp add: listed_shoots_def example_needShoots split: option.splits)
  with p w show ?thesis by blast
qed

lemma example_images_ok: "slash_free example_images" "entries_distinct example_images"
  by (simp_all add: slash_free_def entries_distinct_def entries_def example_images_def example_version_def)

theorem paused_keeps_witness:
  "\<exists>p. re_written (reconcileCloudProfile example_env paused_mcp) = Some p \<and>
     gs_MachineImages (cp_Spec p) = example_images"
proof -
  obtain p where p: "re_written (reconcileCloudProfile example_env paused_mcp) = Some p"
    using example_written by blast
  have old: "gs_MachineImages (cp_Spec (stored_profile (new_profile paused_mcp))) = example_images"
    by (simp add: stored_profile_def)
  from paused_keeps [OF example_patches example_owner_only p _ refl] example_images_ok old have
    "\<exists>pre. p = pre \<and> gs_MachineImages (cp_Spec pre) = example_images"
    by (simp add: example_images_def)
  with p show ?thesis by blast
qed


theorem gardenerVersion_minimum_witness:
  "(case gardenerVersionFromShoots example_env [example_shoot] of Ok v \<Rightarrow> v = ''v1.100.2'' | _ \<Rightarrow> False)"
proof -
  have "gardener_versions [example_shoot] = {''v1.100.2''}"
    by (auto simp: gardener_versions_def example_shoot_def)
  moreover have "sv_parsable plain_semver ''v1.100.2''"
  proof -
    have "plain_ParseTolerant ''v1.100.2'' = Inr [1, 100, 2]" by code_simp
    then show ?thesis by (simp add: sv_parsable_def)
  qed
  ultimately show ?thesis
    using gardenerVersion_minimum [of example_env "[example_shoot]"] plain_order by (auto split: outcome.splits)
qed

theorem expiration_is_sticky_witness:
  "(''gardenlinux'', example_version) \<in> set (entries (carryExpirationDates example_images
      [\<lparr>mi_Name = ''gardenlinux'', mi_Versions = [example_version\<lparr>mv_ExpirationDate := Some 500\<rparr>], mi_other = []\<rparr>]))"
proof -
  let ?w = "example_version\<lparr>mv_ExpirationDate := Some 500\<rparr>"
  let ?imgs = "[\<lparr>mi_Name = ''gardenlinux'', mi_Versions = [?w], mi_other = []\<rparr>]"
  have v: "(''gardenlinux'', example_version) \<in> set (entries example_images)" "mv_ExpirationDate example_version = Some 77"
    by (simp_all add: entries_def example_images_def example_version_def)
  have w: "(''gardenlinux'', ?w) \<in> set (entries ?imgs)" "mv_Version ?w = mv_Version example_version"
    by (simp_all add: entries_def)
  have "mv_Classification ?w = Some ClassificationDeprecated" "?w\<lparr>mv_ExpirationDate := Some 77\<rparr> = example_version"
    by (simp_all add: example_version_def)
  with expiration_is_sticky [OF example_images_ok v w] show ?thesis by simp
qed

end
