(* ===== verification/ComponentExamples.thy ===== *)
theory ComponentExamples
  imports ExampleEnv
begin

section \<open>The properties of the components at work\<close>

text \<open>The witnesses of the component properties, each at a concrete input where its hypotheses hold.\<close>

subsection \<open>The image updater\<close>

definition example_updater :: ImageUpdater where
  "example_updater =
     \<lparr>iu_Source = Ok [example_delivered ''2.0.0'', example_delivered ''1.0.0''], iu_Provider = None,
      iu_ImageName = ''gardenlinux'', iu_EnableCapabilities = True, iu_MinVersionForUpdate = None, iu_Filter = None\<rparr>"

definition example_srcs :: "SourceImage list" where
  "example_srcs = [example_delivered ''1.0.0'', example_delivered ''2.0.0'']"

definition example_caps :: "CapabilityDefinition list" where
  "example_caps = [\<lparr>cd_Name = ''architecture'', cd_Values = [''amd64'', ''arm64'']\<rparr>]"

lemma example_updater_simps [simp]:
  "iu_Source example_updater = Ok [example_delivered ''2.0.0'', example_delivered ''1.0.0'']"
  "iu_Provider example_updater = None" "iu_ImageName example_updater = ''gardenlinux''"
  "iu_EnableCapabilities example_updater = True" "iu_Filter example_updater = None"
  by (simp_all add: example_updater_def)

lemma example_delivered_simps [simp]:
  "si_Version (example_delivered tag) = tag" "si_CleanVersion (example_delivered tag) = tag"
  "si_Architectures (example_delivered tag) = [''amd64'']"
  "si_Capabilities (example_delivered tag) = Some [(''architecture'', [''amd64'']), (''secureboot'', [''true''])]"
  by (simp_all add: example_delivered_def)

lemma Apply_without_provider:
  assumes "iu_Provider iu = None"
  shows "\<exists>imgs. Apply L iu caps base pc srcs = Ok (imgs, pc)"
proof -
  obtain ms i where "locate_image (iu_ImageName iu) base = (ms, i)" by fastforce
  moreover obtain vs where "update_versions L iu (filter_sources caps srcs) (mi_Versions (ms ! i)) = Some vs"
    using update_versions_total by blast
  ultimately show ?thesis using assms by (simp add: Apply_def Let_def)
qed

lemma example_Apply: "\<exists>imgs. Apply L example_updater caps base pc srcs = Ok (imgs, pc)"
  by (rule Apply_without_provider) simp

lemma example_base_versions: "image_versions ''gardenlinux'' example_images = [example_version]"
  by (simp add: image_versions_def example_images_def)

lemma example_distinct: "versions_distinct (image_versions (iu_ImageName example_updater) example_images)"
  by (simp add: example_base_versions)

theorem Fetch_valid_sorted_witness:
  "\<exists>xs. Fetch plain_semver example_updater = Ok xs \<and> sorted_by source_cmp xs \<and> (\<forall>x\<in>set xs. valid_source plain_semver x)"
proof -
  have f: "filter_lawful example_updater" by (simp add: filter_lawful_def)
  obtain xs where xs: "Fetch plain_semver example_updater = Ok xs" by (simp add: Fetch_def Let_def)
  with Fetch_valid_sorted [OF plain_canonical f xs] show ?thesis by blast
qed

theorem Apply_refines_witness:
  "\<exists>imgs. Apply plain_semver example_updater example_caps example_images None example_srcs = Ok (imgs, None) \<and>
     versions_distinct (image_versions ''gardenlinux'' imgs)"
proof -
  obtain imgs where A: "Apply plain_semver example_updater example_caps example_images None example_srcs = Ok (imgs, None)"
    using example_Apply by blast
  with Apply_refines [OF example_distinct A] show ?thesis unfolding example_updater_simps by blast
qed

theorem Apply_keeps_expiration_witness:
  "\<exists>imgs w. Apply plain_semver example_updater example_caps example_images None example_srcs = Ok (imgs, None) \<and>
     version_entry ''gardenlinux'' imgs ''0.9.0'' = Some w \<and> mv_ExpirationDate w = Some 77"
proof -
  obtain imgs where A: "Apply plain_semver example_updater example_caps example_images None example_srcs = Ok (imgs, None)"
    using example_Apply by blast
  have v: "version_entry (iu_ImageName example_updater) example_images ''0.9.0'' = Some example_version"
    "mv_ExpirationDate example_version = Some 77"
    by (simp_all add: example_base_versions entry_of_def example_version_def)
  from Apply_keeps_expiration [OF example_distinct A v] A show ?thesis by auto
qed

lemma example_source_ok: "\<forall>s\<in>set example_srcs. source_ok plain_semver s"
  by (simp add: example_srcs_def source_ok_def sv_valid_def)

theorem Apply_idempotent_witness:
  "\<exists>imgs. Apply plain_semver example_updater example_caps example_images None example_srcs = Ok (imgs, None) \<and>
     Apply plain_semver example_updater example_caps imgs None example_srcs = Ok (imgs, None)"
proof -
  obtain imgs where A: "Apply plain_semver example_updater example_caps example_images None example_srcs = Ok (imgs, None)"
    using example_Apply by blast
  obtain imgs2 where B: "Apply plain_semver example_updater example_caps imgs None example_srcs = Ok (imgs2, None)"
    using example_Apply by blast
  from Apply_idempotent [OF example_distinct example_source_ok A B] A B show ?thesis by auto
qed

theorem Apply_declared_flavors_witness:
  "\<exists>imgs. Apply plain_semver example_updater example_caps example_images None example_srcs = Ok (imgs, None) \<and>
     (\<forall>v\<in>set (image_versions ''gardenlinux'' imgs). version_flavors_ok example_caps v)"
proof -
  obtain imgs where A: "Apply plain_semver example_updater example_caps example_images None example_srcs = Ok (imgs, None)"
    using example_Apply by blast
  have c: "\<forall>s\<in>set example_srcs. caps_ok (si_Capabilities s)"
    by (simp add: example_srcs_def caps_entries_def)
  have q: "\<forall>v\<in>set (image_versions (iu_ImageName example_updater) example_images). version_flavors_ok example_caps v"
    by (simp add: example_base_versions version_flavors_ok_def example_version_def)
  from Apply_declared_flavors [OF example_distinct c q A] A show ?thesis by auto
qed

subsection \<open>The fan-out and the OCI source\<close>

definition example_fan :: "result fan" where
  "example_fan = oci_fan example_source {} [''1.0.0'', ''2.0.0'']"

lemma example_fan_ok: "fan_ok example_fan"
  by (simp add: example_fan_def oci_fan_def fan_ok_def example_source_def)

theorem fanout_bounded_witness:
  "\<exists>s. fan_reach example_fan s \<and> stuck example_fan s \<and> fs_held s \<le> fn_permits example_fan"
proof -
  obtain k s where run: "fan_run example_fan (fan_init example_fan) k s" "stuck example_fan s"
    using fan_run_exists by blast
  have r: "fan_reach example_fan s" by (rule fan_run_reach [OF run(1) fan_reach.start])
  from fanout_bounded [OF r] r run(2) show ?thesis by blast
qed

theorem fanout_completes_witness:
  "\<exists>k s. fan_run example_fan (fan_init example_fan) k s \<and> stuck example_fan s \<and> k \<le> 10 \<and> all_finished s"
proof -
  obtain k s where run: "fan_run example_fan (fan_init example_fan) k s" "stuck example_fan s"
    using fan_run_exists by blast
  have "fn_count example_fan = 2" by (simp add: example_fan_def oci_fan_def)
  with fanout_completes [OF example_fan_ok run(1)] run show ?thesis by auto
qed

theorem oci_scheduling_witness:
  "\<exists>k s. fan_run example_fan (fan_init example_fan) k s \<and> stuck example_fan s \<and>
     Fetch plain_semver (example_updater\<lparr>iu_Source := oci_collected example_source 2 (fs_got s)\<rparr>) =
     Fetch plain_semver (example_updater\<lparr>iu_Source :=
       Ok [example_delivered ''1.0.0'', example_delivered ''2.0.0'']\<rparr>)"
proof -
  obtain k s where run: "fan_run example_fan (fan_init example_fan) k s" "stuck example_fan s"
    using fan_run_exists by blast
  have p: "0 < sint (os_parallel example_source)" by (simp add: example_source_def)
  have d: "distinct (map NormalizeTag [''1.0.0'', ''2.0.0''])" by code_simp
  have n: "\<forall>tag\<in>set [''1.0.0'', ''2.0.0'']. \<not> ctx_result (read_tag example_source tag)"
    by (simp add: example_read_tag ctx_result_def)
  have c: "oci_collected example_source 2 (map (read_tag example_source) [''1.0.0'', ''2.0.0'']) =
      Ok [example_delivered ''1.0.0'', example_delivered ''2.0.0'']"
    by (simp add: oci_collected_def example_read_tag errors_Join_def)
  from oci_scheduling [OF p d n run [unfolded example_fan_def], of plain_semver example_updater] c run
  show ?thesis by (auto simp: numeral_2_eq_2)
qed

lemma example_possible: "oci_possible (example_source, map (read_tag example_source))"
proof -
  have "oci_delivery example_source tags (map (read_tag example_source) tags)" for tags
    by (auto simp: oci_delivery_def intro!: exI [of _ "map (read_tag example_source) tags"])
  then show ?thesis by (simp add: oci_possible_def)
qed

theorem oci_images_faithful_witness:
  "\<exists>tag\<in>{''1.0.0'', ''2.0.0''}. \<exists>annotations. oci_describes example_source tag annotations (example_delivered ''1.0.0'')"
proof -
  have t: "rp_Tags (os_repo example_source) = ([[''1.0.0'', ''2.0.0'']], None)" by simp
  from oci_images_faithful [OF t example_possible example_GetVersions] show ?thesis by auto
qed

theorem oci_capabilities_witness:
  "caps_map (image_capabilities [(''_usi'', ''secureboot''), (''sci'', ''hardened'')] ''1.0.0'' ''amd64'' {''_usi''}) ''hardened'' =
     Some [''false'']"
proof -
  let ?m = "[(''_usi'', ''secureboot''), (''sci'', ''hardened'')]"
  have h: "distinct (map snd ?m)" "ArchitectureCapability \<notin> snd ` set ?m" "?m \<noteq> []" "''1.0.0'' \<noteq> ([] :: string)"
    by (simp_all add: ArchitectureCapability_def)
  from oci_capabilities [OF h refl, of "''amd64''" "{''_usi''}"] show ?thesis
    by (simp add: ArchitectureCapability_def)
qed

subsection \<open>Garbage collection\<close>

definition example_gc_filter :: GCFilter where
  "example_gc_filter =
     \<lparr>fl_Tags = [(''1.0.0'', 0), (''2.0.0'', 900)], fl_Protected = {''1.0.0''}, fl_Cutoff = 500\<rparr>"

lemma normalize_plain [simp]: "NormalizeTag ''1.0.0'' = ''1.0.0''" "NormalizeTag ''2.0.0'' = ''2.0.0''"
  by code_simp+

lemma example_buildGCFilter:
  "buildGCFilter example_registry 1000 example_mcp (Some [example_shoot]) openstack_update = Ok (Some example_gc_filter)"
proof -
  have c: "time_Add 1000 (- 500) = 500" by (simp add: time_Add_def)
  show ?thesis
    by (simp add: buildGCFilter_def example_mcp_def openstack_update_def example_registry_def referencedVersions_def
        example_shoot_def example_gc_filter_def Let_def c)
qed

theorem gc_collects_exactly_witness:
  "Filter example_gc_filter [example_delivered ''1.0.0'', example_delivered ''2.0.0''] =
     filter (\<lambda>img. used_by_shoots [example_shoot] ''profile'' ''gardenlinux'' img \<or>
        \<not> pushed_before [(''1.0.0'', 0), (''2.0.0'', 900)] 500 img)
       [example_delivered ''1.0.0'', example_delivered ''2.0.0'']"
proof -
  let ?gc = "\<lparr>gc_Enabled = True, gc_MaxAge = 500\<rparr>"
  let ?client = "\<lambda>registry repository. Ok [(''1.0.0'', 0), (''2.0.0'', 900 :: time)]"
  have h: "ms_GarbageCollection (mcp_Spec example_mcp) = Some ?gc" "us_OCI (mu_Source openstack_update) = Some example_oci"
    "example_registry (oci_Registry example_oci) = Ok ?client"
    "distinct (map (NormalizeTag \<circ> fst) [(''1.0.0'', 0), (''2.0.0'', 900 :: time)])"
    by (simp_all add: example_mcp_def openstack_update_def example_registry_def)
  from gc_collects_exactly [OF example_buildGCFilter h(1-3) refl h(4)] show ?thesis
    by (simp add: example_mcp_def)
qed

definition example_http :: http where
  "example_http =
     \<lparr>ht_NewRequest = (\<lambda>url. None), ht_Do = (\<lambda>url. Inr (200, url)),
      ht_Decode = (\<lambda>body. Inr [\<lparr>km_Digest = ''d'', km_PushedAt = 7,
        km_Tags = [\<lparr>kt_Name = ''1.0.0'', kt_PushedAt = 7\<rparr>, \<lparr>kt_Name = ''latest'', kt_PushedAt = 0\<rparr>]\<rparr>])\<rparr>"

lemma example_FetchKeppelTags:
  "FetchKeppelTags example_http ''keppel.example.com'' ''account/gardenlinux'' = Ok [(''1.0.0'', 7000000000)]"
proof -
  have k: "keppelURL (registryBaseURL ''keppel.example.com'' False) ''account/gardenlinux'' =
      Ok (manifests_url ''keppel.example.com'' ''account'' ''gardenlinux'')"
    unfolding keppelURL_Ok splitKeppel_parts by (intro exI [of _ "''account''"] exI [of _ "''gardenlinux''"]) simp
  show ?thesis
    by (simp add: FetchKeppelTags_def k example_http_def time_Unix_def)
qed

theorem FetchKeppelTags_result_witness:
  "\<exists>account repo. ''account/gardenlinux'' = account @ ''/'' @ repo \<and> CHR ''/'' \<notin> set account"
  using FetchKeppelTags_result [OF example_FetchKeppelTags] by blast

subsection \<open>The Glance source\<close>

definition example_regions :: Glance where
  "example_regions =
     \<lparr>gl_params = glance_params example_glance ''secret'', gl_namePrefix = defaultGlanceNamePrefix, gl_keepLatest = 2,
      gl_offset = 0, gl_permits = 2, gl_authenticate = defaultAuthenticate example_gophercloud,
      gl_listImages = defaultListImages example_gophercloud\<rparr>"

definition example_region_image :: "string \<Rightarrow> SourceImage" where
  "example_region_image region =
     region_image region (''3.0.0'', example_image region)"

definition example_results :: "(goerror + SourceImage list) list" where
  "example_results = [Inr [example_region_image ''eu-1''], Inr [example_region_image ''eu-2'']]"

lemma example_discover:
  "discoverRegion plain_semver (\<lambda>f a. f) example_regions (\<lambda>m. m) ''eu-1'' = Inr [example_region_image ''eu-1'']"
  by code_simp

lemma example_authenticate:
  "gl_authenticate example_regions (fmt_Sprintf (\<lambda>f a. f) (gp_AuthURLFormat (gl_params example_regions)) ''eu-1'')
     (authOptions example_regions) = Inr ''https://identity.eu-1/v3''"
  by code_simp

lemma example_list: "gl_listImages example_regions ''https://identity.eu-1/v3'' ''eu-1'' = Inr [example_image ''eu-1'']"
  by code_simp

definition example_merged :: SourceImage where
  "example_merged = (example_region_image ''eu-1'')\<lparr>
     si_Regions := [\<lparr>ri_Region = ''eu-1'', ri_ID = ''eu-1''\<rparr>, \<lparr>ri_Region = ''eu-2'', ri_ID = ''eu-2''\<rparr>],
     si_Classification := Some ClassificationDeprecated, si_ExpirationDate := Some 1000\<rparr>"

lemma example_glance_versions:
  "glance_GetVersions plain_semver example_regions 1000 (\<lambda>m. m) example_results = Ok [example_merged]"
  by code_simp

lemma example_found: "found_images example_results = [example_region_image ''eu-1'', example_region_image ''eu-2'']"
  by (simp add: example_results_def)

theorem glance_canonical_witness:
  "\<exists>img\<in>set (candidates plain_semver example_regions [example_image ''eu-1''] ''3.0.0'').
     example_region_image ''eu-1'' = region_image ''eu-1'' (''3.0.0'', img)"
proof -
  have v: "si_Version (example_region_image ''eu-1'') = ''3.0.0''" by (simp add: example_region_image_def region_image_def)
  from glance_canonical [OF example_discover permuting_id example_authenticate example_list] v show ?thesis by auto
qed


theorem glance_regions_witness:
  "set (si_Regions example_merged) = {\<lparr>ri_Region = ''eu-1'', ri_ID = ''eu-1''\<rparr>, \<lparr>ri_Region = ''eu-2'', ri_ID = ''eu-2''\<rparr>} \<and>
   all_regions (found_images example_results) \<subseteq> ri_Region ` set (si_Regions example_merged)"
proof -
  have r: "gp_RequireAllRegions (gl_params example_regions)" by code_simp
  have x: "example_merged \<in> set [example_merged]" by simp
  note g = glance_regions [OF plain_order permuting_id example_glance_versions x]
  have "set (si_Regions example_merged) = {\<lparr>ri_Region = ''eu-1'', ri_ID = ''eu-1''\<rparr>, \<lparr>ri_Region = ''eu-2'', ri_ID = ''eu-2''\<rparr>}"
    by (simp add: example_merged_def)
  with g r show ?thesis by blast
qed

subsection \<open>The providers\<close>

definition example_os :: OpenStackProvider where
  "example_os = \<lparr>op_ImageName = ''gardenlinux'', op_EnableCapabilities = True\<rparr>"

definition example_region_src :: SourceImage where
  "example_region_src = (example_delivered ''1.0.0'')\<lparr>si_Regions := [\<lparr>ri_Region = ''eu-1'', ri_ID = ''uuid''\<rparr>]\<rparr>"

theorem openstack_Configure_total_witness:
  "\<exists>pc' c'. openstack_Configure os_codec example_os None [example_region_src] = Ok pc' \<and>
     decode os_codec zero_OSConfig pc' = Inr c' \<and>
     ''1.0.0'' \<in> set (versions_named oi_Name (\<lambda>i. map ov_Version (oi_Versions i)) ''gardenlinux'' (oc_MachineImages c'))"
proof -
  have d: "decode os_codec zero_OSConfig None = Inr zero_OSConfig" by (simp add: decode_def)
  from openstack_Configure_total [OF os_codec_ok d, of example_os "[example_region_src]"]
  show ?thesis by (simp add: example_os_def example_region_src_def example_delivered_def) blast
qed

lemma example_openstack_cfg:
  obtains c where "openstack_cfg example_os zero_OSConfig [example_region_src] = Some c"
proof -
  have d: "decode os_codec zero_OSConfig None = Inr zero_OSConfig" by (simp add: decode_def)
  from openstack.configure_total [of example_os] that show thesis by blast
qed


theorem openstack_regions_recorded_witness:
  "\<exists>c e. openstack_cfg example_os zero_OSConfig [example_region_src] = Some c \<and> os_entry example_os c ''1.0.0'' = Some e \<and>
     (\<exists>f\<in>set (ov_CapabilityFlavors e). region_id (of_Regions f) ''eu-1'' = Some ''uuid'')"
proof -
  obtain c where c: "openstack_cfg example_os zero_OSConfig ([] @ example_region_src # []) = Some c"
    using example_openstack_cfg by auto
  let ?r = "\<lparr>ri_Region = ''eu-1'', ri_ID = ''uuid''\<rparr>"
  have h: "os_versions_distinct example_os zero_OSConfig" "cfg_all entry_regions_ok zero_OSConfig"
    "caps_ok (si_Capabilities example_region_src)"
    "\<forall>t\<in>set [] \<union> set []. si_Version t \<noteq> si_Version example_region_src"
    "distinct (map ri_Region (si_Regions example_region_src))" "?r \<in> set (si_Regions example_region_src)"
    by (simp_all add: os_versions_distinct_def cfg_all_def zero_OSConfig_def example_region_src_def example_delivered_def caps_entries_def versions_named_def)
  have w: "with_caps example_os example_region_src" "si_Version example_region_src = ''1.0.0''"
    by (simp_all add: with_caps_def example_os_def example_region_src_def example_delivered_def)
  from openstack_regions_recorded [OF c h] c w show ?thesis by auto
qed

definition example_im :: IroncoreProvider where
  "example_im = \<lparr>ip_Registry = ''registry'', ip_Repository = ''images'', ip_ImageName = ''gardenlinux'', ip_EnableCapabilities = True\<rparr>"

definition cleaned_src :: SourceImage where
  "cleaned_src = (example_delivered ''1.0.0+usi'')\<lparr>si_CleanVersion := ''1.0.0''\<rparr>"

lemma cleaned_src_simps [simp]:
  "si_Version cleaned_src = ''1.0.0+usi''" "si_CleanVersion cleaned_src = ''1.0.0''" "si_Architectures cleaned_src = [''amd64'']"
  "si_Capabilities cleaned_src = Some [(''architecture'', [''amd64'']), (''secureboot'', [''true''])]"
  by (simp_all add: cleaned_src_def example_delivered_def)

lemma example_ironcore_cfg:
  obtains c where "ironcore_cfg example_im zero_IMConfig [cleaned_src] = Some c"
  using ironcore_cfg_Some [of example_im zero_IMConfig "[cleaned_src]"] by blast

lemma example_im_versions: "im_versions example_im zero_IMConfig = []"
  by (simp add: im_versions_def zero_IMConfig_def)

theorem ironcore_flat_entries_witness:
  "\<exists>c. ironcore_cfg example_im zero_IMConfig [cleaned_src] = Some c \<and>
     set (legacy_pairs (im_versions example_im c)) = {(image_ref example_im cleaned_src, ''amd64'')} \<and>
     distinct (legacy_pairs (im_versions example_im c))"
proof -
  obtain c where c: "ironcore_cfg example_im zero_IMConfig [cleaned_src] = Some c" by (rule example_ironcore_cfg)
  have "legacy_pairs (im_versions example_im zero_IMConfig) = []" by (simp add: example_im_versions legacy_pairs_def)
  with ironcore_flat_entries [OF c] c show ?thesis by auto
qed



subsection \<open>The landscape source and the status\<close>

definition example_component :: LandscapeKubernetesSource where
  "example_component = \<lparr>lk_ociRepo = example_landscape, lk_provider = ''openstack''\<rparr>"

lemma example_LatestTag: "LatestTag plain_semver example_component = Ok ''1.1.0''"
  by code_simp

lemma example_TagForGardenerVersion: "TagForGardenerVersion plain_semver example_component ''v1.100.2'' = Ok ''1.1.0''"
  by code_simp

lemma example_all_tags: "all_tags example_component = [''1.0.0'', ''1.1.0'']"
  by code_simp

theorem landscape_gardener_tag_witness:
  "matching example_component ''v1.100'' ''1.1.0''"
proof -
  have "minorVersion ''v1.100.2'' = ''v1.100''" by code_simp
  with landscape_gardener_tag [OF plain_order example_TagForGardenerVersion] show ?thesis by simp
qed

end
