(* ===== verification/Memory.thy ===== *)
theory Memory
  imports GoBase
begin

section \<open>Memory: pointers, slices and deep copies\<close>

text \<open>
  The rest of the development treats a Go value as the value that it denotes. Where the code depends on
  what two variables share, this is justified here: a memory maps addresses to cells, a pointer is an
  address, a slice the address of its backing array and a length. A struct is read by a function that
  follows its pointers (\<^const>\<open>None\<close> when one dangles), together with the set of addresses that
  it reaches. The locale is the contract of a deep copy; the combinators say how the generated code builds
  one from others.
\<close>

type_synonym addr = nat

record 'c mem =
  me_cells :: "addr \<Rightarrow> 'c option"
  me_next :: addr

definition alloc :: "'c \<Rightarrow> 'c mem \<Rightarrow> addr \<times> 'c mem" where
  "alloc c m = (me_next m, m\<lparr>me_cells := (me_cells m)(me_next m \<mapsto> c), me_next := Suc (me_next m)\<rparr>)"

definition store :: "addr \<Rightarrow> 'c \<Rightarrow> 'c mem \<Rightarrow> 'c mem" where
  "store p c m = m\<lparr>me_cells := (me_cells m)(p \<mapsto> c)\<rparr>"

lemma store_simps [simp]:
  "me_next (store p c m) = me_next m" "me_cells (store p c m) = (me_cells m)(p \<mapsto> c)"
  by (simp_all add: store_def)

lemma alloc_simps [simp]:
  "fst (alloc c m) = me_next m" "me_next (snd (alloc c m)) = Suc (me_next m)"
  "me_cells (snd (alloc c m)) = (me_cells m)(me_next m \<mapsto> c)"
  by (simp_all add: alloc_def)

text \<open>A memory that has the cells of another, and possibly more.\<close>

definition extends :: "'c mem \<Rightarrow> 'c mem \<Rightarrow> bool" where
  "extends m m' \<longleftrightarrow> me_next m \<le> me_next m' \<and> (\<forall>p<me_next m. me_cells m' p = me_cells m p)"

lemma extends_refl [simp]: "extends m m"
  by (simp add: extends_def)

lemma extends_trans [trans]: "extends m m' \<Longrightarrow> extends m' m'' \<Longrightarrow> extends m m''"
  by (simp add: extends_def)

lemma extends_alloc [simp]: "extends m (snd (alloc c m))"
  by (simp add: extends_def)

lemma extends_store: "extends m m' \<Longrightarrow> me_next m \<le> p \<Longrightarrow> extends m (store p c m')"
  by (simp add: extends_def)

lemma extends_next: "extends m m' \<Longrightarrow> me_next m \<le> me_next m'"
  by (simp add: extends_def)

subsection \<open>The contract of a deep copy\<close>

type_synonym ('c, 'a, 'v) reader = "'c mem \<Rightarrow> 'a \<Rightarrow> 'v option"
type_synonym ('c, 'a) reacher = "'c mem \<Rightarrow> 'a \<Rightarrow> addr set"
type_synonym ('c, 'a) copier = "'c mem \<Rightarrow> 'a \<Rightarrow> ('a \<times> 'c mem) option"

locale deep_copy =
  fixes val :: "('c, 'a, 'v) reader" and reach :: "('c, 'a) reacher" and copy :: "('c, 'a) copier"
  assumes present: "val m a = Some v \<Longrightarrow> reach m a \<subseteq> {..<me_next m}"
    and local: "val m a = Some v \<Longrightarrow> \<forall>p\<in>reach m a. me_cells m' p = me_cells m p \<Longrightarrow>
      reach m a \<subseteq> {..<me_next m'} \<Longrightarrow> val m' a = Some v \<and> reach m' a = reach m a"
    and copies: "val m a = Some v \<Longrightarrow> \<exists>a' m'. copy m a = Some (a', m') \<and> extends m m' \<and>
      val m' a' = Some v \<and> reach m' a' \<subseteq> {me_next m..<me_next m'}"
begin

lemma val_extends:
  assumes "val m a = Some v" "extends m m'"
  shows "val m' a = Some v" "reach m' a = reach m a"
proof -
  have "\<forall>p\<in>reach m a. me_cells m' p = me_cells m p" "reach m a \<subseteq> {..<me_next m'}"
    using present [OF assms(1)] assms(2) by (auto simp: extends_def)
  with local [OF assms(1)] show "val m' a = Some v" "reach m' a = reach m a" by blast+
qed

lemma val_store:
  assumes "val m a = Some v" "p \<notin> reach m a"
  shows "val (store p c m) a = Some v" "reach (store p c m) a = reach m a"
proof -
  have "\<forall>q\<in>reach m a. me_cells (store p c m) q = me_cells m q" "reach m a \<subseteq> {..<me_next (store p c m)}"
    using present [OF assms(1)] assms(2) by auto
  with local [OF assms(1)] show "val (store p c m) a = Some v" "reach (store p c m) a = reach m a" by blast+
qed

text \<open>What a copy is for: it has the value of the original, the original keeps its own, and they share no cell.\<close>

lemma copy_Some:
  assumes "val m a = Some v" "copy m a = Some (a', m')"
  shows "extends m m'" "val m' a' = Some v" "reach m' a' \<subseteq> {me_next m..<me_next m'}"
    "val m' a = Some v" "reach m' a \<inter> reach m' a' = {}"
proof -
  show e: "extends m m'" "val m' a' = Some v" and r: "reach m' a' \<subseteq> {me_next m..<me_next m'}"
    using copies [OF assms(1)] assms(2) by auto
  show "val m' a = Some v" by (rule val_extends [OF assms(1) e(1)])
  have "reach m' a \<subseteq> {..<me_next m}" using val_extends [OF assms(1) e(1)] present [OF assms(1)] by simp
  with r show "reach m' a \<inter> reach m' a' = {}" by fastforce
qed

text \<open>Writes through the copy do not touch the original, and the other way round.\<close>

lemma writes_apart:
  assumes "val m a = Some v" "copy m a = Some (a', m')"
  shows "p \<in> reach m' a' \<Longrightarrow> val (store p c m') a = Some v"
    "p \<in> reach m' a \<Longrightarrow> val (store p c m') a' = Some v"
  using copy_Some [OF assms] val_store [of m' a v p c] val_store [of m' a' v p c] by blast+

end

subsection \<open>Building copies\<close>

text \<open>A struct without pointers is copied by assignment.\<close>

definition flat_val :: "('c, 'a, 'a) reader" where "flat_val m a = Some a"
definition no_reach :: "('c, 'a) reacher" where "no_reach m a = {}"
definition assign :: "('c, 'a) copier" where "assign m a = Some (a, m)"

interpretation flat: deep_copy flat_val no_reach assign
  by unfold_locales (simp_all add: flat_val_def no_reach_def assign_def)

text \<open>Fields that are copied one after the other.\<close>

definition pair_val :: "('c, 'a, 'v) reader \<Rightarrow> ('c, 'b, 'w) reader \<Rightarrow> ('c, 'a \<times> 'b, 'v \<times> 'w) reader" where
  "pair_val v1 v2 m ab =
     Option.bind (v1 m (fst ab)) (\<lambda>x. Option.bind (v2 m (snd ab)) (\<lambda>y. Some (x, y)))"

definition pair_reach :: "('c, 'a) reacher \<Rightarrow> ('c, 'b) reacher \<Rightarrow> ('c, 'a \<times> 'b) reacher" where
  "pair_reach r1 r2 m ab = r1 m (fst ab) \<union> r2 m (snd ab)"

definition pair_copy :: "('c, 'a) copier \<Rightarrow> ('c, 'b) copier \<Rightarrow> ('c, 'a \<times> 'b) copier" where
  "pair_copy c1 c2 m ab =
     Option.bind (c1 m (fst ab)) (\<lambda>(a, m). Option.bind (c2 m (snd ab)) (\<lambda>(b, m). Some ((a, b), m)))"

lemma pair_deep_copy:
  fixes v1 :: "('c, 'a, 'v) reader" and v2 :: "('c, 'b, 'w) reader"
  assumes "deep_copy v1 r1 c1" "deep_copy v2 r2 c2"
  shows "deep_copy (pair_val v1 v2) (pair_reach r1 r2) (pair_copy c1 c2)"
proof
  note present1 = deep_copy.present [OF assms(1)] and present2 = deep_copy.present [OF assms(2)]
  note local1 = deep_copy.local [OF assms(1)] and local2 = deep_copy.local [OF assms(2)]
  fix m m' :: "'c mem" and a :: "'a \<times> 'b" and v
  assume v: "pair_val v1 v2 m a = Some v"
  then obtain x y where xy: "v1 m (fst a) = Some x" "v2 m (snd a) = Some y" "v = (x, y)"
    by (auto simp: pair_val_def bind_eq_Some_conv)
  show "pair_reach r1 r2 m a \<subseteq> {..<me_next m}"
    using present1 [OF xy(1)] present2 [OF xy(2)] by (simp add: pair_reach_def)
  show "pair_val v1 v2 m' a = Some v \<and> pair_reach r1 r2 m' a = pair_reach r1 r2 m a"
    if "\<forall>p\<in>pair_reach r1 r2 m a. me_cells m' p = me_cells m p" "pair_reach r1 r2 m a \<subseteq> {..<me_next m'}"
  proof -
    have "v1 m' (fst a) = Some x \<and> r1 m' (fst a) = r1 m (fst a)"
      by (rule local1 [OF xy(1)]) (use that in \<open>simp_all add: pair_reach_def\<close>)
    moreover have "v2 m' (snd a) = Some y \<and> r2 m' (snd a) = r2 m (snd a)"
      by (rule local2 [OF xy(2)]) (use that in \<open>simp_all add: pair_reach_def\<close>)
    ultimately show ?thesis using xy(3) by (simp add: pair_val_def pair_reach_def)
  qed
  obtain a1 m1 where c1: "c1 m (fst a) = Some (a1, m1)" "extends m m1" "v1 m1 a1 = Some x"
    "r1 m1 a1 \<subseteq> {me_next m..<me_next m1}" using deep_copy.copies [OF assms(1) xy(1)] by blast
  have y1: "v2 m1 (snd a) = Some y" by (rule deep_copy.val_extends [OF assms(2) xy(2) c1(2)])
  obtain a2 m2 where c2: "c2 m1 (snd a) = Some (a2, m2)" "extends m1 m2" "v2 m2 a2 = Some y"
    "r2 m2 a2 \<subseteq> {me_next m1..<me_next m2}" using deep_copy.copies [OF assms(2) y1] by blast
  note x2 = deep_copy.val_extends [OF assms(1) c1(3) c2(2)]
  have "pair_reach r1 r2 m2 (a1, a2) \<subseteq> {me_next m..<me_next m2}"
    using c1(4) c2(4) extends_next [OF c1(2)] extends_next [OF c2(2)] x2(2) by (fastforce simp: pair_reach_def)
  moreover have "extends m m2" using c1(2) c2(2) by (rule extends_trans)
  moreover have "pair_copy c1 c2 m a = Some ((a1, a2), m2)" using c1(1) c2(1) by (simp add: pair_copy_def)
  moreover have "pair_val v1 v2 m2 (a1, a2) = Some v" using x2(1) c2(3) xy(3) by (simp add: pair_val_def)
  ultimately show "\<exists>a' m'. pair_copy c1 c2 m a = Some (a', m') \<and> extends m m' \<and>
      pair_val v1 v2 m' a' = Some v \<and> pair_reach r1 r2 m' a' \<subseteq> {me_next m..<me_next m'}" by blast
qed

text \<open>
  A struct with pointers in some of its fields: \<open>fields\<close> reads them, \<open>with\<close> replaces them in the copy that
  the first assignment made, and \<open>build\<close> makes the value of the struct from theirs.
\<close>

lemma struct_deep_copy:
  fixes val :: "('c, 'b, 'w) reader" and fields :: "'a \<Rightarrow> 'b"
  assumes "deep_copy val reach copy"
    and fields: "\<And>x a. fields (upd x a) = x" and build: "\<And>x a y. build (upd x a) y = build a y"
  shows "deep_copy (\<lambda>m a. map_option (build a) (val m (fields a))) (\<lambda>m a. reach m (fields a))
    (\<lambda>m a. map_option (\<lambda>(x, m). (upd x a, m)) (copy m (fields a)))"
proof
  fix m m' :: "'c mem" and a v
  assume "map_option (build a) (val m (fields a)) = Some v"
  then obtain w where w: "val m (fields a) = Some w" "v = build a w" by auto
  show "reach m (fields a) \<subseteq> {..<me_next m}" by (rule deep_copy.present [OF assms(1) w(1)])
  show "map_option (build a) (val m' (fields a)) = Some v \<and> reach m' (fields a) = reach m (fields a)"
    if "\<forall>p\<in>reach m (fields a). me_cells m' p = me_cells m p" "reach m (fields a) \<subseteq> {..<me_next m'}"
    using deep_copy.local [OF assms(1) w(1) that] w(2) by simp
  obtain b m2 where c: "copy m (fields a) = Some (b, m2)" "extends m m2" "val m2 b = Some w"
    "reach m2 b \<subseteq> {me_next m..<me_next m2}" using deep_copy.copies [OF assms(1) w(1)] by blast
  then show "\<exists>a' m'. map_option (\<lambda>(x, m). (upd x a, m)) (copy m (fields a)) = Some (a', m') \<and> extends m m' \<and>
      map_option (build a') (val m' (fields a')) = Some v \<and> reach m' (fields a') \<subseteq> {me_next m..<me_next m'}"
    using w(2) by (intro exI [of _ "upd b a"] exI [of _ m2]) (simp add: fields build)
qed

text \<open>A field that may be nil.\<close>

fun opt_val :: "('c, 'a, 'v) reader \<Rightarrow> ('c, 'a option, 'v option) reader" where
  "opt_val v m None = Some None"
| "opt_val v m (Some a) = map_option Some (v m a)"

fun opt_reach :: "('c, 'a) reacher \<Rightarrow> ('c, 'a option) reacher" where
  "opt_reach r m None = {}"
| "opt_reach r m (Some a) = r m a"

fun opt_copy :: "('c, 'a) copier \<Rightarrow> ('c, 'a option) copier" where
  "opt_copy c m None = Some (None, m)"
| "opt_copy c m (Some a) = map_option (\<lambda>(a, m). (Some a, m)) (c m a)"

lemma opt_deep_copy:
  fixes val :: "('c, 'a, 'v) reader"
  assumes "deep_copy val reach copy"
  shows "deep_copy (opt_val val) (opt_reach reach) (opt_copy copy)"
proof
  fix m m' :: "'c mem" and a v
  assume v: "opt_val val m a = Some v"
  show "opt_reach reach m a \<subseteq> {..<me_next m}"
    using v deep_copy.present [OF assms] by (cases a) auto
  show "opt_val val m' a = Some v \<and> opt_reach reach m' a = opt_reach reach m a"
    if "\<forall>p\<in>opt_reach reach m a. me_cells m' p = me_cells m p" "opt_reach reach m a \<subseteq> {..<me_next m'}"
  proof (cases a)
    case (Some b)
    with v obtain w where w: "val m b = Some w" "v = Some w" by auto
    have "val m' b = Some w \<and> reach m' b = reach m b"
      by (rule deep_copy.local [OF assms w(1)]) (use that Some in simp_all)
    with Some w show ?thesis by simp
  qed (use v in simp)
  show "\<exists>a' m'. opt_copy copy m a = Some (a', m') \<and> extends m m' \<and> opt_val val m' a' = Some v \<and>
      opt_reach reach m' a' \<subseteq> {me_next m..<me_next m'}"
  proof (cases a)
    case None
    with v show ?thesis by (intro exI [of _ None] exI [of _ m]) simp
  next
    case (Some b)
    with v obtain w where w: "val m b = Some w" "v = Some w" by auto
    from deep_copy.copies [OF assms w(1)] obtain b' m2 where "copy m b = Some (b', m2)" "extends m m2"
      "val m2 b' = Some w" "reach m2 b' \<subseteq> {me_next m..<me_next m2}" by blast
    with Some w show ?thesis by (intro exI [of _ "Some b'"] exI [of _ m2]) simp
  qed
qed

text \<open>
  A pointer to a struct that is kept in a cell by the constructor \<open>mk\<close>. The generated code is
  \<^verbatim>\<open>*out = new(T); (*in).DeepCopyInto(*out)\<close>: the new cell first gets the struct as it is, which is the
  assignment that \<^verbatim>\<open>DeepCopyInto\<close> starts with, and then the struct with its pointers copied.
\<close>

definition deref :: "('c \<Rightarrow> 'a option) \<Rightarrow> 'c mem \<Rightarrow> addr \<Rightarrow> 'a option" where
  "deref dest m p = (if p < me_next m then Option.bind (me_cells m p) dest else None)"

definition ptr_val :: "('c \<Rightarrow> 'a option) \<Rightarrow> ('c, 'a, 'v) reader \<Rightarrow> ('c, addr, 'v) reader" where
  "ptr_val dest v m p = Option.bind (deref dest m p) (v m)"

definition ptr_reach :: "('c \<Rightarrow> 'a option) \<Rightarrow> ('c, 'a) reacher \<Rightarrow> ('c, addr) reacher" where
  "ptr_reach dest r m p = insert p (case deref dest m p of None \<Rightarrow> {} | Some a \<Rightarrow> r m a)"

definition ptr_copy :: "('a \<Rightarrow> 'c) \<Rightarrow> ('c \<Rightarrow> 'a option) \<Rightarrow> ('c, 'a) copier \<Rightarrow> ('c, addr) copier" where
  "ptr_copy mk dest c m p =
     Option.bind (deref dest m p) (\<lambda>a.
       let (q, m) = alloc (mk a) m
       in Option.bind (c m a) (\<lambda>(a, m). Some (q, store q (mk a) m)))"

lemma deref_local: "deref dest m p = Some a \<Longrightarrow> me_cells m' p = me_cells m p \<Longrightarrow> p < me_next m' \<Longrightarrow> deref dest m' p = Some a"
  by (simp add: deref_def split: if_splits)

lemma deref_present: "deref dest m p = Some a \<Longrightarrow> p < me_next m"
  by (simp add: deref_def split: if_splits)

lemma ptr_deep_copy:
  fixes val :: "('c, 'a, 'v) reader"
  assumes "deep_copy val reach copy" and mk: "\<And>a. dest (mk a) = Some a"
  shows "deep_copy (ptr_val dest val) (ptr_reach dest reach) (ptr_copy mk dest copy)"
proof
  fix m m' :: "'c mem" and p v
  assume "ptr_val dest val m p = Some v"
  then obtain a where a: "deref dest m p = Some a" "val m a = Some v"
    by (auto simp: ptr_val_def bind_eq_Some_conv)
  then have p: "p < me_next m" by (simp add: deref_def split: if_splits)
  show "ptr_reach dest reach m p \<subseteq> {..<me_next m}"
    using a p deep_copy.present [OF assms(1) a(2)] by (simp add: ptr_reach_def)
  show "ptr_val dest val m' p = Some v \<and> ptr_reach dest reach m' p = ptr_reach dest reach m p"
    if h: "\<forall>q\<in>ptr_reach dest reach m p. me_cells m' q = me_cells m q" "ptr_reach dest reach m p \<subseteq> {..<me_next m'}"
  proof -
    have d: "deref dest m' p = Some a" by (rule deref_local [OF a(1)]) (use h in \<open>simp_all add: ptr_reach_def\<close>)
    have "val m' a = Some v \<and> reach m' a = reach m a"
      by (rule deep_copy.local [OF assms(1) a(2)]) (use h a in \<open>simp_all add: ptr_reach_def\<close>)
    with a d show ?thesis by (simp add: ptr_val_def ptr_reach_def)
  qed
  let ?q = "me_next m" and ?m1 = "snd (alloc (mk a) m)"
  have v1: "val ?m1 a = Some v" by (rule deep_copy.val_extends [OF assms(1) a(2) extends_alloc])
  obtain b m2 where c: "copy ?m1 a = Some (b, m2)" "extends ?m1 m2" "val m2 b = Some v"
    "reach m2 b \<subseteq> {me_next ?m1..<me_next m2}" using deep_copy.copies [OF assms(1) v1] by blast
  let ?m3 = "store ?q (mk b) m2"
  have q: "?q \<notin> reach m2 b" using c(4) by auto
  note b = deep_copy.val_store [OF assms(1) c(3) q, of "mk b"]
  have n: "Suc (me_next m) \<le> me_next m2" using extends_next [OF c(2)] by simp
  have e: "extends m m2" using extends_alloc c(2) by (rule extends_trans)
  have d: "deref dest ?m3 ?q = Some b" using n mk by (simp add: deref_def)
  have "ptr_copy mk dest copy m p = Some (?q, ?m3)"
    using a(1) c(1) by (simp add: ptr_copy_def alloc_def)
  moreover have "ptr_val dest val ?m3 ?q = Some v" using d b(1) by (simp add: ptr_val_def)
  moreover have "ptr_reach dest reach ?m3 ?q \<subseteq> {me_next m..<me_next ?m3}"
    using d b(2) c(4) n by (auto simp: ptr_reach_def)
  moreover have "extends m ?m3" by (rule extends_store [OF e]) simp
  ultimately show "\<exists>a' m'. ptr_copy mk dest copy m p = Some (a', m') \<and> extends m m' \<and>
      ptr_val dest val m' a' = Some v \<and> ptr_reach dest reach m' a' \<subseteq> {me_next m..<me_next m'}" by blast
qed

text \<open>The elements of a slice, copied from the first to the last.\<close>

fun list_val :: "('c, 'a, 'v) reader \<Rightarrow> ('c, 'a list, 'v list) reader" where
  "list_val v m [] = Some []"
| "list_val v m (x # xs) = Option.bind (v m x) (\<lambda>y. map_option (Cons y) (list_val v m xs))"

fun list_reach :: "('c, 'a) reacher \<Rightarrow> ('c, 'a list) reacher" where
  "list_reach r m [] = {}"
| "list_reach r m (x # xs) = r m x \<union> list_reach r m xs"

fun list_copy :: "('c, 'a) copier \<Rightarrow> ('c, 'a list) copier" where
  "list_copy c m [] = Some ([], m)"
| "list_copy c m (x # xs) =
     Option.bind (c m x) (\<lambda>(y, m). Option.bind (list_copy c m xs) (\<lambda>(ys, m). Some (y # ys, m)))"

lemma list_present:
  assumes "deep_copy val reach copy"
  shows "list_val val m xs = Some v \<Longrightarrow> list_reach reach m xs \<subseteq> {..<me_next m}"
  by (induction xs arbitrary: v) (auto simp: bind_eq_Some_conv dest: deep_copy.present [OF assms])

lemma list_local:
  assumes "deep_copy val reach copy"
  shows "list_val val m xs = Some v \<Longrightarrow> \<forall>p\<in>list_reach reach m xs. me_cells m' p = me_cells m p \<Longrightarrow>
    list_reach reach m xs \<subseteq> {..<me_next m'} \<Longrightarrow>
    list_val val m' xs = Some v \<and> list_reach reach m' xs = list_reach reach m xs"
proof (induction xs arbitrary: v)
  case (Cons x xs)
  then obtain y ys where y: "val m x = Some y" "list_val val m xs = Some ys" "v = y # ys"
    by (auto simp: bind_eq_Some_conv)
  have "val m' x = Some y \<and> reach m' x = reach m x"
    by (rule deep_copy.local [OF assms y(1)]) (use Cons.prems in simp_all)
  moreover have "list_val val m' xs = Some ys \<and> list_reach reach m' xs = list_reach reach m xs"
    by (rule Cons.IH [OF y(2)]) (use Cons.prems in simp_all)
  ultimately show ?case using y(3) by simp
qed simp

lemma list_deep_copy:
  fixes val :: "('c, 'a, 'v) reader"
  assumes "deep_copy val reach copy"
  shows "deep_copy (list_val val) (list_reach reach) (list_copy copy)"
proof
  fix m m' :: "'c mem" and xs v
  assume v: "list_val val m xs = Some v"
  show "list_reach reach m xs \<subseteq> {..<me_next m}" by (rule list_present [OF assms v])
  show "list_val val m' xs = Some v \<and> list_reach reach m' xs = list_reach reach m xs"
    if "\<forall>p\<in>list_reach reach m xs. me_cells m' p = me_cells m p" "list_reach reach m xs \<subseteq> {..<me_next m'}"
    by (rule list_local [OF assms v that])
  show "\<exists>a' m'. list_copy copy m xs = Some (a', m') \<and> extends m m' \<and> list_val val m' a' = Some v \<and>
      list_reach reach m' a' \<subseteq> {me_next m..<me_next m'}"
    using v
  proof (induction xs arbitrary: m v)
    case Nil
    then show ?case by (intro exI [of _ "[]"] exI [of _ m]) simp
  next
    case (Cons x xs)
    then obtain y ys where y: "val m x = Some y" "list_val val m xs = Some ys" "v = y # ys"
      by (auto simp: bind_eq_Some_conv)
    obtain b m1 where c1: "copy m x = Some (b, m1)" "extends m m1" "val m1 b = Some y"
      "reach m1 b \<subseteq> {me_next m..<me_next m1}" using deep_copy.copies [OF assms y(1)] by blast
    have "\<forall>p\<in>list_reach reach m xs. me_cells m1 p = me_cells m p" "list_reach reach m xs \<subseteq> {..<me_next m1}"
      using list_present [OF assms y(2)] c1(2) by (fastforce simp: extends_def)+
    with list_local [OF assms y(2)] have "list_val val m1 xs = Some ys" by blast
    from Cons.IH [OF this] obtain bs m2 where c2: "list_copy copy m1 xs = Some (bs, m2)" "extends m1 m2"
      "list_val val m2 bs = Some ys" "list_reach reach m2 bs \<subseteq> {me_next m1..<me_next m2}" by blast
    note b = deep_copy.val_extends [OF assms c1(3) c2(2)]
    have "extends m m2" using c1(2) c2(2) by (rule extends_trans)
    moreover have "list_reach reach m2 (b # bs) \<subseteq> {me_next m..<me_next m2}"
      using c1(4) c2(4) b(2) extends_next [OF c1(2)] extends_next [OF c2(2)] by fastforce
    ultimately show ?case
      using c1(1) c2(1,3) b(1) y(3) by (intro exI [of _ "b # bs"] exI [of _ m2]) simp
  qed
qed

lemma list_val_iff: "list_val v m xs = Some ys \<longleftrightarrow> list_all2 (\<lambda>x y. v m x = Some y) xs ys"
  by (induction xs arbitrary: ys) (auto simp: bind_eq_Some_conv list_all2_Cons1)

lemma list_val_flat: "list_val flat_val m = Some"
proof (rule ext)
  fix xs
  show "list_val flat_val m xs = Some xs" by (induction xs) (simp_all add: flat_val_def)
qed

text \<open>
  A slice: the address of the backing array, which is the cell made by \<open>mk\<close>, and its length, which may be
  smaller than the array's. The generated code makes a new array of exactly that length and copies the
  elements into it, with \<^verbatim>\<open>copy\<close> or one \<^verbatim>\<open>DeepCopyInto\<close> for each.
\<close>

definition elements :: "('c \<Rightarrow> 'a list option) \<Rightarrow> 'c mem \<Rightarrow> addr \<times> nat \<Rightarrow> 'a list option" where
  "elements dest m sl =
     Option.bind (deref dest m (fst sl)) (\<lambda>xs. if snd sl \<le> length xs then Some (take (snd sl) xs) else None)"

lemma elements_apart: "fst sl \<noteq> p \<Longrightarrow> elements dest (store p c m) sl = elements dest m sl"
  by (simp add: elements_def deref_def)

lemma elements_present: "elements dest m sl = Some xs \<Longrightarrow> fst sl < me_next m"
  by (auto simp: elements_def deref_def split: if_splits)

definition slice_val :: "('c \<Rightarrow> 'a list option) \<Rightarrow> ('c, 'a, 'v) reader \<Rightarrow> ('c, addr \<times> nat, 'v list) reader" where
  "slice_val dest v m sl = Option.bind (elements dest m sl) (list_val v m)"

definition slice_reach :: "('c \<Rightarrow> 'a list option) \<Rightarrow> ('c, 'a) reacher \<Rightarrow> ('c, addr \<times> nat) reacher" where
  "slice_reach dest r m sl = insert (fst sl) (case elements dest m sl of None \<Rightarrow> {} | Some xs \<Rightarrow> list_reach r m xs)"

definition slice_copy :: "('a list \<Rightarrow> 'c) \<Rightarrow> ('c \<Rightarrow> 'a list option) \<Rightarrow> ('c, 'a) copier \<Rightarrow> ('c, addr \<times> nat) copier" where
  "slice_copy mk dest c m sl =
     Option.bind (elements dest m sl) (\<lambda>xs.
       let (q, m) = alloc (mk xs) m
       in Option.bind (list_copy c m xs) (\<lambda>(xs, m). Some ((q, length xs), store q (mk xs) m)))"

lemma slice_deep_copy:
  fixes val :: "('c, 'a, 'v) reader"
  assumes "deep_copy val reach copy" and mk: "\<And>xs. dest (mk xs) = Some xs"
  shows "deep_copy (slice_val dest val) (slice_reach dest reach) (slice_copy mk dest copy)"
proof
  note list = list_deep_copy [OF assms(1)]
  fix m m' :: "'c mem" and sl v
  assume "slice_val dest val m sl = Some v"
  then obtain xs where xs: "elements dest m sl = Some xs" "list_val val m xs = Some v"
    by (auto simp: slice_val_def bind_eq_Some_conv)
  have p: "fst sl < me_next m" using xs(1) by (auto simp: elements_def deref_def bind_eq_Some_conv split: if_splits)
  show "slice_reach dest reach m sl \<subseteq> {..<me_next m}"
    using xs p deep_copy.present [OF list xs(2)] by (simp add: slice_reach_def)
  show "slice_val dest val m' sl = Some v \<and> slice_reach dest reach m' sl = slice_reach dest reach m sl"
    if h: "\<forall>q\<in>slice_reach dest reach m sl. me_cells m' q = me_cells m q" "slice_reach dest reach m sl \<subseteq> {..<me_next m'}"
  proof -
    have "me_cells m' (fst sl) = me_cells m (fst sl)" "fst sl < me_next m'"
      using h by (simp_all add: slice_reach_def)
    then have e: "elements dest m' sl = Some xs" using xs(1) p by (simp add: elements_def deref_def)
    have "list_val val m' xs = Some v \<and> list_reach reach m' xs = list_reach reach m xs"
      by (rule deep_copy.local [OF list xs(2)]) (use h xs in \<open>simp_all add: slice_reach_def\<close>)
    with xs e show ?thesis by (simp add: slice_val_def slice_reach_def)
  qed
  let ?q = "me_next m" and ?m1 = "snd (alloc (mk xs) m)"
  have v1: "list_val val ?m1 xs = Some v" by (rule deep_copy.val_extends [OF list xs(2) extends_alloc])
  obtain ys m2 where c: "list_copy copy ?m1 xs = Some (ys, m2)" "extends ?m1 m2" "list_val val m2 ys = Some v"
    "list_reach reach m2 ys \<subseteq> {me_next ?m1..<me_next m2}" using deep_copy.copies [OF list v1] by blast
  let ?m3 = "store ?q (mk ys) m2" and ?sl = "(?q, length ys)"
  have q: "?q \<notin> list_reach reach m2 ys" using c(4) by auto
  note b = deep_copy.val_store [OF list c(3) q, of "mk ys"]
  have n: "Suc (me_next m) \<le> me_next m2" using extends_next [OF c(2)] by simp
  have e: "extends m m2" using extends_alloc c(2) by (rule extends_trans)
  have d: "elements dest ?m3 ?sl = Some ys" using n mk by (simp add: elements_def deref_def)
  have "slice_copy mk dest copy m sl = Some (?sl, ?m3)"
    using xs(1) c(1) by (simp add: slice_copy_def alloc_def)
  moreover have "slice_val dest val ?m3 ?sl = Some v" using d b(1) by (simp add: slice_val_def)
  moreover have "slice_reach dest reach ?m3 ?sl \<subseteq> {me_next m..<me_next ?m3}"
    using d b(2) c(4) n by (auto simp: slice_reach_def)
  moreover have "extends m ?m3" by (rule extends_store [OF e]) simp
  ultimately show "\<exists>a' m'. slice_copy mk dest copy m sl = Some (a', m') \<and> extends m m' \<and>
      slice_val dest val m' a' = Some v \<and> slice_reach dest reach m' a' \<subseteq> {me_next m..<me_next m'}" by blast
qed

text \<open>
  A map: its cell holds its entries in the order in which one \<^verbatim>\<open>range\<close> loop visits them; the generated code
  puts them into a new map one by one.
\<close>

definition map_val :: "('c \<Rightarrow> ('k, 'e) gomap option) \<Rightarrow> ('c, addr, ('k, 'e) gomap) reader" where
  "map_val dest m p = Option.bind (deref dest m p) (\<lambda>es. if gomap_ok es then Some es else None)"

definition map_reach :: "('c, addr) reacher" where "map_reach m p = {p}"

fun put_all :: "('k, 'e) gomap \<Rightarrow> ('k, 'e) gomap \<Rightarrow> ('k, 'e) gomap" where
  "put_all [] out = out"
| "put_all ((key, v) # es) out = put_all es (map_put key v out)"

definition map_copy :: "(('k, 'e) gomap \<Rightarrow> 'c) \<Rightarrow> ('c \<Rightarrow> ('k, 'e) gomap option) \<Rightarrow> ('c, addr) copier" where
  "map_copy mk dest m p = Option.bind (deref dest m p) (\<lambda>es. Some (alloc (mk (put_all es [])) m))"

lemma map_put_new: "k \<notin> fst ` set out \<Longrightarrow> map_put k v out = out @ [(k, v)]"
  by (induction out) auto

lemma put_all_ok: "gomap_ok (out @ es) \<Longrightarrow> put_all es out = out @ es"
proof (induction es out rule: put_all.induct)
  case (2 key v es out)
  then have "key \<notin> fst ` set out" by auto
  then have "map_put key v out = out @ [(key, v)]" by (rule map_put_new)
  with 2 show ?case by simp
qed simp

lemma map_deep_copy:
  fixes dest :: "'c \<Rightarrow> ('k, 'e) gomap option"
  assumes mk: "\<And>es. dest (mk es) = Some es"
  shows "deep_copy (map_val dest) map_reach (map_copy mk dest)"
proof
  fix m m' :: "'c mem" and p v
  assume "map_val dest m p = Some v"
  then have v: "deref dest m p = Some v" "gomap_ok v" by (auto simp: map_val_def bind_eq_Some_conv split: if_splits)
  then have p: "p < me_next m" by (simp add: deref_def split: if_splits)
  then show "map_reach m p \<subseteq> {..<me_next m}" by (simp add: map_reach_def)
  show "map_val dest m' p = Some v \<and> map_reach m' p = map_reach m p"
    if "\<forall>q\<in>map_reach m p. me_cells m' q = me_cells m q" "map_reach m p \<subseteq> {..<me_next m'}"
    using deref_local [OF v(1), of m'] that v(2) by (simp add: map_val_def map_reach_def)
  have "put_all v [] = v" using put_all_ok [of "[]" v] v(2) by simp
  then show "\<exists>a' m'. map_copy mk dest m p = Some (a', m') \<and> extends m m' \<and> map_val dest m' a' = Some v \<and>
      map_reach m' a' \<subseteq> {me_next m..<me_next m'}"
    using v mk extends_alloc [of m "mk v"]
    by (intro exI [of _ "me_next m"] exI [of _ "snd (alloc (mk v) m)"])
      (simp add: map_copy_def map_val_def map_reach_def deref_def alloc_def)
qed

subsection \<open>Appending and writing\<close>

text \<open>
  \<^verbatim>\<open>append(s, x)\<close>: into the array when it has room behind the slice, else into a new one, to which the
  runtime gives some spare room.
\<close>

definition slice_append ::
  "('a list \<Rightarrow> 'c) \<Rightarrow> ('c \<Rightarrow> 'a list option) \<Rightarrow> 'a list \<Rightarrow> 'a \<Rightarrow> 'c mem \<Rightarrow> (addr \<times> nat) option
   \<Rightarrow> ((addr \<times> nat) \<times> 'c mem) option" where
  "slice_append mk dest spare x m sl =
     (case sl of
        None \<Rightarrow> let (q, m) = alloc (mk (x # spare)) m in Some ((q, 1), m)
      | Some (p, n) \<Rightarrow> Option.bind (deref dest m p) (\<lambda>xs.
          if n < length xs then Some ((p, Suc n), store p (mk (xs[n := x])) m)
          else if n = length xs then let (q, m) = alloc (mk (xs @ x # spare)) m in Some ((q, Suc n), m)
          else None))"

definition slice_elements :: "('c \<Rightarrow> 'a list option) \<Rightarrow> 'c mem \<Rightarrow> (addr \<times> nat) option \<Rightarrow> 'a list option" where
  "slice_elements dest m sl = (case sl of None \<Rightarrow> Some [] | Some s \<Rightarrow> elements dest m s)"

text \<open>A memory that differs from another only in the given cells and in new ones.\<close>

definition writes_only :: "addr set \<Rightarrow> 'c mem \<Rightarrow> 'c mem \<Rightarrow> bool" where
  "writes_only A m m' \<longleftrightarrow>
     me_next m \<le> me_next m' \<and> (\<forall>p. p < me_next m \<and> p \<notin> A \<longrightarrow> me_cells m' p = me_cells m p)"

lemma writes_only_trans: "writes_only A m m' \<Longrightarrow> writes_only A m' m'' \<Longrightarrow> writes_only A m m''"
  by (simp add: writes_only_def)

lemma writes_only_store: "p \<in> A \<Longrightarrow> writes_only A m (store p c m)"
  by (simp add: writes_only_def)

lemma writes_only_val:
  assumes "deep_copy val reach copy" "val m a = Some v" "writes_only A m m'" "reach m a \<inter> A = {}"
  shows "val m' a = Some v"
proof -
  have r: "reach m a \<subseteq> {..<me_next m}" by (rule deep_copy.present [OF assms(1,2)])
  have "\<forall>p\<in>reach m a. me_cells m' p = me_cells m p" "reach m a \<subseteq> {..<me_next m'}"
    using assms(3,4) r by (fastforce simp: writes_only_def)+
  with deep_copy.local [OF assms(1,2)] show ?thesis by blast
qed

definition array_of :: "(addr \<times> nat) option \<Rightarrow> addr set" where
  "array_of sl = (case sl of None \<Rightarrow> {} | Some s \<Rightarrow> {fst s})"

lemma slice_elements_array: "slice_elements dest m sl = Some xs \<Longrightarrow> array_of sl \<subseteq> {..<me_next m}"
  by (cases sl) (auto simp: array_of_def slice_elements_def dest: elements_present)

lemma slice_elements_kept:
  assumes "slice_elements dest m sl = Some xs" "writes_only A m m'" "array_of sl \<inter> A = {}"
  shows "slice_elements dest m' sl = Some xs"
proof (cases sl)
  case (Some s)
  then have s: "elements dest m s = Some xs" using assms(1) by (simp add: slice_elements_def)
  then have "me_cells m' (fst s) = me_cells m (fst s)" "fst s < me_next m'" "fst s < me_next m"
    using elements_present [OF s] assms(2,3) Some by (auto simp: writes_only_def array_of_def)
  with s Some show ?thesis by (simp add: slice_elements_def elements_def deref_def)
qed (use assms(1) in \<open>simp add: slice_elements_def\<close>)

lemma deref_store: "p < me_next m \<Longrightarrow> dest c = Some a \<Longrightarrow> deref dest (store p c m) p = Some a"
  by (simp add: deref_def)

text \<open>Appending gives a slice of the elements and the new one, in the old array or a new one.\<close>

lemma slice_append_ok:
  assumes mk: "\<And>xs. dest (mk xs) = Some xs" and xs: "slice_elements dest m sl = Some xs"
  shows "\<exists>p ys m'. slice_append mk dest spare x m sl = Some ((p, Suc (length xs)), m') \<and>
    deref dest m' p = Some ys \<and> Suc (length xs) \<le> length ys \<and> take (Suc (length xs)) ys = xs @ [x] \<and>
    writes_only (array_of sl) m m' \<and> (p \<in> array_of sl \<or> me_next m \<le> p)"
proof (cases sl)
  case None
  with xs have "xs = []" by (simp add: slice_elements_def)
  with None show ?thesis
    using mk by (simp add: slice_append_def alloc_def deref_def writes_only_def array_of_def)
next
  case (Some s)
  then obtain q n ys where sl: "sl = Some (q, n)" "deref dest m q = Some ys" "n \<le> length ys" "xs = take n ys"
    using xs by (cases s) (auto simp: slice_elements_def elements_def bind_eq_Some_conv split: if_splits)
  have q: "q < me_next m" using sl(2) by (simp add: deref_def split: if_splits)
  have len: "length xs = n" using sl(3,4) by simp
  show ?thesis
  proof (cases "n < length ys")
    case True
    have "take (Suc n) (ys[n := x]) = xs @ [x]" using True sl(4) by (simp add: take_Suc_conv_app_nth)
    with True sl q mk len show ?thesis
      by (simp add: slice_append_def deref_def array_of_def writes_only_store)
  next
    case False
    with sl(3) have "n = length ys" by simp
    with sl q mk len show ?thesis
      by (simp add: slice_append_def alloc_def deref_def array_of_def writes_only_def)
  qed
qed

end
