(* ===== verification/DeepCopy.thy ===== *)
theory DeepCopy
  imports Memory ApiTypes "HOL-Library.Monad_Syntax"
begin

section \<open>The generated deep copies\<close>

text \<open>
  Models \<^verbatim>\<open>api/v1alpha1/zz_generated.deepcopy.go\<close> on the memory: a record \<open>..._rep\<close> is a struct as it lies in
  memory, with addresses for its pointers, slices and maps, and \<open>..._val\<close> reads the value of theory
  \<open>ApiTypes\<close> off it. A struct of another module (Gardener, apimachinery) has an uninterpreted
  representation \<open>'x\<close>; its reader, the addresses it reaches and its own \<^verbatim>\<open>DeepCopyInto\<close> are a parameter, of which
  \<open>deep_copy\<close> is assumed. A struct that the generated code assigns has no pointers.
\<close>

subsection \<open>Structs in memory\<close>

record ImageFilter_rep =
  r_if_RequiredFeatureSetValues :: "(addr \<times> nat) option"

record OCI_rep =
  r_oci_Registry :: string
  r_oci_Repository :: string
  r_oci_Username :: string
  r_oci_Password :: SecretReference
  r_oci_Insecure :: bool
  r_oci_ImageFilter :: "addr option"
  r_oci_FeatureToCapabilityMap :: "addr option"

record LandscapeSetup_rep =
  r_ls_OCI :: OCI_rep
  r_ls_Provider :: string

record KubernetesVersionUpdateConfig_rep =
  r_ku_ExpirationThreshold :: duration
  r_ku_LandscapeSetup :: "addr option"

record GlanceSource_rep =
  r_gl_AuthURLFormat :: string
  r_gl_Regions :: "(addr \<times> nat) option"
  r_gl_NamePrefix :: string
  r_gl_KeepLatest :: int64
  r_gl_VersionOffset :: int64
  r_gl_ExcludedSuffixes :: "(addr \<times> nat) option"
  r_gl_RequireAllRegions :: bool
  r_gl_Parallel :: int64
  r_gl_ProjectName :: string
  r_gl_ProjectDomainName :: string
  r_gl_Username :: string
  r_gl_UserDomainName :: string
  r_gl_PasswordSecret :: SecretReference

record MachineImageUpdateSource_rep =
  r_us_OCI :: "addr option"
  r_us_Glance :: "addr option"

record MachineImageUpdateProvider_rep =
  r_up_IroncoreMetal :: "addr option"
  r_up_OpenStack :: "addr option"

record MachineImageUpdate_rep =
  r_mu_Source :: MachineImageUpdateSource_rep
  r_mu_Provider :: MachineImageUpdateProvider_rep
  r_mu_ImageName :: string
  r_mu_MinVersionForUpdate :: "addr option"

record 'x CloudProfileSpec_rep =
  r_cs_CABundle :: "addr option"
  r_cs_Kubernetes :: 'x
  r_cs_MachineImages :: "(addr \<times> nat) option"
  r_cs_MachineTypes :: "(addr \<times> nat) option"
  r_cs_ProviderConfig :: "addr option"
  r_cs_Regions :: "(addr \<times> nat) option"
  r_cs_SeedSelector :: "addr option"
  r_cs_Type :: string
  r_cs_VolumeTypes :: "(addr \<times> nat) option"
  r_cs_Bastion :: "addr option"
  r_cs_Limits :: "addr option"
  r_cs_MachineCapabilities :: "(addr \<times> nat) option"
  r_cs_ControlPlane :: "addr option"

record 'x ManagedCloudProfileSpec_rep =
  r_ms_CloudProfile :: "'x CloudProfileSpec_rep"
  r_ms_MachineImagesPaused :: bool
  r_ms_MachineImageUpdates :: "(addr \<times> nat) option"
  r_ms_GarbageCollection :: "addr option"
  r_ms_KubernetesUpdate :: "addr option"

record ManagedCloudProfileStatus_rep =
  r_st_Status :: ReconcileStatus
  r_st_Conditions :: "(addr \<times> nat) option"

record 'x ManagedCloudProfile_rep =
  r_mcp_TypeMeta :: opaque
  r_mcp_ObjectMeta :: 'x
  r_mcp_Spec :: "'x ManagedCloudProfileSpec_rep"
  r_mcp_Status :: ManagedCloudProfileStatus_rep

record 'x ManagedCloudProfileList_rep =
  r_ml_TypeMeta :: opaque
  r_ml_ListMeta :: 'x
  r_ml_Items :: "(addr \<times> nat) option"

text \<open>
  The cells: what a pointer may point to, and the backing arrays of slices. \<open>Assigned\<close> is a struct of another
  module that has no pointers.
\<close>

datatype 'x cell =
    StringCell string
  | StringsCell "string list"
  | MapCell "(string, string) gomap"
  | SecretReferenceCell SecretReference
  | ImageFilterCell ImageFilter_rep
  | GarbageCollectionConfigCell GarbageCollectionConfig
  | OCICell OCI_rep
  | LandscapeSetupCell LandscapeSetup_rep
  | KubernetesVersionUpdateConfigCell KubernetesVersionUpdateConfig_rep
  | GlanceSourceCell GlanceSource_rep
  | MachineImageUpdateSourceCell MachineImageUpdateSource_rep
  | IroncoreMetalCell MachineImagesUpdateProviderIroncoreMetal
  | OpenStackCell unit
  | MachineImageUpdateProviderCell MachineImageUpdateProvider_rep
  | MachineImageUpdateCell MachineImageUpdate_rep
  | MachineImageUpdatesCell "MachineImageUpdate_rep list"
  | CloudProfileSpecCell "'x CloudProfileSpec_rep"
  | ManagedCloudProfileSpecCell "'x ManagedCloudProfileSpec_rep"
  | ConditionsCell "Condition list"
  | ManagedCloudProfileStatusCell ManagedCloudProfileStatus_rep
  | ManagedCloudProfileCell "'x ManagedCloudProfile_rep"
  | ManagedCloudProfilesCell "'x ManagedCloudProfile_rep list"
  | ManagedCloudProfileListCell "'x ManagedCloudProfileList_rep"
  | ExternalCell 'x
  | ExternalsCell "'x list"
  | AssignedCell opaque

definition the_String where "the_String c = (case c of StringCell x \<Rightarrow> Some x | _ \<Rightarrow> None)"
definition the_Strings where "the_Strings c = (case c of StringsCell x \<Rightarrow> Some x | _ \<Rightarrow> None)"
definition the_Map where "the_Map c = (case c of MapCell x \<Rightarrow> Some x | _ \<Rightarrow> None)"
definition the_SecretReference where "the_SecretReference c = (case c of SecretReferenceCell x \<Rightarrow> Some x | _ \<Rightarrow> None)"
definition the_ImageFilter where "the_ImageFilter c = (case c of ImageFilterCell x \<Rightarrow> Some x | _ \<Rightarrow> None)"
definition the_GarbageCollectionConfig where "the_GarbageCollectionConfig c = (case c of GarbageCollectionConfigCell x \<Rightarrow> Some x | _ \<Rightarrow> None)"
definition the_OCI where "the_OCI c = (case c of OCICell x \<Rightarrow> Some x | _ \<Rightarrow> None)"
definition the_LandscapeSetup where "the_LandscapeSetup c = (case c of LandscapeSetupCell x \<Rightarrow> Some x | _ \<Rightarrow> None)"
definition the_KubernetesVersionUpdateConfig where "the_KubernetesVersionUpdateConfig c = (case c of KubernetesVersionUpdateConfigCell x \<Rightarrow> Some x | _ \<Rightarrow> None)"
definition the_GlanceSource where "the_GlanceSource c = (case c of GlanceSourceCell x \<Rightarrow> Some x | _ \<Rightarrow> None)"
definition the_MachineImageUpdateSource where "the_MachineImageUpdateSource c = (case c of MachineImageUpdateSourceCell x \<Rightarrow> Some x | _ \<Rightarrow> None)"
definition the_IroncoreMetal where "the_IroncoreMetal c = (case c of IroncoreMetalCell x \<Rightarrow> Some x | _ \<Rightarrow> None)"
definition the_OpenStack where "the_OpenStack c = (case c of OpenStackCell x \<Rightarrow> Some x | _ \<Rightarrow> None)"
definition the_MachineImageUpdateProvider where "the_MachineImageUpdateProvider c = (case c of MachineImageUpdateProviderCell x \<Rightarrow> Some x | _ \<Rightarrow> None)"
definition the_MachineImageUpdate where "the_MachineImageUpdate c = (case c of MachineImageUpdateCell x \<Rightarrow> Some x | _ \<Rightarrow> None)"
definition the_MachineImageUpdates where "the_MachineImageUpdates c = (case c of MachineImageUpdatesCell x \<Rightarrow> Some x | _ \<Rightarrow> None)"
definition the_CloudProfileSpec where "the_CloudProfileSpec c = (case c of CloudProfileSpecCell x \<Rightarrow> Some x | _ \<Rightarrow> None)"
definition the_ManagedCloudProfileSpec where "the_ManagedCloudProfileSpec c = (case c of ManagedCloudProfileSpecCell x \<Rightarrow> Some x | _ \<Rightarrow> None)"
definition the_Conditions where "the_Conditions c = (case c of ConditionsCell x \<Rightarrow> Some x | _ \<Rightarrow> None)"
definition the_ManagedCloudProfileStatus where "the_ManagedCloudProfileStatus c = (case c of ManagedCloudProfileStatusCell x \<Rightarrow> Some x | _ \<Rightarrow> None)"
definition the_ManagedCloudProfile where "the_ManagedCloudProfile c = (case c of ManagedCloudProfileCell x \<Rightarrow> Some x | _ \<Rightarrow> None)"
definition the_ManagedCloudProfiles where "the_ManagedCloudProfiles c = (case c of ManagedCloudProfilesCell x \<Rightarrow> Some x | _ \<Rightarrow> None)"
definition the_ManagedCloudProfileList where "the_ManagedCloudProfileList c = (case c of ManagedCloudProfileListCell x \<Rightarrow> Some x | _ \<Rightarrow> None)"
definition the_External where "the_External c = (case c of ExternalCell x \<Rightarrow> Some x | _ \<Rightarrow> None)"
definition the_Externals where "the_Externals c = (case c of ExternalsCell x \<Rightarrow> Some x | _ \<Rightarrow> None)"
definition the_Assigned where "the_Assigned c = (case c of AssignedCell x \<Rightarrow> Some x | _ \<Rightarrow> None)"

lemmas the_cell_defs =
  the_String_def the_Strings_def the_Map_def the_SecretReference_def
  the_ImageFilter_def the_GarbageCollectionConfig_def the_OCI_def the_LandscapeSetup_def
  the_KubernetesVersionUpdateConfig_def the_GlanceSource_def the_MachineImageUpdateSource_def the_IroncoreMetal_def
  the_OpenStack_def the_MachineImageUpdateProvider_def the_MachineImageUpdate_def the_MachineImageUpdates_def
  the_CloudProfileSpec_def the_ManagedCloudProfileSpec_def the_Conditions_def the_ManagedCloudProfileStatus_def
  the_ManagedCloudProfile_def the_ManagedCloudProfiles_def the_ManagedCloudProfileList_def the_External_def
  the_Externals_def the_Assigned_def

lemma the_cell_simps [simp]:
  "the_String (StringCell x0) = Some x0"
  "the_Strings (StringsCell x1) = Some x1"
  "the_Map (MapCell x2) = Some x2"
  "the_SecretReference (SecretReferenceCell x3) = Some x3"
  "the_ImageFilter (ImageFilterCell x4) = Some x4"
  "the_GarbageCollectionConfig (GarbageCollectionConfigCell x5) = Some x5"
  "the_OCI (OCICell x6) = Some x6"
  "the_LandscapeSetup (LandscapeSetupCell x7) = Some x7"
  "the_KubernetesVersionUpdateConfig (KubernetesVersionUpdateConfigCell x8) = Some x8"
  "the_GlanceSource (GlanceSourceCell x9) = Some x9"
  "the_MachineImageUpdateSource (MachineImageUpdateSourceCell x10) = Some x10"
  "the_IroncoreMetal (IroncoreMetalCell x11) = Some x11"
  "the_OpenStack (OpenStackCell x12) = Some x12"
  "the_MachineImageUpdateProvider (MachineImageUpdateProviderCell x13) = Some x13"
  "the_MachineImageUpdate (MachineImageUpdateCell x14) = Some x14"
  "the_MachineImageUpdates (MachineImageUpdatesCell x15) = Some x15"
  "the_CloudProfileSpec (CloudProfileSpecCell x16) = Some x16"
  "the_ManagedCloudProfileSpec (ManagedCloudProfileSpecCell x17) = Some x17"
  "the_Conditions (ConditionsCell x18) = Some x18"
  "the_ManagedCloudProfileStatus (ManagedCloudProfileStatusCell x19) = Some x19"
  "the_ManagedCloudProfile (ManagedCloudProfileCell x20) = Some x20"
  "the_ManagedCloudProfiles (ManagedCloudProfilesCell x21) = Some x21"
  "the_ManagedCloudProfileList (ManagedCloudProfileListCell x22) = Some x22"
  "the_External (ExternalCell x23) = Some x23"
  "the_Externals (ExternalsCell x24) = Some x24"
  "the_Assigned (AssignedCell x25) = Some x25"
  by (simp_all add: the_cell_defs)

lemma the_ManagedCloudProfile_SomeD: "the_ManagedCloudProfile c = Some r \<Longrightarrow> c = ManagedCloudProfileCell r"
  by (cases c) (simp_all add: the_ManagedCloudProfile_def)

subsection \<open>Fields\<close>

text \<open>
  The copies that fields of several structs share. A nil slice or map reads as an empty one, as everywhere in the
  development.
\<close>

abbreviation list_of :: "'a list option \<Rightarrow> 'a list" where
  "list_of \<equiv> case_option [] id"

abbreviation string_val :: "('x cell, addr option, string option) reader" where
  "string_val \<equiv> opt_val (ptr_val the_String flat_val)"

abbreviation string_reach :: "('x cell, addr option) reacher" where
  "string_reach \<equiv> opt_reach (ptr_reach the_String no_reach)"

abbreviation string_copy :: "('x cell, addr option) copier" where
  "string_copy \<equiv> opt_copy (ptr_copy StringCell the_String assign)"

abbreviation strings_val :: "('x cell, (addr \<times> nat) option, string list option) reader" where
  "strings_val \<equiv> opt_val (slice_val the_Strings flat_val)"

abbreviation strings_reach :: "('x cell, (addr \<times> nat) option) reacher" where
  "strings_reach \<equiv> opt_reach (slice_reach the_Strings no_reach)"

abbreviation strings_copy :: "('x cell, (addr \<times> nat) option) copier" where
  "strings_copy \<equiv> opt_copy (slice_copy StringsCell the_Strings assign)"

lemma strings_deep_copy: "deep_copy strings_val strings_reach strings_copy"
  by (intro opt_deep_copy slice_deep_copy flat.deep_copy_axioms) simp

lemma string_deep_copy: "deep_copy string_val string_reach string_copy"
  by (intro opt_deep_copy ptr_deep_copy flat.deep_copy_axioms) simp

lemma map_option_bind: "map_option f x = Option.bind x (\<lambda>y. Some (f y))"
  by (cases x) auto

lemmas deep_copies = flat.deep_copy_axioms opt_deep_copy ptr_deep_copy slice_deep_copy map_deep_copy pair_deep_copy

lemmas copy_unfold = map_option_bind case_prod_unfold pair_copy_def Let_def

subsection \<open>Sources\<close>

definition ImageFilter_value :: "ImageFilter_rep \<Rightarrow> string list option \<Rightarrow> ImageFilter" where
  "ImageFilter_value r y = \<lparr>if_RequiredFeatureSetValues = list_of y\<rparr>"

definition ImageFilter_val :: "('x cell, ImageFilter_rep, ImageFilter) reader" where
  "ImageFilter_val m r = map_option (ImageFilter_value r) (strings_val m (r_if_RequiredFeatureSetValues r))"

definition ImageFilter_reach :: "('x cell, ImageFilter_rep) reacher" where
  "ImageFilter_reach m r =
     strings_reach m (r_if_RequiredFeatureSetValues r)"

definition ImageFilter_DeepCopyInto :: "('x cell, ImageFilter_rep) copier" where
  "ImageFilter_DeepCopyInto m src = do {
     let out = src;
     (p, m) \<leftarrow> strings_copy m (r_if_RequiredFeatureSetValues src);
     let out = out\<lparr>r_if_RequiredFeatureSetValues := p\<rparr>;
     Some (out, m)
   }"

lemma ImageFilter_deep_copy: "deep_copy ImageFilter_val ImageFilter_reach ImageFilter_DeepCopyInto"
proof -
  have "deep_copy (strings_val)
      (strings_reach)
      (strings_copy)"
    by (intro strings_deep_copy string_deep_copy deep_copies) simp_all
  from struct_deep_copy [OF this, where fields = r_if_RequiredFeatureSetValues and build = "ImageFilter_value" and
    upd = "\<lambda>x r. r\<lparr>r_if_RequiredFeatureSetValues := x\<rparr>"]
  show ?thesis
    by (simp add: ImageFilter_val_def [abs_def] ImageFilter_reach_def [abs_def] ImageFilter_DeepCopyInto_def [abs_def]
        ImageFilter_value_def copy_unfold)
qed

definition ImageFilter_DeepCopy :: "('x cell, addr option) copier" where
  "ImageFilter_DeepCopy = opt_copy (ptr_copy ImageFilterCell the_ImageFilter ImageFilter_DeepCopyInto)"

definition SecretReference_DeepCopyInto :: "('x cell, SecretReference) copier" where
  "SecretReference_DeepCopyInto m src = (let out = src in Some (out, m))"

definition SecretReference_DeepCopy :: "('x cell, addr option) copier" where
  "SecretReference_DeepCopy = opt_copy (ptr_copy SecretReferenceCell the_SecretReference SecretReference_DeepCopyInto)"

definition OCI_fields where
  "OCI_fields r = (r_oci_ImageFilter r, r_oci_FeatureToCapabilityMap r)"

definition OCI_value :: "OCI_rep \<Rightarrow> ImageFilter option \<times> (string, string) gomap option \<Rightarrow> OCI" where
  "OCI_value r y =
     \<lparr>oci_Registry = r_oci_Registry r, oci_Repository = r_oci_Repository r, oci_Username = r_oci_Username r,
      oci_Password = r_oci_Password r, oci_Insecure = r_oci_Insecure r, oci_ImageFilter = fst y,
      oci_FeatureToCapabilityMap = list_of (snd y)\<rparr>"

definition OCI_val :: "('x cell, OCI_rep, OCI) reader" where
  "OCI_val m r = map_option (OCI_value r)
     (pair_val (opt_val (ptr_val the_ImageFilter ImageFilter_val)) (opt_val (map_val the_Map)) m (OCI_fields r))"

definition OCI_reach :: "('x cell, OCI_rep) reacher" where
  "OCI_reach m r =
     pair_reach (opt_reach (ptr_reach the_ImageFilter ImageFilter_reach)) (opt_reach map_reach) m (OCI_fields r)"

definition OCI_DeepCopyInto :: "('x cell, OCI_rep) copier" where
  "OCI_DeepCopyInto m src = do {
     let out = src;
     let out = out\<lparr>r_oci_Password := r_oci_Password src\<rparr>;
     (p, m) \<leftarrow> opt_copy (ptr_copy ImageFilterCell the_ImageFilter ImageFilter_DeepCopyInto) m (r_oci_ImageFilter src);
     let out = out\<lparr>r_oci_ImageFilter := p\<rparr>;
     (p, m) \<leftarrow> opt_copy (map_copy MapCell the_Map) m (r_oci_FeatureToCapabilityMap src);
     let out = out\<lparr>r_oci_FeatureToCapabilityMap := p\<rparr>;
     Some (out, m)
   }"

lemma OCI_deep_copy: "deep_copy OCI_val OCI_reach OCI_DeepCopyInto"
proof -
  have "deep_copy (pair_val (opt_val (ptr_val the_ImageFilter ImageFilter_val)) (opt_val (map_val the_Map)))
      (pair_reach (opt_reach (ptr_reach the_ImageFilter ImageFilter_reach)) (opt_reach map_reach))
      (pair_copy (opt_copy (ptr_copy ImageFilterCell the_ImageFilter ImageFilter_DeepCopyInto)) (opt_copy (map_copy MapCell the_Map)))"
    by (intro strings_deep_copy string_deep_copy deep_copies ImageFilter_deep_copy) simp_all
  from struct_deep_copy [OF this, where fields = OCI_fields and build = "OCI_value" and
    upd = "\<lambda>x r. r\<lparr>r_oci_ImageFilter := fst x, r_oci_FeatureToCapabilityMap := snd x\<rparr>"]
  show ?thesis
    by (simp add: OCI_val_def [abs_def] OCI_reach_def [abs_def] OCI_DeepCopyInto_def [abs_def] OCI_fields_def
        OCI_value_def copy_unfold)
qed

definition OCI_DeepCopy :: "('x cell, addr option) copier" where
  "OCI_DeepCopy = opt_copy (ptr_copy OCICell the_OCI OCI_DeepCopyInto)"

definition GlanceSource_fields where
  "GlanceSource_fields r = (r_gl_Regions r, r_gl_ExcludedSuffixes r)"

definition GlanceSource_value :: "GlanceSource_rep \<Rightarrow> string list option \<times> string list option \<Rightarrow> GlanceSource" where
  "GlanceSource_value r y =
     \<lparr>gl_AuthURLFormat = r_gl_AuthURLFormat r, gl_Regions = list_of (fst y), gl_NamePrefix = r_gl_NamePrefix r,
      gl_KeepLatest = r_gl_KeepLatest r, gl_VersionOffset = r_gl_VersionOffset r,
      gl_ExcludedSuffixes = list_of (snd y), gl_RequireAllRegions = r_gl_RequireAllRegions r,
      gl_Parallel = r_gl_Parallel r, gl_ProjectName = r_gl_ProjectName r,
      gl_ProjectDomainName = r_gl_ProjectDomainName r, gl_Username = r_gl_Username r,
      gl_UserDomainName = r_gl_UserDomainName r, gl_PasswordSecret = r_gl_PasswordSecret r\<rparr>"

definition GlanceSource_val :: "('x cell, GlanceSource_rep, GlanceSource) reader" where
  "GlanceSource_val m r = map_option (GlanceSource_value r)
     (pair_val strings_val strings_val m (GlanceSource_fields r))"

definition GlanceSource_reach :: "('x cell, GlanceSource_rep) reacher" where
  "GlanceSource_reach m r =
     pair_reach strings_reach strings_reach m (GlanceSource_fields r)"

definition GlanceSource_DeepCopyInto :: "('x cell, GlanceSource_rep) copier" where
  "GlanceSource_DeepCopyInto m src = do {
     let out = src;
     (p, m) \<leftarrow> strings_copy m (r_gl_Regions src);
     let out = out\<lparr>r_gl_Regions := p\<rparr>;
     (p, m) \<leftarrow> strings_copy m (r_gl_ExcludedSuffixes src);
     let out = out\<lparr>r_gl_ExcludedSuffixes := p\<rparr>;
     let out = out\<lparr>r_gl_PasswordSecret := r_gl_PasswordSecret src\<rparr>;
     Some (out, m)
   }"

lemma GlanceSource_deep_copy: "deep_copy GlanceSource_val GlanceSource_reach GlanceSource_DeepCopyInto"
proof -
  have "deep_copy (pair_val strings_val strings_val)
      (pair_reach strings_reach strings_reach)
      (pair_copy strings_copy strings_copy)"
    by (intro strings_deep_copy string_deep_copy deep_copies) simp_all
  from struct_deep_copy [OF this, where fields = GlanceSource_fields and build = "GlanceSource_value" and
    upd = "\<lambda>x r. r\<lparr>r_gl_Regions := fst x, r_gl_ExcludedSuffixes := snd x\<rparr>"]
  show ?thesis
    by (simp add: GlanceSource_val_def [abs_def] GlanceSource_reach_def [abs_def] GlanceSource_DeepCopyInto_def [abs_def] GlanceSource_fields_def
        GlanceSource_value_def copy_unfold)
qed

definition GlanceSource_DeepCopy :: "('x cell, addr option) copier" where
  "GlanceSource_DeepCopy = opt_copy (ptr_copy GlanceSourceCell the_GlanceSource GlanceSource_DeepCopyInto)"

definition MachineImageUpdateSource_fields where
  "MachineImageUpdateSource_fields r = (r_us_OCI r, r_us_Glance r)"

definition MachineImageUpdateSource_value ::
  "MachineImageUpdateSource_rep \<Rightarrow> OCI option \<times> GlanceSource option \<Rightarrow> MachineImageUpdateSource" where
  "MachineImageUpdateSource_value r y = \<lparr>us_OCI = fst y, us_Glance = snd y\<rparr>"

definition MachineImageUpdateSource_val :: "('x cell, MachineImageUpdateSource_rep, MachineImageUpdateSource) reader" where
  "MachineImageUpdateSource_val m r = map_option (MachineImageUpdateSource_value r)
     (pair_val (opt_val (ptr_val the_OCI OCI_val)) (opt_val (ptr_val the_GlanceSource GlanceSource_val)) m (MachineImageUpdateSource_fields r))"

definition MachineImageUpdateSource_reach :: "('x cell, MachineImageUpdateSource_rep) reacher" where
  "MachineImageUpdateSource_reach m r =
     pair_reach (opt_reach (ptr_reach the_OCI OCI_reach)) (opt_reach (ptr_reach the_GlanceSource GlanceSource_reach)) m (MachineImageUpdateSource_fields r)"

definition MachineImageUpdateSource_DeepCopyInto :: "('x cell, MachineImageUpdateSource_rep) copier" where
  "MachineImageUpdateSource_DeepCopyInto m src = do {
     let out = src;
     (p, m) \<leftarrow> opt_copy (ptr_copy OCICell the_OCI OCI_DeepCopyInto) m (r_us_OCI src);
     let out = out\<lparr>r_us_OCI := p\<rparr>;
     (p, m) \<leftarrow> opt_copy (ptr_copy GlanceSourceCell the_GlanceSource GlanceSource_DeepCopyInto) m (r_us_Glance src);
     let out = out\<lparr>r_us_Glance := p\<rparr>;
     Some (out, m)
   }"

lemma MachineImageUpdateSource_deep_copy: "deep_copy MachineImageUpdateSource_val MachineImageUpdateSource_reach MachineImageUpdateSource_DeepCopyInto"
proof -
  have "deep_copy (pair_val (opt_val (ptr_val the_OCI OCI_val)) (opt_val (ptr_val the_GlanceSource GlanceSource_val)))
      (pair_reach (opt_reach (ptr_reach the_OCI OCI_reach)) (opt_reach (ptr_reach the_GlanceSource GlanceSource_reach)))
      (pair_copy (opt_copy (ptr_copy OCICell the_OCI OCI_DeepCopyInto)) (opt_copy (ptr_copy GlanceSourceCell the_GlanceSource GlanceSource_DeepCopyInto)))"
    by (intro strings_deep_copy string_deep_copy deep_copies OCI_deep_copy GlanceSource_deep_copy) simp_all
  from struct_deep_copy [OF this, where fields = MachineImageUpdateSource_fields and build = "MachineImageUpdateSource_value" and
    upd = "\<lambda>x r. r\<lparr>r_us_OCI := fst x, r_us_Glance := snd x\<rparr>"]
  show ?thesis
    by (simp add: MachineImageUpdateSource_val_def [abs_def] MachineImageUpdateSource_reach_def [abs_def] MachineImageUpdateSource_DeepCopyInto_def [abs_def] MachineImageUpdateSource_fields_def
        MachineImageUpdateSource_value_def copy_unfold)
qed

definition MachineImageUpdateSource_DeepCopy :: "('x cell, addr option) copier" where
  "MachineImageUpdateSource_DeepCopy = opt_copy (ptr_copy MachineImageUpdateSourceCell the_MachineImageUpdateSource MachineImageUpdateSource_DeepCopyInto)"

subsection \<open>Providers and updates\<close>

definition MachineImagesUpdateProviderIroncoreMetal_DeepCopyInto :: "('x cell, MachineImagesUpdateProviderIroncoreMetal) copier" where
  "MachineImagesUpdateProviderIroncoreMetal_DeepCopyInto m src = (let out = src in Some (out, m))"

definition MachineImagesUpdateProviderIroncoreMetal_DeepCopy :: "('x cell, addr option) copier" where
  "MachineImagesUpdateProviderIroncoreMetal_DeepCopy =
     opt_copy (ptr_copy IroncoreMetalCell the_IroncoreMetal MachineImagesUpdateProviderIroncoreMetal_DeepCopyInto)"

definition MachineImagesUpdateProviderOpenStack_DeepCopyInto :: "('x cell, unit) copier" where
  "MachineImagesUpdateProviderOpenStack_DeepCopyInto m src = (let out = src in Some (out, m))"

definition MachineImagesUpdateProviderOpenStack_DeepCopy :: "('x cell, addr option) copier" where
  "MachineImagesUpdateProviderOpenStack_DeepCopy =
     opt_copy (ptr_copy OpenStackCell the_OpenStack MachineImagesUpdateProviderOpenStack_DeepCopyInto)"

definition MachineImageUpdateProvider_fields where
  "MachineImageUpdateProvider_fields r = (r_up_IroncoreMetal r, r_up_OpenStack r)"

definition MachineImageUpdateProvider_value ::
  "MachineImageUpdateProvider_rep \<Rightarrow> MachineImagesUpdateProviderIroncoreMetal option \<times> unit option
   \<Rightarrow> MachineImageUpdateProvider" where
  "MachineImageUpdateProvider_value r y = \<lparr>up_IroncoreMetal = fst y, up_OpenStack = snd y\<rparr>"

definition MachineImageUpdateProvider_val :: "('x cell, MachineImageUpdateProvider_rep, MachineImageUpdateProvider) reader" where
  "MachineImageUpdateProvider_val m r = map_option (MachineImageUpdateProvider_value r)
     (pair_val (opt_val (ptr_val the_IroncoreMetal flat_val)) (opt_val (ptr_val the_OpenStack flat_val)) m (MachineImageUpdateProvider_fields r))"

definition MachineImageUpdateProvider_reach :: "('x cell, MachineImageUpdateProvider_rep) reacher" where
  "MachineImageUpdateProvider_reach m r =
     pair_reach (opt_reach (ptr_reach the_IroncoreMetal no_reach)) (opt_reach (ptr_reach the_OpenStack no_reach)) m (MachineImageUpdateProvider_fields r)"

definition MachineImageUpdateProvider_DeepCopyInto :: "('x cell, MachineImageUpdateProvider_rep) copier" where
  "MachineImageUpdateProvider_DeepCopyInto m src = do {
     let out = src;
     (p, m) \<leftarrow> opt_copy (ptr_copy IroncoreMetalCell the_IroncoreMetal assign) m (r_up_IroncoreMetal src);
     let out = out\<lparr>r_up_IroncoreMetal := p\<rparr>;
     (p, m) \<leftarrow> opt_copy (ptr_copy OpenStackCell the_OpenStack assign) m (r_up_OpenStack src);
     let out = out\<lparr>r_up_OpenStack := p\<rparr>;
     Some (out, m)
   }"

lemma MachineImageUpdateProvider_deep_copy: "deep_copy MachineImageUpdateProvider_val MachineImageUpdateProvider_reach MachineImageUpdateProvider_DeepCopyInto"
proof -
  have "deep_copy (pair_val (opt_val (ptr_val the_IroncoreMetal flat_val)) (opt_val (ptr_val the_OpenStack flat_val)))
      (pair_reach (opt_reach (ptr_reach the_IroncoreMetal no_reach)) (opt_reach (ptr_reach the_OpenStack no_reach)))
      (pair_copy (opt_copy (ptr_copy IroncoreMetalCell the_IroncoreMetal assign)) (opt_copy (ptr_copy OpenStackCell the_OpenStack assign)))"
    by (intro strings_deep_copy string_deep_copy deep_copies) simp_all
  from struct_deep_copy [OF this, where fields = MachineImageUpdateProvider_fields and build = "MachineImageUpdateProvider_value" and
    upd = "\<lambda>x r. r\<lparr>r_up_IroncoreMetal := fst x, r_up_OpenStack := snd x\<rparr>"]
  show ?thesis
    by (simp add: MachineImageUpdateProvider_val_def [abs_def] MachineImageUpdateProvider_reach_def [abs_def] MachineImageUpdateProvider_DeepCopyInto_def [abs_def] MachineImageUpdateProvider_fields_def
        MachineImageUpdateProvider_value_def copy_unfold)
qed

definition MachineImageUpdateProvider_DeepCopy :: "('x cell, addr option) copier" where
  "MachineImageUpdateProvider_DeepCopy = opt_copy (ptr_copy MachineImageUpdateProviderCell the_MachineImageUpdateProvider MachineImageUpdateProvider_DeepCopyInto)"

definition MachineImageUpdate_fields where
  "MachineImageUpdate_fields r = (r_mu_Source r, r_mu_Provider r, r_mu_MinVersionForUpdate r)"

definition MachineImageUpdate_value ::
  "MachineImageUpdate_rep \<Rightarrow> MachineImageUpdateSource \<times> MachineImageUpdateProvider \<times> string option
   \<Rightarrow> MachineImageUpdate" where
  "MachineImageUpdate_value r y =
     \<lparr>mu_Source = fst y, mu_Provider = fst (snd y), mu_ImageName = r_mu_ImageName r,
      mu_MinVersionForUpdate = snd (snd y)\<rparr>"

definition MachineImageUpdate_val :: "('x cell, MachineImageUpdate_rep, MachineImageUpdate) reader" where
  "MachineImageUpdate_val m r = map_option (MachineImageUpdate_value r)
     (pair_val MachineImageUpdateSource_val (pair_val MachineImageUpdateProvider_val string_val) m (MachineImageUpdate_fields r))"

definition MachineImageUpdate_reach :: "('x cell, MachineImageUpdate_rep) reacher" where
  "MachineImageUpdate_reach m r =
     pair_reach MachineImageUpdateSource_reach (pair_reach MachineImageUpdateProvider_reach string_reach) m (MachineImageUpdate_fields r)"

definition MachineImageUpdate_DeepCopyInto :: "('x cell, MachineImageUpdate_rep) copier" where
  "MachineImageUpdate_DeepCopyInto m src = do {
     let out = src;
     (p, m) \<leftarrow> MachineImageUpdateSource_DeepCopyInto m (r_mu_Source src);
     let out = out\<lparr>r_mu_Source := p\<rparr>;
     (p, m) \<leftarrow> MachineImageUpdateProvider_DeepCopyInto m (r_mu_Provider src);
     let out = out\<lparr>r_mu_Provider := p\<rparr>;
     (p, m) \<leftarrow> string_copy m (r_mu_MinVersionForUpdate src);
     let out = out\<lparr>r_mu_MinVersionForUpdate := p\<rparr>;
     Some (out, m)
   }"

lemma MachineImageUpdate_deep_copy: "deep_copy MachineImageUpdate_val MachineImageUpdate_reach MachineImageUpdate_DeepCopyInto"
proof -
  have "deep_copy (pair_val MachineImageUpdateSource_val (pair_val MachineImageUpdateProvider_val string_val))
      (pair_reach MachineImageUpdateSource_reach (pair_reach MachineImageUpdateProvider_reach string_reach))
      (pair_copy MachineImageUpdateSource_DeepCopyInto (pair_copy MachineImageUpdateProvider_DeepCopyInto string_copy))"
    by (intro strings_deep_copy string_deep_copy deep_copies MachineImageUpdateSource_deep_copy MachineImageUpdateProvider_deep_copy) simp_all
  from struct_deep_copy [OF this, where fields = MachineImageUpdate_fields and build = "MachineImageUpdate_value" and
    upd = "\<lambda>x r. r\<lparr>r_mu_Source := fst x, r_mu_Provider := fst (snd x), r_mu_MinVersionForUpdate := snd (snd x)\<rparr>"]
  show ?thesis
    by (simp add: MachineImageUpdate_val_def [abs_def] MachineImageUpdate_reach_def [abs_def] MachineImageUpdate_DeepCopyInto_def [abs_def] MachineImageUpdate_fields_def
        MachineImageUpdate_value_def copy_unfold)
qed

definition MachineImageUpdate_DeepCopy :: "('x cell, addr option) copier" where
  "MachineImageUpdate_DeepCopy = opt_copy (ptr_copy MachineImageUpdateCell the_MachineImageUpdate MachineImageUpdate_DeepCopyInto)"

subsection \<open>Garbage collection and Kubernetes versions\<close>

definition GarbageCollectionConfig_DeepCopyInto :: "('x cell, GarbageCollectionConfig) copier" where
  "GarbageCollectionConfig_DeepCopyInto m src =
     (let out = src; out = out\<lparr>gc_MaxAge := gc_MaxAge src\<rparr> in Some (out, m))"

definition GarbageCollectionConfig_DeepCopy :: "('x cell, addr option) copier" where
  "GarbageCollectionConfig_DeepCopy = opt_copy (ptr_copy GarbageCollectionConfigCell the_GarbageCollectionConfig GarbageCollectionConfig_DeepCopyInto)"

definition LandscapeSetup_value :: "LandscapeSetup_rep \<Rightarrow> OCI \<Rightarrow> LandscapeSetup" where
  "LandscapeSetup_value r y = \<lparr>ls_OCI = y, ls_Provider = r_ls_Provider r\<rparr>"

definition LandscapeSetup_val :: "('x cell, LandscapeSetup_rep, LandscapeSetup) reader" where
  "LandscapeSetup_val m r = map_option (LandscapeSetup_value r) (OCI_val m (r_ls_OCI r))"

definition LandscapeSetup_reach :: "('x cell, LandscapeSetup_rep) reacher" where
  "LandscapeSetup_reach m r =
     OCI_reach m (r_ls_OCI r)"

definition LandscapeSetup_DeepCopyInto :: "('x cell, LandscapeSetup_rep) copier" where
  "LandscapeSetup_DeepCopyInto m src = do {
     let out = src;
     (p, m) \<leftarrow> OCI_DeepCopyInto m (r_ls_OCI src);
     let out = out\<lparr>r_ls_OCI := p\<rparr>;
     Some (out, m)
   }"

lemma LandscapeSetup_deep_copy: "deep_copy LandscapeSetup_val LandscapeSetup_reach LandscapeSetup_DeepCopyInto"
proof -
  have "deep_copy (OCI_val)
      (OCI_reach)
      (OCI_DeepCopyInto)"
    by (rule OCI_deep_copy)
  from struct_deep_copy [OF this, where fields = r_ls_OCI and build = "LandscapeSetup_value" and
    upd = "\<lambda>x r. r\<lparr>r_ls_OCI := x\<rparr>"]
  show ?thesis
    by (simp add: LandscapeSetup_val_def [abs_def] LandscapeSetup_reach_def [abs_def] LandscapeSetup_DeepCopyInto_def [abs_def]
        LandscapeSetup_value_def copy_unfold)
qed

definition LandscapeSetup_DeepCopy :: "('x cell, addr option) copier" where
  "LandscapeSetup_DeepCopy = opt_copy (ptr_copy LandscapeSetupCell the_LandscapeSetup LandscapeSetup_DeepCopyInto)"

definition KubernetesVersionUpdateConfig_value ::
  "KubernetesVersionUpdateConfig_rep \<Rightarrow> LandscapeSetup option \<Rightarrow> KubernetesVersionUpdateConfig" where
  "KubernetesVersionUpdateConfig_value r y =
     \<lparr>ku_ExpirationThreshold = r_ku_ExpirationThreshold r, ku_LandscapeSetup = y\<rparr>"

definition KubernetesVersionUpdateConfig_val :: "('x cell, KubernetesVersionUpdateConfig_rep, KubernetesVersionUpdateConfig) reader" where
  "KubernetesVersionUpdateConfig_val m r = map_option (KubernetesVersionUpdateConfig_value r) (opt_val (ptr_val the_LandscapeSetup LandscapeSetup_val) m (r_ku_LandscapeSetup r))"

definition KubernetesVersionUpdateConfig_reach :: "('x cell, KubernetesVersionUpdateConfig_rep) reacher" where
  "KubernetesVersionUpdateConfig_reach m r =
     opt_reach (ptr_reach the_LandscapeSetup LandscapeSetup_reach) m (r_ku_LandscapeSetup r)"

definition KubernetesVersionUpdateConfig_DeepCopyInto :: "('x cell, KubernetesVersionUpdateConfig_rep) copier" where
  "KubernetesVersionUpdateConfig_DeepCopyInto m src = do {
     let out = src;
     let out = out\<lparr>r_ku_ExpirationThreshold := r_ku_ExpirationThreshold src\<rparr>;
     (p, m) \<leftarrow> opt_copy (ptr_copy LandscapeSetupCell the_LandscapeSetup LandscapeSetup_DeepCopyInto) m (r_ku_LandscapeSetup src);
     let out = out\<lparr>r_ku_LandscapeSetup := p\<rparr>;
     Some (out, m)
   }"

lemma KubernetesVersionUpdateConfig_deep_copy: "deep_copy KubernetesVersionUpdateConfig_val KubernetesVersionUpdateConfig_reach KubernetesVersionUpdateConfig_DeepCopyInto"
proof -
  have "deep_copy (opt_val (ptr_val the_LandscapeSetup LandscapeSetup_val))
      (opt_reach (ptr_reach the_LandscapeSetup LandscapeSetup_reach))
      (opt_copy (ptr_copy LandscapeSetupCell the_LandscapeSetup LandscapeSetup_DeepCopyInto))"
    by (intro strings_deep_copy string_deep_copy deep_copies LandscapeSetup_deep_copy) simp_all
  from struct_deep_copy [OF this, where fields = r_ku_LandscapeSetup and build = "KubernetesVersionUpdateConfig_value" and
    upd = "\<lambda>x r. r\<lparr>r_ku_LandscapeSetup := x\<rparr>"]
  show ?thesis
    by (simp add: KubernetesVersionUpdateConfig_val_def [abs_def] KubernetesVersionUpdateConfig_reach_def [abs_def] KubernetesVersionUpdateConfig_DeepCopyInto_def [abs_def]
        KubernetesVersionUpdateConfig_value_def copy_unfold)
qed

definition KubernetesVersionUpdateConfig_DeepCopy :: "('x cell, addr option) copier" where
  "KubernetesVersionUpdateConfig_DeepCopy = opt_copy (ptr_copy KubernetesVersionUpdateConfigCell the_KubernetesVersionUpdateConfig KubernetesVersionUpdateConfig_DeepCopyInto)"

end
