(* ===== verification/DeepCopyProfile.thy ===== *)
theory DeepCopyProfile
  imports DeepCopy
begin

section \<open>Deep copies of the ManagedCloudProfile\<close>

text \<open>
  The second half of \<^verbatim>\<open>api/v1alpha1/zz_generated.deepcopy.go\<close>: the structs that contain structs of Gardener and
  of apimachinery, up to the ManagedCloudProfile and its list, and \<^verbatim>\<open>deepCopyMachineImages\<close> of
  \<^verbatim>\<open>controllers/cloud_profile.go\<close>. A value of another module is read as a text; the \<open>ex_\<close> functions turn it into
  the value that theory \<open>ApiTypes\<close> has for it.
\<close>

record 'x external =
  ex_val :: "('x cell, 'x, opaque) reader"
  ex_reach :: "('x cell, 'x) reacher"
  ex_copy :: "('x cell, 'x) copier" \<comment> \<open>\<^verbatim>\<open>DeepCopyInto\<close> of the other module\<close>
  ex_kubernetes :: "opaque \<Rightarrow> KubernetesSettings"
  ex_image :: "opaque \<Rightarrow> MachineImage"
  ex_capability :: "opaque \<Rightarrow> CapabilityDefinition"
  ex_meta :: "opaque \<Rightarrow> string \<times> int64"
  ex_slice :: "opaque list option \<Rightarrow> opaque"
  ex_pointer :: "opaque option \<Rightarrow> opaque"

abbreviation external_copy :: "'x external \<Rightarrow> bool" where
  "external_copy X \<equiv> deep_copy (ex_val X) (ex_reach X) (ex_copy X)"

definition CloudProfileSpec_fields where
  "CloudProfileSpec_fields r = (r_cs_CABundle r, r_cs_Kubernetes r, r_cs_MachineImages r, r_cs_MachineTypes r, r_cs_ProviderConfig r, r_cs_Regions r, r_cs_SeedSelector r, r_cs_VolumeTypes r, r_cs_Bastion r, r_cs_Limits r, r_cs_MachineCapabilities r, r_cs_ControlPlane r)"

definition CloudProfileSpec_value where
  "CloudProfileSpec_value X r y =
     (case y of (CABundle, Kubernetes, MachineImages, MachineTypes, ProviderConfig, Regions, SeedSelector, VolumeTypes,
                 Bastion, Limits, MachineCapabilities, ControlPlane) \<Rightarrow>
       \<lparr>cs_CABundle = CABundle, cs_Kubernetes = ex_kubernetes X Kubernetes,
        cs_MachineImages = map (ex_image X) (list_of MachineImages), cs_MachineTypes = ex_slice X MachineTypes,
        cs_ProviderConfig = ProviderConfig, cs_Regions = ex_slice X Regions, cs_SeedSelector = ex_pointer X SeedSelector,
        cs_Type = r_cs_Type r, cs_VolumeTypes = ex_slice X VolumeTypes, cs_Bastion = ex_pointer X Bastion,
        cs_Limits = ex_pointer X Limits, cs_MachineCapabilities = map (ex_capability X) (list_of MachineCapabilities),
        cs_ControlPlane = ex_pointer X ControlPlane\<rparr>)"

definition CloudProfileSpec_val :: "'x external \<Rightarrow> ('x cell, 'x CloudProfileSpec_rep, CloudProfileSpec) reader" where
  "CloudProfileSpec_val X m r = map_option (CloudProfileSpec_value X r)
     (pair_val string_val (pair_val (ex_val X) (pair_val (opt_val (slice_val the_Externals (ex_val X))) (pair_val (opt_val (slice_val the_Externals (ex_val X))) (pair_val (opt_val (ptr_val the_External (ex_val X))) (pair_val (opt_val (slice_val the_Externals (ex_val X))) (pair_val (opt_val (ptr_val the_External (ex_val X))) (pair_val (opt_val (slice_val the_Externals (ex_val X))) (pair_val (opt_val (ptr_val the_External (ex_val X))) (pair_val (opt_val (ptr_val the_External (ex_val X))) (pair_val (opt_val (slice_val the_Externals (ex_val X))) (opt_val (ptr_val the_Assigned flat_val)))))))))))) m (CloudProfileSpec_fields r))"

definition CloudProfileSpec_reach :: "'x external \<Rightarrow> ('x cell, 'x CloudProfileSpec_rep) reacher" where
  "CloudProfileSpec_reach X m r =
     pair_reach string_reach (pair_reach (ex_reach X) (pair_reach (opt_reach (slice_reach the_Externals (ex_reach X))) (pair_reach (opt_reach (slice_reach the_Externals (ex_reach X))) (pair_reach (opt_reach (ptr_reach the_External (ex_reach X))) (pair_reach (opt_reach (slice_reach the_Externals (ex_reach X))) (pair_reach (opt_reach (ptr_reach the_External (ex_reach X))) (pair_reach (opt_reach (slice_reach the_Externals (ex_reach X))) (pair_reach (opt_reach (ptr_reach the_External (ex_reach X))) (pair_reach (opt_reach (ptr_reach the_External (ex_reach X))) (pair_reach (opt_reach (slice_reach the_Externals (ex_reach X))) (opt_reach (ptr_reach the_Assigned no_reach)))))))))))) m (CloudProfileSpec_fields r)"

definition CloudProfileSpec_DeepCopyInto :: "'x external \<Rightarrow> ('x cell, 'x CloudProfileSpec_rep) copier" where
  "CloudProfileSpec_DeepCopyInto X m src = do {
     let out = src;
     (p, m) \<leftarrow> string_copy m (r_cs_CABundle src);
     let out = out\<lparr>r_cs_CABundle := p\<rparr>;
     (p, m) \<leftarrow> ex_copy X m (r_cs_Kubernetes src);
     let out = out\<lparr>r_cs_Kubernetes := p\<rparr>;
     (p, m) \<leftarrow> opt_copy (slice_copy ExternalsCell the_Externals (ex_copy X)) m (r_cs_MachineImages src);
     let out = out\<lparr>r_cs_MachineImages := p\<rparr>;
     (p, m) \<leftarrow> opt_copy (slice_copy ExternalsCell the_Externals (ex_copy X)) m (r_cs_MachineTypes src);
     let out = out\<lparr>r_cs_MachineTypes := p\<rparr>;
     (p, m) \<leftarrow> opt_copy (ptr_copy ExternalCell the_External (ex_copy X)) m (r_cs_ProviderConfig src);
     let out = out\<lparr>r_cs_ProviderConfig := p\<rparr>;
     (p, m) \<leftarrow> opt_copy (slice_copy ExternalsCell the_Externals (ex_copy X)) m (r_cs_Regions src);
     let out = out\<lparr>r_cs_Regions := p\<rparr>;
     (p, m) \<leftarrow> opt_copy (ptr_copy ExternalCell the_External (ex_copy X)) m (r_cs_SeedSelector src);
     let out = out\<lparr>r_cs_SeedSelector := p\<rparr>;
     (p, m) \<leftarrow> opt_copy (slice_copy ExternalsCell the_Externals (ex_copy X)) m (r_cs_VolumeTypes src);
     let out = out\<lparr>r_cs_VolumeTypes := p\<rparr>;
     (p, m) \<leftarrow> opt_copy (ptr_copy ExternalCell the_External (ex_copy X)) m (r_cs_Bastion src);
     let out = out\<lparr>r_cs_Bastion := p\<rparr>;
     (p, m) \<leftarrow> opt_copy (ptr_copy ExternalCell the_External (ex_copy X)) m (r_cs_Limits src);
     let out = out\<lparr>r_cs_Limits := p\<rparr>;
     (p, m) \<leftarrow> opt_copy (slice_copy ExternalsCell the_Externals (ex_copy X)) m (r_cs_MachineCapabilities src);
     let out = out\<lparr>r_cs_MachineCapabilities := p\<rparr>;
     (p, m) \<leftarrow> opt_copy (ptr_copy AssignedCell the_Assigned assign) m (r_cs_ControlPlane src);
     let out = out\<lparr>r_cs_ControlPlane := p\<rparr>;
     Some (out, m)
   }"

lemma CloudProfileSpec_deep_copy:
  assumes "deep_copy (ex_val X) (ex_reach X) (ex_copy X)"
  shows "deep_copy (CloudProfileSpec_val X) (CloudProfileSpec_reach X) (CloudProfileSpec_DeepCopyInto X)"
proof -
  have "deep_copy (pair_val string_val (pair_val (ex_val X) (pair_val (opt_val (slice_val the_Externals (ex_val X))) (pair_val (opt_val (slice_val the_Externals (ex_val X))) (pair_val (opt_val (ptr_val the_External (ex_val X))) (pair_val (opt_val (slice_val the_Externals (ex_val X))) (pair_val (opt_val (ptr_val the_External (ex_val X))) (pair_val (opt_val (slice_val the_Externals (ex_val X))) (pair_val (opt_val (ptr_val the_External (ex_val X))) (pair_val (opt_val (ptr_val the_External (ex_val X))) (pair_val (opt_val (slice_val the_Externals (ex_val X))) (opt_val (ptr_val the_Assigned flat_val)))))))))))))
      (pair_reach string_reach (pair_reach (ex_reach X) (pair_reach (opt_reach (slice_reach the_Externals (ex_reach X))) (pair_reach (opt_reach (slice_reach the_Externals (ex_reach X))) (pair_reach (opt_reach (ptr_reach the_External (ex_reach X))) (pair_reach (opt_reach (slice_reach the_Externals (ex_reach X))) (pair_reach (opt_reach (ptr_reach the_External (ex_reach X))) (pair_reach (opt_reach (slice_reach the_Externals (ex_reach X))) (pair_reach (opt_reach (ptr_reach the_External (ex_reach X))) (pair_reach (opt_reach (ptr_reach the_External (ex_reach X))) (pair_reach (opt_reach (slice_reach the_Externals (ex_reach X))) (opt_reach (ptr_reach the_Assigned no_reach)))))))))))))
      (pair_copy string_copy (pair_copy (ex_copy X) (pair_copy (opt_copy (slice_copy ExternalsCell the_Externals (ex_copy X))) (pair_copy (opt_copy (slice_copy ExternalsCell the_Externals (ex_copy X))) (pair_copy (opt_copy (ptr_copy ExternalCell the_External (ex_copy X))) (pair_copy (opt_copy (slice_copy ExternalsCell the_Externals (ex_copy X))) (pair_copy (opt_copy (ptr_copy ExternalCell the_External (ex_copy X))) (pair_copy (opt_copy (slice_copy ExternalsCell the_Externals (ex_copy X))) (pair_copy (opt_copy (ptr_copy ExternalCell the_External (ex_copy X))) (pair_copy (opt_copy (ptr_copy ExternalCell the_External (ex_copy X))) (pair_copy (opt_copy (slice_copy ExternalsCell the_Externals (ex_copy X))) (opt_copy (ptr_copy AssignedCell the_Assigned assign)))))))))))))"
    by (intro strings_deep_copy string_deep_copy deep_copies assms) simp_all
  from struct_deep_copy [OF this, where fields = CloudProfileSpec_fields and build = "CloudProfileSpec_value X" and
    upd = "\<lambda>x r. r\<lparr>r_cs_CABundle := fst x, r_cs_Kubernetes := fst (snd x), r_cs_MachineImages := fst (snd (snd x)), r_cs_MachineTypes := fst (snd (snd (snd x))), r_cs_ProviderConfig := fst (snd (snd (snd (snd x)))), r_cs_Regions := fst (snd (snd (snd (snd (snd x))))), r_cs_SeedSelector := fst (snd (snd (snd (snd (snd (snd x)))))), r_cs_VolumeTypes := fst (snd (snd (snd (snd (snd (snd (snd x))))))), r_cs_Bastion := fst (snd (snd (snd (snd (snd (snd (snd (snd x)))))))), r_cs_Limits := fst (snd (snd (snd (snd (snd (snd (snd (snd (snd x))))))))), r_cs_MachineCapabilities := fst (snd (snd (snd (snd (snd (snd (snd (snd (snd (snd x)))))))))), r_cs_ControlPlane := snd (snd (snd (snd (snd (snd (snd (snd (snd (snd (snd x))))))))))\<rparr>"]
  show ?thesis
    by (simp add: CloudProfileSpec_val_def [abs_def] CloudProfileSpec_reach_def [abs_def] CloudProfileSpec_DeepCopyInto_def [abs_def] CloudProfileSpec_fields_def
        CloudProfileSpec_value_def copy_unfold)
qed

definition CloudProfileSpec_DeepCopy :: "'x external \<Rightarrow> ('x cell, addr option) copier" where
  "CloudProfileSpec_DeepCopy X = opt_copy (ptr_copy CloudProfileSpecCell the_CloudProfileSpec (CloudProfileSpec_DeepCopyInto X))"

definition ManagedCloudProfileSpec_fields where
  "ManagedCloudProfileSpec_fields r = (r_ms_CloudProfile r, r_ms_MachineImageUpdates r, r_ms_GarbageCollection r, r_ms_KubernetesUpdate r)"

definition ManagedCloudProfileSpec_value where
  "ManagedCloudProfileSpec_value X r y =
     (case y of (CloudProfile, MachineImageUpdates, GarbageCollection, KubernetesUpdate) \<Rightarrow>
       \<lparr>ms_CloudProfile = CloudProfile, ms_MachineImagesPaused = r_ms_MachineImagesPaused r,
        ms_MachineImageUpdates = list_of MachineImageUpdates, ms_GarbageCollection = GarbageCollection,
        ms_KubernetesUpdate = KubernetesUpdate\<rparr>)"

definition ManagedCloudProfileSpec_val :: "'x external \<Rightarrow> ('x cell, 'x ManagedCloudProfileSpec_rep, ManagedCloudProfileSpec) reader" where
  "ManagedCloudProfileSpec_val X m r = map_option (ManagedCloudProfileSpec_value X r)
     (pair_val (CloudProfileSpec_val X) (pair_val (opt_val (slice_val the_MachineImageUpdates MachineImageUpdate_val)) (pair_val (opt_val (ptr_val the_GarbageCollectionConfig flat_val)) (opt_val (ptr_val the_KubernetesVersionUpdateConfig KubernetesVersionUpdateConfig_val)))) m (ManagedCloudProfileSpec_fields r))"

definition ManagedCloudProfileSpec_reach :: "'x external \<Rightarrow> ('x cell, 'x ManagedCloudProfileSpec_rep) reacher" where
  "ManagedCloudProfileSpec_reach X m r =
     pair_reach (CloudProfileSpec_reach X) (pair_reach (opt_reach (slice_reach the_MachineImageUpdates MachineImageUpdate_reach)) (pair_reach (opt_reach (ptr_reach the_GarbageCollectionConfig no_reach)) (opt_reach (ptr_reach the_KubernetesVersionUpdateConfig KubernetesVersionUpdateConfig_reach)))) m (ManagedCloudProfileSpec_fields r)"

definition ManagedCloudProfileSpec_DeepCopyInto :: "'x external \<Rightarrow> ('x cell, 'x ManagedCloudProfileSpec_rep) copier" where
  "ManagedCloudProfileSpec_DeepCopyInto X m src = do {
     let out = src;
     (p, m) \<leftarrow> CloudProfileSpec_DeepCopyInto X m (r_ms_CloudProfile src);
     let out = out\<lparr>r_ms_CloudProfile := p\<rparr>;
     (p, m) \<leftarrow> opt_copy (slice_copy MachineImageUpdatesCell the_MachineImageUpdates MachineImageUpdate_DeepCopyInto) m (r_ms_MachineImageUpdates src);
     let out = out\<lparr>r_ms_MachineImageUpdates := p\<rparr>;
     (p, m) \<leftarrow> opt_copy (ptr_copy GarbageCollectionConfigCell the_GarbageCollectionConfig assign) m (r_ms_GarbageCollection src);
     let out = out\<lparr>r_ms_GarbageCollection := p\<rparr>;
     (p, m) \<leftarrow> opt_copy (ptr_copy KubernetesVersionUpdateConfigCell the_KubernetesVersionUpdateConfig KubernetesVersionUpdateConfig_DeepCopyInto) m (r_ms_KubernetesUpdate src);
     let out = out\<lparr>r_ms_KubernetesUpdate := p\<rparr>;
     Some (out, m)
   }"

lemma ManagedCloudProfileSpec_deep_copy:
  assumes "deep_copy (ex_val X) (ex_reach X) (ex_copy X)"
  shows "deep_copy (ManagedCloudProfileSpec_val X) (ManagedCloudProfileSpec_reach X) (ManagedCloudProfileSpec_DeepCopyInto X)"
proof -
  have "deep_copy (pair_val (CloudProfileSpec_val X) (pair_val (opt_val (slice_val the_MachineImageUpdates MachineImageUpdate_val)) (pair_val (opt_val (ptr_val the_GarbageCollectionConfig flat_val)) (opt_val (ptr_val the_KubernetesVersionUpdateConfig KubernetesVersionUpdateConfig_val)))))
      (pair_reach (CloudProfileSpec_reach X) (pair_reach (opt_reach (slice_reach the_MachineImageUpdates MachineImageUpdate_reach)) (pair_reach (opt_reach (ptr_reach the_GarbageCollectionConfig no_reach)) (opt_reach (ptr_reach the_KubernetesVersionUpdateConfig KubernetesVersionUpdateConfig_reach)))))
      (pair_copy (CloudProfileSpec_DeepCopyInto X) (pair_copy (opt_copy (slice_copy MachineImageUpdatesCell the_MachineImageUpdates MachineImageUpdate_DeepCopyInto)) (pair_copy (opt_copy (ptr_copy GarbageCollectionConfigCell the_GarbageCollectionConfig assign)) (opt_copy (ptr_copy KubernetesVersionUpdateConfigCell the_KubernetesVersionUpdateConfig KubernetesVersionUpdateConfig_DeepCopyInto)))))"
    by (intro strings_deep_copy string_deep_copy deep_copies CloudProfileSpec_deep_copy [OF assms] MachineImageUpdate_deep_copy KubernetesVersionUpdateConfig_deep_copy assms) simp_all
  from struct_deep_copy [OF this, where fields = ManagedCloudProfileSpec_fields and build = "ManagedCloudProfileSpec_value X" and
    upd = "\<lambda>x r. r\<lparr>r_ms_CloudProfile := fst x, r_ms_MachineImageUpdates := fst (snd x), r_ms_GarbageCollection := fst (snd (snd x)), r_ms_KubernetesUpdate := snd (snd (snd x))\<rparr>"]
  show ?thesis
    by (simp add: ManagedCloudProfileSpec_val_def [abs_def] ManagedCloudProfileSpec_reach_def [abs_def] ManagedCloudProfileSpec_DeepCopyInto_def [abs_def] ManagedCloudProfileSpec_fields_def
        ManagedCloudProfileSpec_value_def copy_unfold)
qed

definition ManagedCloudProfileSpec_DeepCopy :: "'x external \<Rightarrow> ('x cell, addr option) copier" where
  "ManagedCloudProfileSpec_DeepCopy X = opt_copy (ptr_copy ManagedCloudProfileSpecCell the_ManagedCloudProfileSpec (ManagedCloudProfileSpec_DeepCopyInto X))"

definition ManagedCloudProfileStatus_value ::
  "ManagedCloudProfileStatus_rep \<Rightarrow> Condition list option \<Rightarrow> ManagedCloudProfileStatus" where
  "ManagedCloudProfileStatus_value r y = \<lparr>st_Status = r_st_Status r, st_Conditions = list_of y\<rparr>"

definition ManagedCloudProfileStatus_val :: "('x cell, ManagedCloudProfileStatus_rep, ManagedCloudProfileStatus) reader" where
  "ManagedCloudProfileStatus_val m r = map_option (ManagedCloudProfileStatus_value r) (opt_val (slice_val the_Conditions flat_val) m (r_st_Conditions r))"

definition ManagedCloudProfileStatus_reach :: "('x cell, ManagedCloudProfileStatus_rep) reacher" where
  "ManagedCloudProfileStatus_reach m r =
     opt_reach (slice_reach the_Conditions no_reach) m (r_st_Conditions r)"

definition ManagedCloudProfileStatus_DeepCopyInto :: "('x cell, ManagedCloudProfileStatus_rep) copier" where
  "ManagedCloudProfileStatus_DeepCopyInto m src = do {
     let out = src;
     (p, m) \<leftarrow> opt_copy (slice_copy ConditionsCell the_Conditions assign) m (r_st_Conditions src);
     let out = out\<lparr>r_st_Conditions := p\<rparr>;
     Some (out, m)
   }"

lemma ManagedCloudProfileStatus_deep_copy: "deep_copy ManagedCloudProfileStatus_val ManagedCloudProfileStatus_reach ManagedCloudProfileStatus_DeepCopyInto"
proof -
  have "deep_copy (opt_val (slice_val the_Conditions flat_val))
      (opt_reach (slice_reach the_Conditions no_reach))
      (opt_copy (slice_copy ConditionsCell the_Conditions assign))"
    by (intro strings_deep_copy string_deep_copy deep_copies) simp_all
  from struct_deep_copy [OF this, where fields = r_st_Conditions and build = "ManagedCloudProfileStatus_value" and
    upd = "\<lambda>x r. r\<lparr>r_st_Conditions := x\<rparr>"]
  show ?thesis
    by (simp add: ManagedCloudProfileStatus_val_def [abs_def] ManagedCloudProfileStatus_reach_def [abs_def] ManagedCloudProfileStatus_DeepCopyInto_def [abs_def]
        ManagedCloudProfileStatus_value_def copy_unfold)
qed

definition ManagedCloudProfileStatus_DeepCopy :: "('x cell, addr option) copier" where
  "ManagedCloudProfileStatus_DeepCopy = opt_copy (ptr_copy ManagedCloudProfileStatusCell the_ManagedCloudProfileStatus ManagedCloudProfileStatus_DeepCopyInto)"

definition ManagedCloudProfile_fields where
  "ManagedCloudProfile_fields r = (r_mcp_ObjectMeta r, r_mcp_Spec r, r_mcp_Status r)"

definition ManagedCloudProfile_value where
  "ManagedCloudProfile_value X r y =
     (case y of (ObjectMeta, Spec, Status) \<Rightarrow>
       (r_mcp_TypeMeta r,
        \<lparr>mcp_Name = fst (ex_meta X ObjectMeta), mcp_Generation = snd (ex_meta X ObjectMeta), mcp_Spec = Spec,
         mcp_Status = Status\<rparr>))"

definition ManagedCloudProfile_val :: "'x external \<Rightarrow> ('x cell, 'x ManagedCloudProfile_rep, opaque \<times> ManagedCloudProfile) reader" where
  "ManagedCloudProfile_val X m r = map_option (ManagedCloudProfile_value X r)
     (pair_val (ex_val X) (pair_val (ManagedCloudProfileSpec_val X) ManagedCloudProfileStatus_val) m (ManagedCloudProfile_fields r))"

definition ManagedCloudProfile_reach :: "'x external \<Rightarrow> ('x cell, 'x ManagedCloudProfile_rep) reacher" where
  "ManagedCloudProfile_reach X m r =
     pair_reach (ex_reach X) (pair_reach (ManagedCloudProfileSpec_reach X) ManagedCloudProfileStatus_reach) m (ManagedCloudProfile_fields r)"

definition ManagedCloudProfile_DeepCopyInto :: "'x external \<Rightarrow> ('x cell, 'x ManagedCloudProfile_rep) copier" where
  "ManagedCloudProfile_DeepCopyInto X m src = do {
     let out = src;
     let out = out\<lparr>r_mcp_TypeMeta := r_mcp_TypeMeta src\<rparr>;
     (p, m) \<leftarrow> ex_copy X m (r_mcp_ObjectMeta src);
     let out = out\<lparr>r_mcp_ObjectMeta := p\<rparr>;
     (p, m) \<leftarrow> ManagedCloudProfileSpec_DeepCopyInto X m (r_mcp_Spec src);
     let out = out\<lparr>r_mcp_Spec := p\<rparr>;
     (p, m) \<leftarrow> ManagedCloudProfileStatus_DeepCopyInto m (r_mcp_Status src);
     let out = out\<lparr>r_mcp_Status := p\<rparr>;
     Some (out, m)
   }"

lemma ManagedCloudProfile_deep_copy:
  assumes "deep_copy (ex_val X) (ex_reach X) (ex_copy X)"
  shows "deep_copy (ManagedCloudProfile_val X) (ManagedCloudProfile_reach X) (ManagedCloudProfile_DeepCopyInto X)"
proof -
  have "deep_copy (pair_val (ex_val X) (pair_val (ManagedCloudProfileSpec_val X) ManagedCloudProfileStatus_val))
      (pair_reach (ex_reach X) (pair_reach (ManagedCloudProfileSpec_reach X) ManagedCloudProfileStatus_reach))
      (pair_copy (ex_copy X) (pair_copy (ManagedCloudProfileSpec_DeepCopyInto X) ManagedCloudProfileStatus_DeepCopyInto))"
    by (intro strings_deep_copy string_deep_copy deep_copies ManagedCloudProfileSpec_deep_copy [OF assms] ManagedCloudProfileStatus_deep_copy assms)
  from struct_deep_copy [OF this, where fields = ManagedCloudProfile_fields and build = "ManagedCloudProfile_value X" and
    upd = "\<lambda>x r. r\<lparr>r_mcp_ObjectMeta := fst x, r_mcp_Spec := fst (snd x), r_mcp_Status := snd (snd x)\<rparr>"]
  show ?thesis
    by (simp add: ManagedCloudProfile_val_def [abs_def] ManagedCloudProfile_reach_def [abs_def] ManagedCloudProfile_DeepCopyInto_def [abs_def] ManagedCloudProfile_fields_def
        ManagedCloudProfile_value_def copy_unfold)
qed

definition ManagedCloudProfile_DeepCopy :: "'x external \<Rightarrow> ('x cell, addr option) copier" where
  "ManagedCloudProfile_DeepCopy X = opt_copy (ptr_copy ManagedCloudProfileCell the_ManagedCloudProfile (ManagedCloudProfile_DeepCopyInto X))"

definition ManagedCloudProfile_DeepCopyObject :: "'x external \<Rightarrow> ('x cell, addr option) copier" where
  "ManagedCloudProfile_DeepCopyObject X m src = do {
     (c, m) \<leftarrow> ManagedCloudProfile_DeepCopy X m src;
     if c \<noteq> None then Some (c, m) else Some (None, m)
   }"

definition ManagedCloudProfileList_fields where
  "ManagedCloudProfileList_fields r = (r_ml_ListMeta r, r_ml_Items r)"

definition ManagedCloudProfileList_value where
  "ManagedCloudProfileList_value X r y =
     (case y of (ListMeta, Items) \<Rightarrow>
       (r_ml_TypeMeta r, \<lparr>ml_meta = ListMeta, ml_Items = map snd (list_of Items)\<rparr>))"

definition ManagedCloudProfileList_val :: "'x external \<Rightarrow> ('x cell, 'x ManagedCloudProfileList_rep, opaque \<times> ManagedCloudProfileList) reader" where
  "ManagedCloudProfileList_val X m r = map_option (ManagedCloudProfileList_value X r)
     (pair_val (ex_val X) (opt_val (slice_val the_ManagedCloudProfiles (ManagedCloudProfile_val X))) m (ManagedCloudProfileList_fields r))"

definition ManagedCloudProfileList_reach :: "'x external \<Rightarrow> ('x cell, 'x ManagedCloudProfileList_rep) reacher" where
  "ManagedCloudProfileList_reach X m r =
     pair_reach (ex_reach X) (opt_reach (slice_reach the_ManagedCloudProfiles (ManagedCloudProfile_reach X))) m (ManagedCloudProfileList_fields r)"

definition ManagedCloudProfileList_DeepCopyInto :: "'x external \<Rightarrow> ('x cell, 'x ManagedCloudProfileList_rep) copier" where
  "ManagedCloudProfileList_DeepCopyInto X m src = do {
     let out = src;
     let out = out\<lparr>r_ml_TypeMeta := r_ml_TypeMeta src\<rparr>;
     (p, m) \<leftarrow> ex_copy X m (r_ml_ListMeta src);
     let out = out\<lparr>r_ml_ListMeta := p\<rparr>;
     (p, m) \<leftarrow> opt_copy (slice_copy ManagedCloudProfilesCell the_ManagedCloudProfiles (ManagedCloudProfile_DeepCopyInto X)) m (r_ml_Items src);
     let out = out\<lparr>r_ml_Items := p\<rparr>;
     Some (out, m)
   }"

lemma ManagedCloudProfileList_deep_copy:
  assumes "deep_copy (ex_val X) (ex_reach X) (ex_copy X)"
  shows "deep_copy (ManagedCloudProfileList_val X) (ManagedCloudProfileList_reach X) (ManagedCloudProfileList_DeepCopyInto X)"
proof -
  have "deep_copy (pair_val (ex_val X) (opt_val (slice_val the_ManagedCloudProfiles (ManagedCloudProfile_val X))))
      (pair_reach (ex_reach X) (opt_reach (slice_reach the_ManagedCloudProfiles (ManagedCloudProfile_reach X))))
      (pair_copy (ex_copy X) (opt_copy (slice_copy ManagedCloudProfilesCell the_ManagedCloudProfiles (ManagedCloudProfile_DeepCopyInto X))))"
    by (intro strings_deep_copy string_deep_copy deep_copies ManagedCloudProfile_deep_copy [OF assms] assms) simp_all
  from struct_deep_copy [OF this, where fields = ManagedCloudProfileList_fields and build = "ManagedCloudProfileList_value X" and
    upd = "\<lambda>x r. r\<lparr>r_ml_ListMeta := fst x, r_ml_Items := snd x\<rparr>"]
  show ?thesis
    by (simp add: ManagedCloudProfileList_val_def [abs_def] ManagedCloudProfileList_reach_def [abs_def] ManagedCloudProfileList_DeepCopyInto_def [abs_def] ManagedCloudProfileList_fields_def
        ManagedCloudProfileList_value_def copy_unfold)
qed

definition ManagedCloudProfileList_DeepCopy :: "'x external \<Rightarrow> ('x cell, addr option) copier" where
  "ManagedCloudProfileList_DeepCopy X = opt_copy (ptr_copy ManagedCloudProfileListCell the_ManagedCloudProfileList (ManagedCloudProfileList_DeepCopyInto X))"

definition ManagedCloudProfileList_DeepCopyObject :: "'x external \<Rightarrow> ('x cell, addr option) copier" where
  "ManagedCloudProfileList_DeepCopyObject X m src = do {
     (c, m) \<leftarrow> ManagedCloudProfileList_DeepCopy X m src;
     if c \<noteq> None then Some (c, m) else Some (None, m)
   }"

subsection \<open>The images of a profile\<close>

definition deepCopyMachineImages :: "'x external \<Rightarrow> ('x cell, (addr \<times> nat) option) copier" where
  "deepCopyMachineImages X = opt_copy (slice_copy ExternalsCell the_Externals (ex_copy X))"

subsection \<open>The contract, for every type\<close>

text \<open>
  The structs of the module itself need no assumption; a struct with parts of another module is a deep copy when
  those parts are.
\<close>

interpretation image_filter: deep_copy ImageFilter_val ImageFilter_reach ImageFilter_DeepCopyInto
  by (rule ImageFilter_deep_copy)

interpretation oci_config: deep_copy OCI_val OCI_reach OCI_DeepCopyInto
  by (rule OCI_deep_copy)

interpretation glance_config: deep_copy GlanceSource_val GlanceSource_reach GlanceSource_DeepCopyInto
  by (rule GlanceSource_deep_copy)

interpretation image_update: deep_copy MachineImageUpdate_val MachineImageUpdate_reach MachineImageUpdate_DeepCopyInto
  by (rule MachineImageUpdate_deep_copy)

interpretation kubernetes_update: deep_copy KubernetesVersionUpdateConfig_val KubernetesVersionUpdateConfig_reach
  KubernetesVersionUpdateConfig_DeepCopyInto
  by (rule KubernetesVersionUpdateConfig_deep_copy)

interpretation profile_status: deep_copy ManagedCloudProfileStatus_val ManagedCloudProfileStatus_reach
  ManagedCloudProfileStatus_DeepCopyInto
  by (rule ManagedCloudProfileStatus_deep_copy)

text \<open>A ManagedCloudProfile through a pointer.\<close>

abbreviation profile_val :: "'x external \<Rightarrow> ('x cell, addr, opaque \<times> ManagedCloudProfile) reader" where
  "profile_val X \<equiv> ptr_val the_ManagedCloudProfile (ManagedCloudProfile_val X)"

abbreviation profile_reach :: "'x external \<Rightarrow> ('x cell, addr) reacher" where
  "profile_reach X \<equiv> ptr_reach the_ManagedCloudProfile (ManagedCloudProfile_reach X)"

lemma profile_deep_copy:
  "external_copy X \<Longrightarrow> deep_copy (profile_val X) (profile_reach X)
     (ptr_copy ManagedCloudProfileCell the_ManagedCloudProfile (ManagedCloudProfile_DeepCopyInto X))"
  by (intro ptr_deep_copy ManagedCloudProfile_deep_copy) simp_all

lemma ManagedCloudProfile_DeepCopy_Some:
  assumes X: "external_copy X" and v: "profile_val X m p = Some v"
  obtains q m' where "ManagedCloudProfile_DeepCopy X m (Some p) = Some (Some q, m')" "extends m m'"
    "profile_val X m' q = Some v" "profile_val X m' p = Some v"
    "profile_reach X m' q \<subseteq> {me_next m..<me_next m'}"
    "ptr_copy ManagedCloudProfileCell the_ManagedCloudProfile (ManagedCloudProfile_DeepCopyInto X) m p = Some (q, m')"
proof -
  let ?c = "ptr_copy ManagedCloudProfileCell the_ManagedCloudProfile (ManagedCloudProfile_DeepCopyInto X)"
  obtain q m' where c: "?c m p = Some (q, m')" using deep_copy.copies [OF profile_deep_copy [OF X] v] by blast
  show thesis
    by (rule that [of q m']) (use c deep_copy.copy_Some [OF profile_deep_copy [OF X] v c] in \<open>simp_all add: ManagedCloudProfile_DeepCopy_def\<close>)
qed

text \<open>C11 DeepCopy_separates. A deep copy of a ManagedCloudProfile is one: it reads as the same profile, the original still reads as
  before, and afterwards no write through the copy changes what the original reads as, nor the other way round,
  whatever is written wherever the copy or the original reaches.\<close>

theorem DeepCopy_separates:
  assumes "external_copy X" "profile_val X m p = Some v"
  shows "\<exists>q m'. ManagedCloudProfile_DeepCopy X m (Some p) = Some (Some q, m') \<and>
    profile_val X m' q = Some v \<and> profile_val X m' p = Some v \<and>
    (\<forall>a c. a \<in> profile_reach X m' q \<longrightarrow> profile_val X (store a c m') p = Some v) \<and>
    (\<forall>a c. a \<in> profile_reach X m' p \<longrightarrow> profile_val X (store a c m') q = Some v)"
proof (rule ManagedCloudProfile_DeepCopy_Some [OF assms])
  fix q m'
  assume c: "ptr_copy ManagedCloudProfileCell the_ManagedCloudProfile (ManagedCloudProfile_DeepCopyInto X) m p = Some (q, m')"
    and r: "ManagedCloudProfile_DeepCopy X m (Some p) = Some (Some q, m')" "profile_val X m' q = Some v" "profile_val X m' p = Some v"
  note w = deep_copy.writes_apart [OF profile_deep_copy [OF assms(1)] assms(2) c]
  from r w show ?thesis by blast
qed

end
