(* ===== verification/StatusMemory.thy ===== *)
theory StatusMemory
  imports DeepCopyProfile Status
begin

section \<open>Patching the status, on the memory\<close>

text \<open>
  \<^verbatim>\<open>applyCondition\<close> writes into the array of conditions that it is given, and \<^verbatim>\<open>patchStatusAndCondition\<close> compares
  the status with the one before. Theory \<open>Status\<close> models both on values. Here they run on the
  memory, where the write is visible through every slice of the array, and are shown to compute the same:
  the deep copy that \<^verbatim>\<open>patchStatusAndCondition\<close> takes first does not see the write.
\<close>

definition applyCondition_mem ::
  "Condition list \<Rightarrow> time \<Rightarrow> 'x cell mem \<Rightarrow> (addr \<times> nat) option \<Rightarrow> Condition
   \<Rightarrow> ((addr \<times> nat) \<times> 'x cell mem) option" where
  "applyCondition_mem spare now m conditions cond = do {
     xs \<leftarrow> slice_elements the_Conditions m conditions;
     (conditions, idx, m) \<leftarrow>
       (case IndexFunc (\<lambda>c. co_Type c = co_Type cond) xs of
          Some i \<Rightarrow> map_option (\<lambda>s. (s, i, m)) conditions
        | None \<Rightarrow>
            map_option (\<lambda>(s, m). (s, length xs, m))
              (slice_append ConditionsCell the_Conditions spare zero_Condition m conditions));
     ys \<leftarrow> deref the_Conditions m (fst conditions);
     let lastTransition =
       (if co_Status (ys ! idx) \<noteq> co_Status cond then Some now else co_LastTransitionTime (ys ! idx));
     if idx < snd conditions \<and> snd conditions \<le> length ys
     then Some (conditions, store (fst conditions) (ConditionsCell (ys[idx :=
       \<lparr>co_Type = co_Type cond, co_Status = co_Status cond,
        co_ObservedGeneration = co_ObservedGeneration cond, co_LastTransitionTime = lastTransition,
        co_Reason = co_Reason cond, co_Message = co_Message cond\<rparr>])) m)
     else None
   }"

definition patchStatusAndCondition_mem ::
  "'x external \<Rightarrow> Condition list \<Rightarrow> status_client \<Rightarrow> 'x cell mem \<Rightarrow> addr \<Rightarrow> ReconcileStatus \<Rightarrow> Condition
   \<Rightarrow> ('x cell mem \<times> bool \<times> goerror option) option" where
  "patchStatusAndCondition_mem X spare C m mcp status cond = do {
     (original, m) \<leftarrow> ManagedCloudProfile_DeepCopy X m (Some mcp);
     r \<leftarrow> deref the_ManagedCloudProfile m mcp;
     let r = r\<lparr>r_mcp_Status := (r_mcp_Status r)\<lparr>r_st_Status := status\<rparr>\<rparr>;
     let m = store mcp (ManagedCloudProfileCell r) m;
     m \<leftarrow> (if co_Type cond \<noteq> [] then do {
            (conditions, m) \<leftarrow> applyCondition_mem spare (sc_now C) m (r_st_Conditions (r_mcp_Status r)) cond;
            let r = r\<lparr>r_mcp_Status := (r_mcp_Status r)\<lparr>r_st_Conditions := Some conditions\<rparr>\<rparr>;
            Some (store mcp (ManagedCloudProfileCell r) m)
          } else Some m);
     original \<leftarrow> original;
     (t, before) \<leftarrow> profile_val X m original;
     (t, after) \<leftarrow> profile_val X m mcp;
     if sc_DeepEqual C (mcp_Status before) (mcp_Status after) then Some (m, False, None)
     else Some (m, True, sc_Patch C before after)
   }"

subsection \<open>The write into the array\<close>

lemma applyCondition_mem_ok:
  assumes "slice_elements the_Conditions m sl = Some xs"
  shows "\<exists>s m'. applyCondition_mem spare now m sl cond = Some (s, m') \<and>
    elements the_Conditions m' s = Some (applyCondition now xs cond) \<and> writes_only (array_of sl) m m' \<and>
    (fst s \<in> array_of sl \<or> me_next m \<le> fst s)"
proof (cases "IndexFunc (\<lambda>c. co_Type c = co_Type cond) xs")
  case (Some i)
  then have i: "i < length xs" using IndexFunc_Some by fastforce
  with assms obtain p n ys where sl: "sl = Some (p, n)" "deref the_Conditions m p = Some ys" "n \<le> length ys" "xs = take n ys"
    by (cases sl) (auto simp: slice_elements_def elements_def bind_eq_Some_conv split: if_splits)
  have p: "p < me_next m" using sl(2) by (simp add: deref_def split: if_splits)
  show ?thesis
    using assms Some i sl p
    by (simp add: applyCondition_mem_def Let_def applyCondition_def elements_def deref_def take_update_swap array_of_def
        writes_only_store)
next
  case None
  obtain p ys m1 where a: "slice_append ConditionsCell the_Conditions spare zero_Condition m sl = Some ((p, Suc (length xs)), m1)"
    "deref the_Conditions m1 p = Some ys" "Suc (length xs) \<le> length ys" "take (Suc (length xs)) ys = xs @ [zero_Condition]"
    "writes_only (array_of sl) m m1" "p \<in> array_of sl \<or> me_next m \<le> p"
    using slice_append_ok [OF _ assms, of ConditionsCell spare zero_Condition] by auto
  have p: "p < me_next m1" using a(2) by (simp add: deref_def split: if_splits)
  have y: "ys ! length xs = zero_Condition"
  proof -
    have "ys ! length xs = take (Suc (length xs)) ys ! length xs" by simp
    then show ?thesis unfolding a(4) by simp
  qed
  let ?c = "\<lparr>co_Type = co_Type cond, co_Status = co_Status cond, co_ObservedGeneration = co_ObservedGeneration cond,
    co_LastTransitionTime = (if co_Status zero_Condition \<noteq> co_Status cond then Some now else co_LastTransitionTime zero_Condition),
    co_Reason = co_Reason cond, co_Message = co_Message cond\<rparr>"
  let ?m = "store p (ConditionsCell (ys[length xs := ?c])) m1"
  have "take (Suc (length xs)) (ys[length xs := ?c]) = xs @ [?c]"
    using a(4) by (simp add: take_update_swap)
  then have "elements the_Conditions ?m (p, Suc (length xs)) = Some (applyCondition now xs cond)"
    using None a(3) p by (simp add: elements_def deref_def applyCondition_def Let_def nth_append)
  moreover have "writes_only (array_of sl) m ?m"
    using a(5,6) by (auto simp: writes_only_def)
  moreover have "applyCondition_mem spare now m sl cond = Some ((p, Suc (length xs)), ?m)"
    using assms None a(1-3) y by (simp add: applyCondition_mem_def Let_def)
  ultimately show ?thesis using a(6) by auto
qed

subsection \<open>The patch\<close>

text \<open>What a profile in memory reads as, part by part.\<close>

definition rest_val where
  "rest_val X m r om spec \<longleftrightarrow>
     ex_val X m (r_mcp_ObjectMeta r) = Some om \<and> ManagedCloudProfileSpec_val X m (r_mcp_Spec r) = Some spec"

definition rest_reach :: "'x external \<Rightarrow> 'x cell mem \<Rightarrow> 'x ManagedCloudProfile_rep \<Rightarrow> addr set" where
  "rest_reach X m r = ex_reach X m (r_mcp_ObjectMeta r) \<union> ManagedCloudProfileSpec_reach X m (r_mcp_Spec r)"

definition profile_of where
  "profile_of X om spec status cs =
     \<lparr>mcp_Name = fst (ex_meta X om), mcp_Generation = snd (ex_meta X om), mcp_Spec = spec,
      mcp_Status = \<lparr>st_Status = status, st_Conditions = cs\<rparr>\<rparr>"

lemma conditions_val: 
  "map_option list_of (opt_val (slice_val the_Conditions flat_val) m sl) = slice_elements the_Conditions m sl"
  by (cases sl) (simp_all add: slice_elements_def slice_val_def list_val_flat option.map_comp comp_def option.map_ident)

lemma profile_val_iff:
  "profile_val X m p = Some (t, mcp) \<longleftrightarrow>
     (\<exists>r om spec cs. deref the_ManagedCloudProfile m p = Some r \<and> rest_val X m r om spec \<and>
        slice_elements the_Conditions m (r_st_Conditions (r_mcp_Status r)) = Some cs \<and>
        t = r_mcp_TypeMeta r \<and> mcp = profile_of X om spec (r_st_Status (r_mcp_Status r)) cs)"
  unfolding conditions_val [symmetric]
  by (auto simp: ptr_val_def ManagedCloudProfile_val_def ManagedCloudProfile_fields_def pair_val_def
      ManagedCloudProfileStatus_val_def ManagedCloudProfileStatus_value_def ManagedCloudProfile_value_def rest_val_def
      profile_of_def bind_eq_Some_conv)

text \<open>
  The profile does not reach its own struct or its conditions on another way, which holds of an object that was
  decoded from the API server's answer.
\<close>

definition owns_status :: "'x external \<Rightarrow> 'x cell mem \<Rightarrow> addr \<Rightarrow> bool" where
  "owns_status X m p \<longleftrightarrow>
     (\<forall>r. deref the_ManagedCloudProfile m p = Some r \<longrightarrow>
        rest_reach X m r \<inter> insert p (array_of (r_st_Conditions (r_mcp_Status r))) = {})"

lemma rest_val_kept:
  assumes X: "external_copy X" and "rest_val X m r om spec" "writes_only A m m'" "rest_reach X m r \<inter> A = {}"
  shows "rest_val X m' r om spec"
  using writes_only_val [OF X _ assms(3), of "r_mcp_ObjectMeta r" om]
    writes_only_val [OF ManagedCloudProfileSpec_deep_copy [OF X] _ assms(3), of "r_mcp_Spec r" spec] assms(2,4)
  by (auto simp: rest_val_def rest_reach_def)

lemma rest_cong:
  "r_mcp_ObjectMeta r' = r_mcp_ObjectMeta r \<Longrightarrow> r_mcp_Spec r' = r_mcp_Spec r \<Longrightarrow> rest_val X m r' = rest_val X m r"
  by (simp add: rest_val_def fun_eq_iff)

lemma conditions_apart:
  assumes "slice_elements the_Conditions m sl = Some cs" "deref the_ManagedCloudProfile m p = Some r"
  shows "p \<notin> array_of sl" "array_of sl \<subseteq> {..<me_next m}"
    "slice_elements the_Conditions (store p c m) sl = Some cs"
proof -
  have "p \<noteq> fst s \<and> fst s < me_next m \<and> elements the_Conditions (store p c m) s = Some cs" if "sl = Some s" for s
  proof -
    have s: "elements the_Conditions m s = Some cs" using assms(1) that by (simp add: slice_elements_def)
    have "me_cells m p = Some (ManagedCloudProfileCell r)"
      using assms(2) by (auto simp: deref_def bind_eq_Some_conv split: if_splits dest: the_ManagedCloudProfile_SomeD)
    then have "p \<noteq> fst s" using s by (auto simp: elements_def deref_def the_Conditions_def split: if_splits)
    with s elements_apart [of s p the_Conditions c m] elements_present [OF s] show ?thesis by simp
  qed
  with assms(1) show "p \<notin> array_of sl" "array_of sl \<subseteq> {..<me_next m}"
    "slice_elements the_Conditions (store p c m) sl = Some cs"
    by (cases sl; simp add: array_of_def slice_elements_def)+
qed

text \<open>The two stores and the write into the array, as one step.\<close>

lemma status_written:
  assumes r: "deref the_ManagedCloudProfile m p = Some r"
    and cs: "slice_elements the_Conditions m (r_st_Conditions (r_mcp_Status r)) = Some cs"
    and r1: "r1 = r\<lparr>r_mcp_Status := (r_mcp_Status r)\<lparr>r_st_Status := status\<rparr>\<rparr>"
  shows "\<exists>s m1 m2 r2. m1 = store p (ManagedCloudProfileCell r1) m \<and>
    applyCondition_mem spare now m1 (r_st_Conditions (r_mcp_Status r1)) cond = Some (s, m2) \<and>
    r2 = r1\<lparr>r_mcp_Status := (r_mcp_Status r1)\<lparr>r_st_Conditions := Some s\<rparr>\<rparr> \<and>
    writes_only (insert p (array_of (r_st_Conditions (r_mcp_Status r)))) m (store p (ManagedCloudProfileCell r2) m2) \<and>
    deref the_ManagedCloudProfile (store p (ManagedCloudProfileCell r2) m2) p = Some r2 \<and>
    slice_elements the_Conditions (store p (ManagedCloudProfileCell r2) m2) (Some s) = Some (applyCondition now cs cond)"
proof -
  let ?sl = "r_st_Conditions (r_mcp_Status r)" and ?m1 = "store p (ManagedCloudProfileCell r1) m"
  have p: "p < me_next m" using r by (simp add: deref_def split: if_splits)
  note apart = conditions_apart [OF cs r]
  have sl: "r_st_Conditions (r_mcp_Status r1) = ?sl" using r1 by simp
  obtain s m2 where a: "applyCondition_mem spare now ?m1 ?sl cond = Some (s, m2)"
    "elements the_Conditions m2 s = Some (applyCondition now cs cond)" "writes_only (array_of ?sl) ?m1 m2"
    "fst s \<in> array_of ?sl \<or> me_next ?m1 \<le> fst s"
    using applyCondition_mem_ok [OF apart(3)] by blast
  define r2 where "r2 = r1\<lparr>r_mcp_Status := (r_mcp_Status r1)\<lparr>r_st_Conditions := Some s\<rparr>\<rparr>"
  let ?m3 = "store p (ManagedCloudProfileCell r2) m2"
  have "fst s \<noteq> p" using a(4) apart(1) p by auto
  then have "slice_elements the_Conditions ?m3 (Some s) = Some (applyCondition now cs cond)"
    using a(2) by (simp add: slice_elements_def elements_apart)
  moreover have "p < me_next m2" using a(3) p by (simp add: writes_only_def)
  then have "deref the_ManagedCloudProfile ?m3 p = Some r2" by (rule deref_store) simp
  moreover have "writes_only (insert p (array_of ?sl)) m ?m3" using a(3) by (auto simp: writes_only_def)
  ultimately show ?thesis using a(1) r2_def sl by metis
qed

text \<open>The profile after its status was written, and the copy of it that was taken before.\<close>

lemma profile_written:
  assumes X: "external_copy X" and rest: "rest_val X m r om spec" "rest_reach X m r \<inter> A = {}"
    and w: "writes_only A m m'" and r': "deref the_ManagedCloudProfile m' p = Some r'"
    and fields: "r_mcp_TypeMeta r' = r_mcp_TypeMeta r" "r_mcp_ObjectMeta r' = r_mcp_ObjectMeta r" "r_mcp_Spec r' = r_mcp_Spec r"
    and cs: "slice_elements the_Conditions m' (r_st_Conditions (r_mcp_Status r')) = Some cs"
  shows "profile_val X m' p = Some (r_mcp_TypeMeta r, profile_of X om spec (r_st_Status (r_mcp_Status r')) cs)"
  unfolding profile_val_iff using rest_val_kept [OF X rest(1) w rest(2)] r' fields cs by (auto simp: rest_val_def)

lemma copy_taken:
  assumes X: "external_copy X" and v: "profile_val X m p = Some (t, mcp)" and own: "owns_status X m p"
  obtains q m1 r om spec cs where "ManagedCloudProfile_DeepCopy X m (Some p) = Some (Some q, m1)"
    "deref the_ManagedCloudProfile m1 p = Some r" "t = r_mcp_TypeMeta r"
    "slice_elements the_Conditions m1 (r_st_Conditions (r_mcp_Status r)) = Some cs"
    "mcp = profile_of X om spec (r_st_Status (r_mcp_Status r)) cs"
    "rest_val X m1 r om spec" "rest_reach X m1 r \<inter> insert p (array_of (r_st_Conditions (r_mcp_Status r))) = {}"
    "\<And>m'. writes_only (insert p (array_of (r_st_Conditions (r_mcp_Status r)))) m1 m' \<Longrightarrow> profile_val X m' q = Some (t, mcp)"
proof (rule ManagedCloudProfile_DeepCopy_Some [OF X v])
  fix q m1
  assume c: "ManagedCloudProfile_DeepCopy X m (Some p) = Some (Some q, m1)" "extends m m1"
    "profile_val X m1 q = Some (t, mcp)" "profile_reach X m1 q \<subseteq> {me_next m..<me_next m1}"
  obtain r om spec cs where r: "deref the_ManagedCloudProfile m p = Some r" "rest_val X m r om spec"
    "slice_elements the_Conditions m (r_st_Conditions (r_mcp_Status r)) = Some cs" "t = r_mcp_TypeMeta r"
    "mcp = profile_of X om spec (r_st_Status (r_mcp_Status r)) cs"
    using v unfolding profile_val_iff by blast
  let ?A = "insert p (array_of (r_st_Conditions (r_mcp_Status r)))"
  have p: "p < me_next m" by (rule deref_present [OF r(1)])
  have m1: "writes_only {} m m1" using c(2) by (simp add: writes_only_def extends_def)
  show thesis
  proof (rule that [OF c(1) _ r(4) _ r(5)])
    show "deref the_ManagedCloudProfile m1 p = Some r"
      using deref_local [OF r(1), of m1] c(2) p by (simp add: extends_def)
    show "slice_elements the_Conditions m1 (r_st_Conditions (r_mcp_Status r)) = Some cs"
      by (rule slice_elements_kept [OF r(3) m1]) simp
    show "rest_val X m1 r om spec" by (rule rest_val_kept [OF X r(2) m1]) simp
    have "rest_reach X m1 r = rest_reach X m r"
      using r(2) deep_copy.val_extends(2) [OF X _ c(2)]
        deep_copy.val_extends(2) [OF ManagedCloudProfileSpec_deep_copy [OF X] _ c(2)]
      by (auto simp: rest_val_def rest_reach_def)
    with own r(1) show "rest_reach X m1 r \<inter> ?A = {}" by (simp add: owns_status_def)
    have "profile_reach X m1 q \<inter> ?A = {}"
      using c(4) p conditions_apart(2) [OF r(3,1)] by fastforce
    then show "profile_val X m' q = Some (t, mcp)" if "writes_only ?A m1 m'" for m'
      using writes_only_val [OF profile_deep_copy [OF X] c(3) that] by blast
  qed
qed

lemma patch_on_memory:
  fixes X :: "'x external"
  assumes X: "external_copy X" and v: "profile_val X m p = Some (t, mcp)" and own: "owns_status X m p"
    and P: "patchStatusAndCondition C mcp status cond = (mcp', issued, err)"
  shows "\<exists>m'. patchStatusAndCondition_mem X spare C m p status cond = Some (m', issued, err) \<and>
    profile_val X m' p = Some (t, mcp')"
proof (rule copy_taken [OF X v own])
  fix q m1 om spec cs and r :: "'x ManagedCloudProfile_rep"
  let ?A = "insert p (array_of (r_st_Conditions (r_mcp_Status r)))" and ?new = "profile_of X om spec status"
  assume c: "ManagedCloudProfile_DeepCopy X m (Some p) = Some (Some q, m1)"
    and r: "deref the_ManagedCloudProfile m1 p = Some r" "t = r_mcp_TypeMeta r"
    and cs: "slice_elements the_Conditions m1 (r_st_Conditions (r_mcp_Status r)) = Some cs"
    and mcp: "mcp = profile_of X om spec (r_st_Status (r_mcp_Status r)) cs"
    and rest: "rest_val X m1 r om spec" "rest_reach X m1 r \<inter> ?A = {}"
    and kept: "\<And>m'. writes_only ?A m1 m' \<Longrightarrow> profile_val X m' q = Some (t, mcp)"
  define r1 where "r1 = r\<lparr>r_mcp_Status := (r_mcp_Status r)\<lparr>r_st_Status := status\<rparr>\<rparr>"
  show ?thesis
  proof (cases "co_Type cond = []")
    case True
    let ?m2 = "store p (ManagedCloudProfileCell r1) m1"
    have w: "writes_only ?A m1 ?m2" by (rule writes_only_store) simp
    have "deref the_ManagedCloudProfile ?m2 p = Some r1"
      by (rule deref_store) (use deref_present [OF r(1)] in simp_all)
    with profile_written [OF X rest w this] conditions_apart(3) [OF cs r(1)] r(2)
    have "profile_val X ?m2 p = Some (t, ?new cs)" by (simp add: r1_def)
    then show ?thesis
      using True P c r(1) mcp kept [OF w]
      by (auto simp: patchStatusAndCondition_mem_def patchStatusAndCondition_def Let_def r1_def [symmetric] profile_of_def)
  next
    case False
    obtain s m2 m3 r2 where s: "m2 = store p (ManagedCloudProfileCell r1) m1"
      "applyCondition_mem spare (sc_now C) m2 (r_st_Conditions (r_mcp_Status r1)) cond = Some (s, m3)"
      "r2 = r1\<lparr>r_mcp_Status := (r_mcp_Status r1)\<lparr>r_st_Conditions := Some s\<rparr>\<rparr>"
      "writes_only ?A m1 (store p (ManagedCloudProfileCell r2) m3)"
      "deref the_ManagedCloudProfile (store p (ManagedCloudProfileCell r2) m3) p = Some r2"
      "slice_elements the_Conditions (store p (ManagedCloudProfileCell r2) m3) (Some s) =
         Some (applyCondition (sc_now C) cs cond)"
      using status_written [OF r(1) cs r1_def, of spare "sc_now C" cond] by blast
    let ?m4 = "store p (ManagedCloudProfileCell r2) m3" and ?after = "?new (applyCondition (sc_now C) cs cond)"
    have "profile_val X ?m4 p = Some (t, ?after)"
      using profile_written [OF X rest s(4,5)] s(3,6) r(2) by (simp add: r1_def)
    moreover from this kept [OF s(4)] have "patchStatusAndCondition_mem X spare C m p status cond =
        (if sc_DeepEqual C (mcp_Status mcp) (mcp_Status ?after) then Some (?m4, False, None)
         else Some (?m4, True, sc_Patch C mcp ?after))"
      using False c r(1) s(1,2) unfolding s(3) r1_def by (simp add: patchStatusAndCondition_mem_def Let_def)
    moreover have "patchStatusAndCondition C mcp status cond =
        (?after, \<not> sc_DeepEqual C (mcp_Status mcp) (mcp_Status ?after),
         if sc_DeepEqual C (mcp_Status mcp) (mcp_Status ?after) then None else sc_Patch C mcp ?after)"
      using False by (simp add: patchStatusAndCondition_def Let_def mcp profile_of_def)
    ultimately show ?thesis using P by auto
  qed
qed

text \<open>C10 patch_refines. Patching the status in memory does what patching it on values does: the profile then reads
  as the patched one, a request is issued in the same cases, between the same two profiles, and gives the same error.
  So the comparison sees the status as it was, although the conditions were written in place.\<close>

theorem patch_refines:
  assumes "external_copy X" "profile_val X m p = Some (t, mcp)" "owns_status X m p"
    "patchStatusAndCondition C mcp status cond = (mcp', issued, err)"
  shows "\<exists>m'. patchStatusAndCondition_mem X spare C m p status cond = Some (m', issued, err) \<and>
    profile_val X m' p = Some (t, mcp')"
  by (rule patch_on_memory [OF assms])

end
