(* ===== verification/ImageMemory.thy ===== *)
theory ImageMemory
  imports Memory ImageUpdaterProps "HOL-Library.Monad_Syntax"
begin

section \<open>Applying images, on the memory\<close>

text \<open>
  \<^verbatim>\<open>Apply\<close> clones the slice of machine images it is given, but not the versions that the images hold: it
  writes into the arrays of the caller, as far as they have the version or spare room, and into new arrays after
  that. Theory \<open>ImageUpdater\<close> models it on values. Here it runs on the memory, and is shown to return
  the same, also when it is run again on its result as the reconciler does for the next update; and what the
  caller finds afterwards in the images it passed is stated. The fields of a version are values:
  \<^verbatim>\<open>Apply\<close> replaces them, and where it appends to architectures or flavors, it writes behind the slices that others
  hold, if at all.
\<close>

record MachineImage_rep =
  r_mi_Name :: string
  r_mi_Versions :: "(addr \<times> nat) option"
  r_mi_other :: opaque

datatype image_cell = VersionsCell "MachineImageVersion list" | ImagesCell "MachineImage_rep list"

fun the_Versions where
  "the_Versions (VersionsCell vs) = Some vs"
| "the_Versions (ImagesCell imgs) = None"

fun the_Images where
  "the_Images (ImagesCell imgs) = Some imgs"
| "the_Images (VersionsCell vs) = None"

definition image_val :: "image_cell mem \<Rightarrow> MachineImage_rep \<Rightarrow> MachineImage option" where
  "image_val m r =
     map_option (\<lambda>vs. \<lparr>mi_Name = r_mi_Name r, mi_Versions = vs, mi_other = r_mi_other r\<rparr>)
       (slice_elements the_Versions m (r_mi_Versions r))"

definition images_val :: "image_cell mem \<Rightarrow> (addr \<times> nat) option \<Rightarrow> MachineImage list option" where
  "images_val m sl = Option.bind (slice_elements the_Images m sl) (list_val image_val m)"

subsection \<open>Apply\<close>

text \<open>
  The state of the loop: the memory, the slice \<^verbatim>\<open>image.Versions\<close>, the position map. \<open>spare n\<close> is the room that
  the runtime adds when it makes a new array for \<open>n\<close> elements.
\<close>

type_synonym versions_mem = "image_cell mem \<times> (addr \<times> nat) option \<times> (string, nat) gomap"

definition write_version ::
  "nat \<Rightarrow> (MachineImageVersion \<Rightarrow> MachineImageVersion) \<Rightarrow> image_cell mem \<Rightarrow> (addr \<times> nat) option \<Rightarrow> image_cell mem option" where
  "write_version idx f m sl = do {
     (p, n) \<leftarrow> sl;
     vs \<leftarrow> deref the_Versions m p;
     if idx < n \<and> n \<le> length vs then Some (store p (VersionsCell (vs[idx := f (vs ! idx)])) m) else None
   }"

definition append_version ::
  "(nat \<Rightarrow> MachineImageVersion list) \<Rightarrow> string \<Rightarrow> MachineImageVersion \<Rightarrow> versions_mem \<Rightarrow> versions_mem option" where
  "append_version spare key v st =
     (case st of (m, versions, existingVersions) \<Rightarrow> do {
        (s, m) \<leftarrow> slice_append VersionsCell the_Versions (spare (case versions of None \<Rightarrow> 1 | Some (p, n) \<Rightarrow> Suc n)) v m versions;
        Some (m, Some s, map_put key (snd s - 1) existingVersions)
      })"

definition upsertLegacyVersion_mem ::
  "(nat \<Rightarrow> MachineImageVersion list) \<Rightarrow> 'v semver \<Rightarrow> ImageUpdater \<Rightarrow> versions_mem \<Rightarrow> SourceImage \<Rightarrow> versions_mem option" where
  "upsertLegacyVersion_mem spare L iu st src =
     (case st of (m, versions, existingVersions) \<Rightarrow>
       (case map_of existingVersions (si_Version src) of
          Some idx \<Rightarrow>
            map_option (\<lambda>m. (m, versions, existingVersions)) (write_version idx (legacy_update iu src) m versions)
        | None \<Rightarrow>
            (case sv_Parse L (si_Version src) of
               Inl parseErr \<Rightarrow> Some st
             | Inr _ \<Rightarrow> append_version spare (si_Version src) (legacy_new iu src) st)))"

definition upsertCleanVersion_mem ::
  "(nat \<Rightarrow> MachineImageVersion list) \<Rightarrow> ImageUpdater \<Rightarrow> versions_mem \<Rightarrow> SourceImage \<Rightarrow> versions_mem option" where
  "upsertCleanVersion_mem spare iu st src =
     (case st of (m, versions, existingVersions) \<Rightarrow>
       (case map_of existingVersions (si_CleanVersion src) of
          Some idx \<Rightarrow>
            map_option (\<lambda>m. (m, versions, existingVersions)) (write_version idx (clean_update iu src) m versions)
        | None \<Rightarrow> append_version spare (si_CleanVersion src) (clean_new iu src) st))"

definition upsert_source_mem ::
  "(nat \<Rightarrow> MachineImageVersion list) \<Rightarrow> 'v semver \<Rightarrow> ImageUpdater \<Rightarrow> versions_mem \<Rightarrow> SourceImage \<Rightarrow> versions_mem option" where
  "upsert_source_mem spare L iu st src =
     (case upsertLegacyVersion_mem spare L iu st src of
        None \<Rightarrow> None
      | Some st' \<Rightarrow>
          if iu_EnableCapabilities iu \<and> si_CleanVersion src \<noteq> []
          then upsertCleanVersion_mem spare iu st' src else Some st')"

definition slices_Clone ::
  "('a list \<Rightarrow> 'c) \<Rightarrow> ('c \<Rightarrow> 'a list option) \<Rightarrow> 'a list \<Rightarrow> 'c mem \<Rightarrow> (addr \<times> nat) option
   \<Rightarrow> ((addr \<times> nat) option \<times> 'c mem) option" where
  "slices_Clone mk dest spare m sl =
     (case sl of
        None \<Rightarrow> Some (None, m)
      | Some s \<Rightarrow> do {
          xs \<leftarrow> elements dest m s;
          let (q, m) = alloc (mk (xs @ spare)) m;
          Some (Some (q, length xs), m)
        })"

definition new_image :: "string \<Rightarrow> MachineImage_rep" where
  "new_image name = \<lparr>r_mi_Name = name, r_mi_Versions = None, r_mi_other = []\<rparr>"

text \<open>
  \<^verbatim>\<open>slices.Clone\<close>, the search for the image, and its appending: the slice \<^verbatim>\<open>machineImages\<close>, the index, the memory.
\<close>

definition locate_image_mem ::
  "MachineImage_rep list \<Rightarrow> string \<Rightarrow> image_cell mem \<Rightarrow> (addr \<times> nat) option
   \<Rightarrow> ((addr \<times> nat) \<times> nat \<times> image_cell mem) option" where
  "locate_image_mem spare_images name m baseImages = do {
     (machineImages, m) \<leftarrow> slices_Clone ImagesCell the_Images spare_images m baseImages;
     imgs \<leftarrow> slice_elements the_Images m machineImages;
     (case IndexFunc (\<lambda>img. r_mi_Name img = name) imgs of
        Some i \<Rightarrow> map_option (\<lambda>s. (s, i, m)) machineImages
      | None \<Rightarrow>
          map_option (\<lambda>(s, m). (s, length imgs, m))
            (slice_append ImagesCell the_Images spare_images (new_image name) m machineImages))
   }"

definition update_images_mem ::
  "(nat \<Rightarrow> MachineImageVersion list) \<Rightarrow> MachineImage_rep list \<Rightarrow> 'v semver \<Rightarrow> ImageUpdater \<Rightarrow> image_cell mem
   \<Rightarrow> (addr \<times> nat) option \<Rightarrow> SourceImage list \<Rightarrow> ((addr \<times> nat) \<times> image_cell mem) option" where
  "update_images_mem spare spare_images L iu m baseImages srcs = do {
     ((q, n), imageIndex, m) \<leftarrow> locate_image_mem spare_images (iu_ImageName iu) m baseImages;
     imgs \<leftarrow> deref the_Images m q;
     let image = imgs ! imageIndex;
     versions \<leftarrow> slice_elements the_Versions m (r_mi_Versions image);
     (m, versions, existingVersions) \<leftarrow>
       fold_opt (upsert_source_mem spare L iu) (m, r_mi_Versions image, index_by mv_Version versions) srcs;
     Some ((q, n), store q (ImagesCell (imgs[imageIndex := image\<lparr>r_mi_Versions := versions\<rparr>])) m)
   }"

definition Apply_mem ::
  "(nat \<Rightarrow> MachineImageVersion list) \<Rightarrow> MachineImage_rep list \<Rightarrow> 'v semver \<Rightarrow> ImageUpdater \<Rightarrow> CapabilityDefinition list
   \<Rightarrow> image_cell mem \<Rightarrow> (addr \<times> nat) option \<Rightarrow> RawExtension option \<Rightarrow> SourceImage list
   \<Rightarrow> ((addr \<times> nat) option \<times> RawExtension option \<times> image_cell mem) outcome" where
  "Apply_mem spare spare_images L iu capabilities m baseImages baseProviderConfig sourceImages =
     (let srcs = filter_sources capabilities sourceImages
      in case update_images_mem spare spare_images L iu m baseImages srcs of
           None \<Rightarrow> Panic
         | Some (machineImages, m) \<Rightarrow>
             (case iu_Provider iu of
                None \<Rightarrow> Ok (Some machineImages, baseProviderConfig, m)
              | Some configure \<Rightarrow>
                  bindO (wrapO ''failed to invoke provider: %w'' [] (configure baseProviderConfig srcs))
                    (\<lambda>providerConfig. Ok (Some machineImages, providerConfig, m))))"


subsection \<open>The loop\<close>

text \<open>
  The loop on the memory keeps up with the loop on values. It writes into the array that it started with and into
  new ones; any slice \<open>h\<close> over the old array still reads the versions that it read, in what they are called.
\<close>

definition names_kept :: "(addr \<times> nat) option \<Rightarrow> string list \<Rightarrow> image_cell mem \<Rightarrow> (addr \<times> nat) option \<Rightarrow> bool" where
  "names_kept h ks m sl \<longleftrightarrow>
     (\<exists>ws. slice_elements the_Versions m h = Some ws \<and> map mv_Version ws = ks) \<and>
     (\<forall>p n n'. h = Some (p, n) \<longrightarrow> sl = Some (p, n') \<longrightarrow> n \<le> n')"

definition versions_rel where
  "versions_rel sl0 m0 h ks st vst \<longleftrightarrow>
     (case st of (m, sl, existingVersions) \<Rightarrow>
        slice_elements the_Versions m sl = Some (fst vst) \<and> snd vst = existingVersions \<and>
        writes_only (array_of sl0) m0 m \<and> array_of sl \<subseteq> array_of sl0 \<union> {me_next m0..} \<and> names_kept h ks m sl)"

lemma slice_elements_Some:
  "slice_elements dest m (Some (p, n)) = Some xs \<longleftrightarrow>
     (\<exists>ys. deref dest m p = Some ys \<and> n \<le> length ys \<and> xs = take n ys)"
  by (auto simp: slice_elements_def elements_def bind_eq_Some_conv)

lemma writes_only_into:
  assumes "writes_only A m0 m" "B \<subseteq> A \<union> {me_next m0..}" "writes_only B m m'"
  shows "writes_only A m0 m'"
proof -
  have "me_cells m' p = me_cells m0 p" if "p < me_next m0" "p \<notin> A" for p
  proof -
    have "p < me_next m" "p \<notin> B" using assms(1,2) that by (auto simp: writes_only_def)
    with assms(1,3) that show ?thesis by (simp add: writes_only_def)
  qed
  with assms show ?thesis by (auto simp: writes_only_def)
qed

lemma write_version_ok:
  assumes vs: "slice_elements the_Versions m sl = Some vs" and f: "modify_at idx f vs = Some vs'"
    and key: "\<And>v. mv_Version (f v) = mv_Version v" and kept: "names_kept h ks m sl"
  shows "\<exists>m'. write_version idx f m sl = Some m' \<and> slice_elements the_Versions m' sl = Some vs' \<and>
    writes_only (array_of sl) m m' \<and> names_kept h ks m' sl"
proof -
  have i: "idx < length vs" "vs' = vs[idx := f (vs ! idx)]"
    using f by (simp_all add: modify_at_def split: if_splits)
  then obtain p n where sl: "sl = Some (p, n)" using vs by (cases sl) (auto simp: slice_elements_def)
  then obtain ys where ys: "deref the_Versions m p = Some ys" "n \<le> length ys" "vs = take n ys"
    using vs by (auto simp: slice_elements_Some)
  let ?ys = "ys[idx := f (ys ! idx)]"
  let ?m = "store p (VersionsCell ?ys) m"
  have p: "p < me_next m" by (rule deref_present [OF ys(1)])
  then have d: "deref the_Versions ?m p = Some ?ys" by (rule deref_store) simp
  have n: "idx < n" using i ys by simp
  have "write_version idx f m sl = Some ?m" using sl ys n by (simp add: write_version_def)
  moreover have "slice_elements the_Versions ?m sl = Some vs'"
    using sl d ys i n by (simp add: slice_elements_Some take_update_swap)
  moreover have "writes_only (array_of sl) m ?m" using sl by (simp add: writes_only_store array_of_def)
  moreover have "names_kept h ks ?m sl"
  proof (cases "\<exists>k. h = Some (p, k)")
    case True
    then obtain k where h: "h = Some (p, k)" by blast
    then have "k \<le> length ys" "map mv_Version (take k ys) = ks"
      using kept ys(1) by (auto simp: names_kept_def slice_elements_Some)
    moreover have "map mv_Version ?ys = map mv_Version ys"
      using key by (simp add: map_update) (metis list_update_beyond list_update_id length_map nth_map not_le)
    then have "map mv_Version (take k ?ys) = map mv_Version (take k ys)" by (metis take_map)
    ultimately have "slice_elements the_Versions ?m h = Some (take k ?ys)" "map mv_Version (take k ?ys) = ks"
      using h d by (auto simp: slice_elements_Some)
    with kept show ?thesis by (auto simp: names_kept_def)
  next
    case False
    then have "array_of h \<inter> {p} = {}" by (cases h) (auto simp: array_of_def)
    moreover have "writes_only {p} m ?m" by (simp add: writes_only_store)
    ultimately have "slice_elements the_Versions ?m h = Some ws" if "slice_elements the_Versions m h = Some ws" for ws
      using slice_elements_kept [OF that] by blast
    with kept show ?thesis by (auto simp: names_kept_def)
  qed
  ultimately show ?thesis by blast
qed

lemma append_version_ok:
  assumes vs: "slice_elements the_Versions m sl = Some vs" and kept: "names_kept h ks m sl"
  shows "\<exists>m' sl'. append_version spare key v (m, sl, existingVersions) =
      Some (m', sl', map_put key (length vs) existingVersions) \<and>
    slice_elements the_Versions m' sl' = Some (vs @ [v]) \<and> writes_only (array_of sl) m m' \<and>
    array_of sl' \<subseteq> array_of sl \<union> {me_next m..} \<and> names_kept h ks m' sl'"
proof -
  let ?sp = "spare (case sl of None \<Rightarrow> 1 | Some (p, n) \<Rightarrow> Suc n)"
  obtain p ys m' where a: "slice_append VersionsCell the_Versions ?sp v m sl = Some ((p, Suc (length vs)), m')"
    "deref the_Versions m' p = Some ys" "Suc (length vs) \<le> length ys" "take (Suc (length vs)) ys = vs @ [v]"
    "writes_only (array_of sl) m m'" "p \<in> array_of sl \<or> me_next m \<le> p"
    using slice_append_ok [OF _ vs, of VersionsCell ?sp v] by auto
  have "names_kept h ks m' (Some (p, Suc (length vs)))"
  proof (cases "array_of h \<inter> array_of sl = {}")
    case True
    obtain ws where ws: "slice_elements the_Versions m h = Some ws" "map mv_Version ws = ks"
      using kept by (auto simp: names_kept_def)
    then have "slice_elements the_Versions m' h = Some ws" using slice_elements_kept a(5) True by blast
    moreover have "h \<noteq> Some (p, k)" for k
      using True a(6) ws(1) deref_present [of the_Versions m p]
      by (fastforce simp: array_of_def slice_elements_Some split: option.splits)
    ultimately show ?thesis using ws by (simp add: names_kept_def)
  next
    case False
    then obtain q k n where q: "h = Some (q, k)" "sl = Some (q, n)"
      by (cases h; cases sl) (auto simp: array_of_def)
    then have "n = length vs" "k \<le> length vs" using vs kept by (auto simp: slice_elements_Some names_kept_def)
    then obtain zs where zs: "deref the_Versions m q = Some zs" "n \<le> length zs" "map mv_Version (take k zs) = ks" "k \<le> n"
      using vs kept q by (auto simp: slice_elements_Some names_kept_def)
    have "\<exists>us. deref the_Versions m' q = Some us \<and> k \<le> length us \<and> map mv_Version (take k us) = ks"
    proof (cases "n < length zs")
      case True
      then have "m' = store q (VersionsCell (zs[n := v])) m"
        using a(1) q zs by (auto simp: slice_append_def)
      then show ?thesis
        using zs deref_store [of q m the_Versions] deref_present [OF zs(1)] by (auto simp: take_update_cancel)
    next
      case False
      then have "m' = snd (alloc (VersionsCell (zs @ v # ?sp)) m)"
        using a(1) q zs by (auto simp: slice_append_def split_beta)
      then show ?thesis using zs deref_present [OF zs(1)] by (simp add: deref_def)
    qed
    then show ?thesis using q \<open>k \<le> length vs\<close> by (auto simp: names_kept_def slice_elements_Some)
  qed
  moreover have "slice_elements the_Versions m' (Some (p, Suc (length vs))) = Some (vs @ [v])"
    using a by (simp add: slice_elements_Some)
  ultimately show ?thesis
    using a by (intro exI [of _ m'] exI [of _ "Some (p, Suc (length vs))"]) (auto simp: append_version_def array_of_def)
qed

lemma versions_rel_cases:
  assumes "versions_rel sl0 m0 h ks st vst"
  obtains m sl ex vs where "st = (m, sl, ex)" "vst = (vs, ex)" "slice_elements the_Versions m sl = Some vs"
    "writes_only (array_of sl0) m0 m" "array_of sl \<subseteq> array_of sl0 \<union> {me_next m0..}" "names_kept h ks m sl"
  using assms by (cases st; cases vst) (auto simp: versions_rel_def)

lemma versions_rel_write:
  assumes "versions_rel sl0 m0 h ks (m, sl, ex) (vs, ex)" "modify_at idx f vs = Some vs'"
    "\<And>v. mv_Version (f v) = mv_Version v"
  shows "\<exists>m'. write_version idx f m sl = Some m' \<and> versions_rel sl0 m0 h ks (m', sl, ex) (vs', ex)"
proof -
  have r: "slice_elements the_Versions m sl = Some vs" "writes_only (array_of sl0) m0 m"
    "array_of sl \<subseteq> array_of sl0 \<union> {me_next m0..}" "names_kept h ks m sl"
    using assms(1) by (auto simp: versions_rel_def)
  from write_version_ok [OF r(1) assms(2,3) r(4)] obtain m' where
    "write_version idx f m sl = Some m'" "slice_elements the_Versions m' sl = Some vs'"
    "writes_only (array_of sl) m m'" "names_kept h ks m' sl" by blast
  with r writes_only_into [OF r(2,3)] show ?thesis by (auto simp: versions_rel_def)
qed

lemma versions_rel_append:
  assumes "versions_rel sl0 m0 h ks (m, sl, ex) (vs, ex)"
  shows "\<exists>st'. append_version spare key v (m, sl, ex) = Some st' \<and>
    versions_rel sl0 m0 h ks st' (vs @ [v], map_put key (length vs) ex)"
proof -
  have r: "slice_elements the_Versions m sl = Some vs" "writes_only (array_of sl0) m0 m"
    "array_of sl \<subseteq> array_of sl0 \<union> {me_next m0..}" "names_kept h ks m sl"
    using assms by (auto simp: versions_rel_def)
  from append_version_ok [OF r(1,4)] obtain m' sl' where
    a: "append_version spare key v (m, sl, ex) = Some (m', sl', map_put key (length vs) ex)"
    "slice_elements the_Versions m' sl' = Some (vs @ [v])" "writes_only (array_of sl) m m'"
    "array_of sl' \<subseteq> array_of sl \<union> {me_next m..}" "names_kept h ks m' sl'" by blast
  have "array_of sl' \<subseteq> array_of sl0 \<union> {me_next m0..}"
    using a(4) r(2,3) by (fastforce simp: writes_only_def)
  with a r writes_only_into [OF r(2,3)] show ?thesis by (auto simp: versions_rel_def)
qed

lemma upsertLegacyVersion_rel:
  assumes rel: "versions_rel sl0 m0 h ks st vst" and vst': "upsertLegacyVersion L iu vst src = Some vst'"
  shows "\<exists>st'. upsertLegacyVersion_mem spare L iu st src = Some st' \<and> versions_rel sl0 m0 h ks st' vst'"
proof -
  obtain m sl ex vs where st: "st = (m, sl, ex)" "vst = (vs, ex)" using rel by (rule versions_rel_cases)
  show ?thesis
  proof (cases "map_of ex (si_Version src)")
    case (Some idx)
    then obtain vs' where "modify_at idx (legacy_update iu src) vs = Some vs'" "vst' = (vs', ex)"
      using vst' st by (auto simp: upsertLegacyVersion_def)
    with Some st show ?thesis
      using versions_rel_write [OF rel [unfolded st]] by (fastforce simp: upsertLegacyVersion_mem_def)
  next
    case None
    then show ?thesis
      using rel vst' st versions_rel_append [OF rel [unfolded st], of spare]
      by (auto simp: upsertLegacyVersion_def upsertLegacyVersion_mem_def split: sum.splits)
  qed
qed

lemma upsertCleanVersion_rel:
  assumes rel: "versions_rel sl0 m0 h ks st vst" and vst': "upsertCleanVersion iu vst src = Some vst'"
  shows "\<exists>st'. upsertCleanVersion_mem spare iu st src = Some st' \<and> versions_rel sl0 m0 h ks st' vst'"
proof -
  obtain m sl ex vs where st: "st = (m, sl, ex)" "vst = (vs, ex)" using rel by (rule versions_rel_cases)
  show ?thesis
  proof (cases "map_of ex (si_CleanVersion src)")
    case (Some idx)
    then obtain vs' where "modify_at idx (clean_update iu src) vs = Some vs'" "vst' = (vs', ex)"
      using vst' st by (auto simp: upsertCleanVersion_def)
    with Some st show ?thesis
      using versions_rel_write [OF rel [unfolded st]] by (fastforce simp: upsertCleanVersion_mem_def)
  next
    case None
    then show ?thesis
      using vst' st versions_rel_append [OF rel [unfolded st], of spare]
      by (auto simp: upsertCleanVersion_def upsertCleanVersion_mem_def)
  qed
qed

lemma upsert_source_rel:
  assumes rel: "versions_rel sl0 m0 h ks st vst" and vst': "upsert_source L iu vst src = Some vst'"
  shows "\<exists>st'. upsert_source_mem spare L iu st src = Some st' \<and> versions_rel sl0 m0 h ks st' vst'"
proof -
  obtain v1 where v1: "upsertLegacyVersion L iu vst src = Some v1"
    using vst' by (auto simp: upsert_source_def split: option.splits)
  from upsertLegacyVersion_rel [OF rel v1] obtain s1 where
    s1: "upsertLegacyVersion_mem spare L iu st src = Some s1" "versions_rel sl0 m0 h ks s1 v1" by blast
  show ?thesis
  proof (cases "iu_EnableCapabilities iu \<and> si_CleanVersion src \<noteq> []")
    case True
    then have "upsertCleanVersion iu v1 src = Some vst'" using v1 vst' by (simp add: upsert_source_def)
    from upsertCleanVersion_rel [OF s1(2) this] True s1(1) show ?thesis by (simp add: upsert_source_mem_def)
  next
    case False
    then have "vst' = v1" using v1 vst' by (auto simp: upsert_source_def)
    with False s1 show ?thesis by (intro exI [of _ s1]) (auto simp: upsert_source_mem_def)
  qed
qed

lemma fold_opt_refines:
  assumes step: "\<And>s t x t'. R s t \<Longrightarrow> g t x = Some t' \<Longrightarrow> \<exists>s'. f s x = Some s' \<and> R s' t'"
  shows "R s t \<Longrightarrow> fold_opt g t xs = Some t' \<Longrightarrow> \<exists>s'. fold_opt f s xs = Some s' \<and> R s' t'"
proof (induction xs arbitrary: s t)
  case (Cons x xs)
  then obtain t1 where t1: "g t x = Some t1" "fold_opt g t1 xs = Some t'" by (auto split: option.splits)
  with step [OF Cons.prems(1)] Cons.IH show ?case by fastforce
qed simp

text \<open>All iterations, from the slice of the image and the map of its versions.\<close>

lemma loop_on_memory:
  assumes "slice_elements the_Versions m sl = Some vs" "update_versions L iu srcs vs = Some vs'"
    and kept: "names_kept h ks m sl"
  shows "\<exists>m' sl' ex. fold_opt (upsert_source_mem spare L iu) (m, sl, index_by mv_Version vs) srcs = Some (m', sl', ex) \<and>
    slice_elements the_Versions m' sl' = Some vs' \<and> writes_only (array_of sl) m m' \<and>
    array_of sl' \<subseteq> array_of sl \<union> {me_next m..} \<and> names_kept h ks m' sl'"
proof -
  have rel: "versions_rel sl m h ks (m, sl, index_by mv_Version vs) (vs, index_by mv_Version vs)"
    using assms by (simp add: versions_rel_def writes_only_def)
  from assms(2) obtain ex where "fold_opt (upsert_source L iu) (vs, index_by mv_Version vs) srcs = Some (vs', ex)"
    by (auto simp: update_versions_def)
  moreover have "\<exists>s'. upsert_source_mem spare L iu s src = Some s' \<and> versions_rel sl m h ks s' t'"
    if "versions_rel sl m h ks s t" "upsert_source L iu t src = Some t'" for s t src t'
    using that by (rule upsert_source_rel)
  ultimately obtain st where st: "fold_opt (upsert_source_mem spare L iu) (m, sl, index_by mv_Version vs) srcs = Some st"
    "versions_rel sl m h ks st (vs', ex)"
    using fold_opt_refines [where R = "versions_rel sl m h ks", OF _ rel] by blast
  from st(2) show ?thesis
  proof (rule versions_rel_cases)
    fix m' sl' ex' vs1
    assume "st = (m', sl', ex')" "(vs', ex) = (vs1, ex')" "slice_elements the_Versions m' sl' = Some vs1"
      "writes_only (array_of sl) m m'" "array_of sl' \<subseteq> array_of sl \<union> {me_next m..}" "names_kept h ks m' sl'"
    with st(1) show ?thesis by blast
  qed
qed

subsection \<open>The images\<close>

text \<open>Different images have different arrays of versions.\<close>

definition arrays_apart :: "MachineImage_rep list \<Rightarrow> bool" where
  "arrays_apart = sorted_wrt (\<lambda>r r'. array_of (r_mi_Versions r) \<inter> array_of (r_mi_Versions r') = {})"

definition images_apart :: "image_cell mem \<Rightarrow> (addr \<times> nat) option \<Rightarrow> bool" where
  "images_apart m sl = (case slice_elements the_Images m sl of None \<Rightarrow> False | Some reps \<Rightarrow> arrays_apart reps)"

lemma arrays_apartD:
  "arrays_apart reps \<Longrightarrow> i < length reps \<Longrightarrow> j < length reps \<Longrightarrow> i \<noteq> j \<Longrightarrow>
    array_of (r_mi_Versions (reps ! i)) \<inter> array_of (r_mi_Versions (reps ! j)) = {}"
  unfolding arrays_apart_def
  using sorted_wrt_nth_less [where xs = reps and i = i and j = j] sorted_wrt_nth_less [where xs = reps and i = j and j = i]
  by (metis (mono_tags, lifting) inf_commute linorder_neqE_nat)

lemma arrays_apart_update:
  assumes "arrays_apart reps"
    "\<And>j. j < length reps \<Longrightarrow> j \<noteq> i \<Longrightarrow> array_of (r_mi_Versions (reps ! j)) \<inter> array_of (r_mi_Versions r) = {}"
  shows "arrays_apart (reps[i := r])"
  unfolding arrays_apart_def sorted_wrt_iff_nth_less
proof (intro allI impI)
  fix j k
  assume "j < k" "k < length (reps[i := r])"
  then have jk: "j < length reps" "k < length reps" "j \<noteq> k" by simp_all
  show "array_of (r_mi_Versions (reps[i := r] ! j)) \<inter> array_of (r_mi_Versions (reps[i := r] ! k)) = {}"
    using jk assms(2) [of j] assms(2) [of k] arrays_apartD [OF assms(1) jk]
    by (cases "j = i"; cases "k = i") (simp_all add: Int_commute)
qed

lemma image_val_iff:
  "image_val m r = Some img \<longleftrightarrow>
     slice_elements the_Versions m (r_mi_Versions r) = Some (mi_Versions img) \<and>
     r_mi_Name r = mi_Name img \<and> r_mi_other r = mi_other img"
  by (cases img) (simp add: image_val_def conj_ac)

lemma image_val_kept:
  "image_val m r = Some img \<Longrightarrow> writes_only A m m' \<Longrightarrow> array_of (r_mi_Versions r) \<inter> A = {} \<Longrightarrow>
    image_val m' r = Some img"
  unfolding image_val_iff using slice_elements_kept by blast

definition images_rel :: "image_cell mem \<Rightarrow> MachineImage_rep list \<Rightarrow> MachineImage list \<Rightarrow> bool" where
  "images_rel m = list_all2 (\<lambda>r img. image_val m r = Some img)"

lemma images_val_iff:
  "images_val m sl = Some imgs \<longleftrightarrow> (\<exists>reps. slice_elements the_Images m sl = Some reps \<and> images_rel m reps imgs)"
  by (auto simp: images_val_def images_rel_def bind_eq_Some_conv list_val_iff)

lemma images_rel_index:
  "images_rel m reps imgs \<Longrightarrow>
    IndexFunc (\<lambda>r. r_mi_Name r = name) reps = IndexFunc (\<lambda>i. mi_Name i = name) imgs"
  unfolding images_rel_def by (induction rule: list_all2_induct) (auto simp: image_val_iff)

lemma images_rel_nth: "images_rel m reps imgs \<Longrightarrow> i < length reps \<Longrightarrow> image_val m (reps ! i) = Some (imgs ! i)"
  by (auto simp: images_rel_def list_all2_conv_all_nth)

lemma images_rel_length: "images_rel m reps imgs \<Longrightarrow> length reps = length imgs"
  by (simp add: images_rel_def list_all2_lengthD)

lemma images_rel_kept:
  "images_rel m reps imgs \<Longrightarrow> writes_only A m m' \<Longrightarrow>
    (\<And>r. r \<in> set reps \<Longrightarrow> array_of (r_mi_Versions r) \<inter> A = {}) \<Longrightarrow> images_rel m' reps imgs"
  unfolding images_rel_def list_all2_conv_all_nth by (metis image_val_kept nth_mem)

lemma slices_Clone_ok:
  assumes mk: "\<And>xs. dest (mk xs) = Some xs" and xs: "slice_elements dest m sl = Some xs"
  shows "\<exists>sl' m'. slices_Clone mk dest spare m sl = Some (sl', m') \<and> slice_elements dest m' sl' = Some xs \<and>
    writes_only {} m m' \<and> array_of sl' \<subseteq> {me_next m..}"
proof (cases sl)
  case None
  with xs show ?thesis by (simp add: slices_Clone_def writes_only_def array_of_def slice_elements_def)
next
  case (Some s)
  with xs have "elements dest m s = Some xs" by (simp add: slice_elements_def)
  with Some mk show ?thesis
    by (simp add: slices_Clone_def alloc_def writes_only_def array_of_def slice_elements_def elements_def deref_def)
qed

lemma writes_only_mono: "writes_only A m m' \<Longrightarrow> A \<subseteq> B \<Longrightarrow> writes_only B m m'"
  by (auto simp: writes_only_def)

lemma new_image_val [simp]:
  "image_val m (new_image name) = Some \<lparr>mi_Name = name, mi_Versions = [], mi_other = []\<rparr>"
  by (simp add: image_val_iff new_image_def slice_elements_def)

lemma new_image_array [simp]: "array_of (r_mi_Versions (new_image name)) = {}"
  by (simp add: new_image_def array_of_def)

lemma images_rel_next:
  "images_rel m reps imgs \<Longrightarrow> r \<in> set reps \<Longrightarrow> array_of (r_mi_Versions r) \<subseteq> {..<me_next m}"
  unfolding images_rel_def in_set_conv_nth list_all2_conv_all_nth image_val_iff
  using slice_elements_array by blast

text \<open>
  The copy of the images, with the one that the updater writes: in an array of its own, the images as they were.
\<close>

lemma locate_on_memory:
  assumes base: "slice_elements the_Images m base = Some reps" and imgs: "images_rel m reps imgs"
    and apart: "arrays_apart reps" and loc: "locate_image name imgs = (imgs1, i)"
  shows "\<exists>q n m1 ys reps1. locate_image_mem spare_images name m base = Some ((q, n), i, m1) \<and>
    deref the_Images m1 q = Some ys \<and> n \<le> length ys \<and> reps1 = take n ys \<and> me_next m \<le> q \<and>
    writes_only {} m m1 \<and> images_rel m1 reps1 imgs1 \<and> arrays_apart reps1 \<and> i < n \<and>
    (\<forall>j<length reps. reps1 ! j = reps ! j)"
proof -
  obtain sl' m' where c: "slices_Clone ImagesCell the_Images spare_images m base = Some (sl', m')"
    "slice_elements the_Images m' sl' = Some reps" "writes_only {} m m'" "array_of sl' \<subseteq> {me_next m..}"
    using slices_Clone_ok [OF _ base, of ImagesCell spare_images] by auto
  have kept: "images_rel m' reps imgs" by (rule images_rel_kept [OF imgs c(3)]) simp
  note index = images_rel_index [OF imgs, of name]
  show ?thesis
  proof (cases "IndexFunc (\<lambda>i. mi_Name i = name) imgs")
    case (Some k)
    then have k: "imgs1 = imgs" "i = k" "k < length reps"
      using loc IndexFunc_Some [OF Some] images_rel_length [OF imgs] by (auto simp: locate_image_def)
    then obtain q n where q: "sl' = Some (q, n)" using c(2) by (cases sl') (auto simp: slice_elements_def)
    have "locate_image_mem spare_images name m base = Some ((q, n), i, m')"
      using c(1,2) q Some index k by (simp add: locate_image_mem_def)
    moreover obtain ys where "deref the_Images m' q = Some ys" "n \<le> length ys" "reps = take n ys"
      using c(2) q by (auto simp: slice_elements_Some)
    moreover have "me_next m \<le> q" using c(4) q by (simp add: array_of_def)
    ultimately show ?thesis using k c(3) kept apart by auto
  next
    case None
    then have i: "imgs1 = imgs @ [\<lparr>mi_Name = name, mi_Versions = [], mi_other = []\<rparr>]" "i = length reps"
      using loc images_rel_length [OF imgs] by (auto simp: locate_image_def)
    obtain p ys m1 where a:
      "slice_append ImagesCell the_Images spare_images (new_image name) m' sl' = Some ((p, Suc (length reps)), m1)"
      "deref the_Images m1 p = Some ys" "Suc (length reps) \<le> length ys"
      "take (Suc (length reps)) ys = reps @ [new_image name]" "writes_only (array_of sl') m' m1"
      "p \<in> array_of sl' \<or> me_next m' \<le> p"
      using slice_append_ok [OF _ c(2), of ImagesCell spare_images "new_image name"] by auto
    have w: "writes_only {} m m1" by (rule writes_only_into [OF c(3) _ a(5)]) (use c(4) in simp)
    have "me_next m \<le> p" using a(6) c(3,4) by (auto simp: writes_only_def)
    moreover have "images_rel m1 (reps @ [new_image name]) imgs1"
      using images_rel_kept [OF imgs w] i by (simp add: images_rel_def list_all2_appendI)
    moreover have "arrays_apart (reps @ [new_image name])"
      using apart by (simp add: arrays_apart_def sorted_wrt_append)
    moreover have "\<forall>j<length reps. ys ! j = reps ! j"
      using a(4) by (metis less_SucI nth_append nth_take)
    moreover have "locate_image_mem spare_images name m base = Some ((p, Suc (length reps)), i, m1)"
      using None i a(1) c index by (simp add: locate_image_mem_def)
    ultimately show ?thesis using i a(2-4) w by auto
  qed
qed

text \<open>
  What a caller finds in the images that it passed: the images and what their versions are called, and an image
  of another name as it was.
\<close>

definition versions_touched :: "string \<Rightarrow> MachineImage \<Rightarrow> MachineImage \<Rightarrow> bool" where
  "versions_touched name old new \<longleftrightarrow>
     mi_Name new = mi_Name old \<and> mi_other new = mi_other old \<and>
     map mv_Version (mi_Versions new) = map mv_Version (mi_Versions old) \<and> (mi_Name old \<noteq> name \<longrightarrow> new = old)"

lemma versions_touched_refl [simp]: "versions_touched name img img"
  by (simp add: versions_touched_def)

lemma versions_cell: "slice_elements the_Versions m sl = Some xs \<Longrightarrow> deref the_Images m q = Some ys \<Longrightarrow> q \<notin> array_of sl"
  by (auto simp: slice_elements_def array_of_def elements_def deref_def bind_eq_Some_conv
      split: option.splits if_splits elim!: the_Versions.elims the_Images.elims)

lemma image_val_store:
  assumes "image_val m r = Some img" "deref the_Images m q = Some ys"
  shows "image_val (store q c m) r = Some img"
proof (rule image_val_kept [OF assms(1)])
  show "writes_only {q} m (store q c m)" by (simp add: writes_only_store)
  show "array_of (r_mi_Versions r) \<inter> {q} = {}" using assms versions_cell by (auto simp: image_val_iff)
qed

lemma images_touched:
  assumes "length reps = length imgs"
    and other: "\<And>j. j < length imgs \<Longrightarrow> j \<noteq> i \<Longrightarrow> image_val m (reps ! j) = Some (imgs ! j)"
    and img: "i < length imgs \<Longrightarrow> image_val m (reps ! i) = Some ((imgs ! i)\<lparr>mi_Versions := ws\<rparr>) \<and>
      mi_Name (imgs ! i) = name \<and> map mv_Version ws = map mv_Version (mi_Versions (imgs ! i))"
  shows "\<exists>imgs'. images_rel m reps imgs' \<and> list_all2 (versions_touched name) imgs imgs'"
proof (intro exI conjI)
  let ?imgs = "imgs[i := (imgs ! i)\<lparr>mi_Versions := ws\<rparr>]"
  have "image_val m (reps ! j) = Some (?imgs ! j) \<and> versions_touched name (imgs ! j) (?imgs ! j)"
    if "j < length imgs" for j
    using that other [of j] img by (cases "j = i") (simp_all add: versions_touched_def)
  then show "images_rel m reps ?imgs" "list_all2 (versions_touched name) imgs ?imgs"
    using assms(1) by (simp_all add: images_rel_def list_all2_conv_all_nth)
qed

text \<open>The image that was updated, stored into the array of images.\<close>

lemma images_stored:
  assumes rel: "images_rel m1 reps imgs" and apart: "arrays_apart reps" and i: "i < length reps"
    and sl: "sl = r_mi_Versions (reps ! i)" and w: "writes_only (array_of sl) m1 m2"
    and vs: "slice_elements the_Versions m2 sl2 = Some vs" and sl2: "array_of sl2 \<subseteq> array_of sl \<union> {me_next m1..}"
    and q: "deref the_Images m2 q = Some ys" and r: "r = (reps ! i)\<lparr>r_mi_Versions := sl2\<rparr>"
  shows "images_rel (store q c m2) (reps[i := r]) (imgs[i := (imgs ! i)\<lparr>mi_Versions := vs\<rparr>])"
    "arrays_apart (reps[i := r])"
    "\<And>j. j < length reps \<Longrightarrow> j \<noteq> i \<Longrightarrow> image_val (store q c m2) (reps ! j) = Some (imgs ! j)"
proof -
  note apartD = arrays_apartD [OF apart _ i, folded sl]
  show other: "image_val (store q c m2) (reps ! j) = Some (imgs ! j)" if "j < length reps" "j \<noteq> i" for j
    using image_val_store [OF image_val_kept [OF images_rel_nth [OF rel that(1)] w apartD [OF that]] q] .
  have "image_val (store q c m2) r = Some ((imgs ! i)\<lparr>mi_Versions := vs\<rparr>)"
    by (rule image_val_store [OF _ q]) (use vs r images_rel_nth [OF rel i] in \<open>simp add: image_val_iff\<close>)
  with other i images_rel_length [OF rel]
  show "images_rel (store q c m2) (reps[i := r]) (imgs[i := (imgs ! i)\<lparr>mi_Versions := vs\<rparr>])"
    by (simp add: images_rel_def list_all2_conv_all_nth nth_list_update)
  show "arrays_apart (reps[i := r])"
  proof (rule arrays_apart_update [OF apart])
    fix j assume j: "j < length reps" "j \<noteq> i"
    have "array_of (r_mi_Versions (reps ! j)) \<subseteq> {..<me_next m1}"
      by (rule images_rel_next [OF rel]) (use j in simp)
    with apartD [OF j] sl2 r show "array_of (r_mi_Versions (reps ! j)) \<inter> array_of (r_mi_Versions r) = {}" by fastforce
  qed
qed

lemma update_images_on_memory:
  assumes base: "slice_elements the_Images m base = Some reps" and imgs: "images_rel m reps imgs"
    and apart: "arrays_apart reps" and loc: "locate_image (iu_ImageName iu) imgs = (imgs1, i)"
    and vs: "update_versions L iu srcs (mi_Versions (imgs1 ! i)) = Some vs"
  shows "\<exists>sl m' reps'. update_images_mem spare spare_images L iu m base srcs = Some (sl, m') \<and>
    slice_elements the_Images m' (Some sl) = Some reps' \<and>
    images_rel m' reps' (imgs1[i := (imgs1 ! i)\<lparr>mi_Versions := vs\<rparr>]) \<and> arrays_apart reps' \<and>
    slice_elements the_Images m' base = Some reps \<and>
    (\<exists>imgs'. images_rel m' reps imgs' \<and> list_all2 (versions_touched (iu_ImageName iu)) imgs imgs')"
proof -
  obtain q n m1 ys reps1 where l: "locate_image_mem spare_images (iu_ImageName iu) m base = Some ((q, n), i, m1)"
    "deref the_Images m1 q = Some ys" "n \<le> length ys" "reps1 = take n ys" "me_next m \<le> q"
    "writes_only {} m m1" "images_rel m1 reps1 imgs1" "arrays_apart reps1" "i < n"
    and old: "\<And>j. j < length reps \<Longrightarrow> reps1 ! j = reps ! j"
    using locate_on_memory [OF assms(1-4)] by blast
  let ?image = "ys ! i" and ?sl = "r_mi_Versions (ys ! i)"
  have n: "length reps1 = n" "i < length reps1" and image: "reps1 ! i = ?image" using l by simp_all
  have img: "slice_elements the_Versions m1 ?sl = Some (mi_Versions (imgs1 ! i))"
    "r_mi_Name ?image = mi_Name (imgs1 ! i)" "r_mi_other ?image = mi_other (imgs1 ! i)"
    using images_rel_nth [OF l(7) n(2)] image by (simp_all add: image_val_iff)
  have kept: "names_kept ?sl (map mv_Version (mi_Versions (imgs1 ! i))) m1 ?sl"
    using img(1) by (simp add: names_kept_def)
  obtain m2 sl2 ex where loop: "fold_opt (upsert_source_mem spare L iu)
      (m1, ?sl, index_by mv_Version (mi_Versions (imgs1 ! i))) srcs = Some (m2, sl2, ex)"
    "slice_elements the_Versions m2 sl2 = Some vs" "writes_only (array_of ?sl) m1 m2"
    "array_of sl2 \<subseteq> array_of ?sl \<union> {me_next m1..}"
    "names_kept ?sl (map mv_Version (mi_Versions (imgs1 ! i))) m2 sl2"
    using loop_on_memory [OF img(1) vs kept] by blast
  let ?r = "?image\<lparr>r_mi_Versions := sl2\<rparr>"
  let ?m = "store q (ImagesCell (ys[i := ?r])) m2"
  have upd: "update_images_mem spare spare_images L iu m base srcs = Some ((q, n), ?m)"
    using l(1,2) img(1) loop(1) by (simp add: update_images_mem_def)
  have q2: "deref the_Images m2 q = Some ys"
  proof (rule deref_local [OF l(2)])
    show "me_cells m2 q = me_cells m1 q" "q < me_next m2"
      using loop(3) deref_present [OF l(2)] versions_cell [OF img(1) l(2)] by (auto simp: writes_only_def)
  qed
  have res: "slice_elements the_Images ?m (Some (q, n)) = Some (reps1[i := ?r])"
    using deref_present [OF q2] l by (simp add: slice_elements_Some deref_store take_update_swap)
  have "?sl = r_mi_Versions (reps1 ! i)" "?r = (reps1 ! i)\<lparr>r_mi_Versions := sl2\<rparr>" using image by simp_all
  note stored = images_stored [OF l(7,8) n(2) this(1) loop(3,2,4) q2 this(2)]
  have "slice_elements the_Images ?m base = Some reps"
  proof -
    have b: "slice_elements the_Images m1 base = Some reps" using slice_elements_kept [OF base l(6)] by simp
    then have "array_of base \<inter> array_of ?sl = {}"
      using versions_cell [OF img(1)] by (cases base) (auto simp: array_of_def slice_elements_Some)
    with b loop(3) have "slice_elements the_Images m2 base = Some reps" by (rule slice_elements_kept)
    moreover have "writes_only {q} m2 ?m" by (simp add: writes_only_store)
    moreover have "array_of base \<inter> {q} = {}" using slice_elements_array [OF base] l(5) by auto
    ultimately show ?thesis by (rule slice_elements_kept)
  qed
  moreover have "\<exists>imgs'. images_rel ?m reps imgs' \<and> list_all2 (versions_touched (iu_ImageName iu)) imgs imgs'"
  proof -
    obtain ws where ws: "slice_elements the_Versions m2 ?sl = Some ws"
      "map mv_Version ws = map mv_Version (mi_Versions (imgs1 ! i))"
      using loop(5) by (auto simp: names_kept_def)
    have same: "imgs1 ! j = imgs ! j" "j < length imgs1" if "j < length imgs" for j
      using locate_image_cases [OF loc] that by (auto simp: nth_append)
    show ?thesis
    proof (rule images_touched [where i = i])
      show len: "length reps = length imgs" by (rule images_rel_length [OF imgs])
      show "image_val ?m (reps ! j) = Some (imgs ! j)" if "j < length imgs" "j \<noteq> i" for j
        using stored(3) [of j] old [of j] same [OF that(1)] that images_rel_length [OF l(7)] len by simp
      show "image_val ?m (reps ! i) = Some ((imgs ! i)\<lparr>mi_Versions := ws\<rparr>) \<and> mi_Name (imgs ! i) = iu_ImageName iu \<and>
        map mv_Version ws = map mv_Version (mi_Versions (imgs ! i))" if i: "i < length imgs"
      proof -
        have "image_val ?m ?image = Some ((imgs ! i)\<lparr>mi_Versions := ws\<rparr>)"
          by (rule image_val_store [OF _ q2]) (use ws(1) img same(1) [OF i] in \<open>simp add: image_val_iff\<close>)
        with i old [of i] image ws(2) same(1) [OF i] locate_image_cases [OF loc] len show ?thesis by simp
      qed
    qed
  qed
  ultimately show ?thesis using upd res stored(1,2) by blast
qed

text \<open>\<^verbatim>\<open>Apply\<close> on the memory gives what \<^verbatim>\<open>Apply\<close> on values gives.\<close>

lemma Apply_refines_values:
  assumes "images_val m base = Some imgs" "images_apart m base"
  shows "case Apply L iu caps imgs cfg srcs of
      Panic \<Rightarrow> Apply_mem spare spare_images L iu caps m base cfg srcs = Panic
    | Fail e \<Rightarrow> Apply_mem spare spare_images L iu caps m base cfg srcs = Fail e
    | Ok (imgs', cfg') \<Rightarrow> \<exists>sl m' base'.
        Apply_mem spare spare_images L iu caps m base cfg srcs = Ok (sl, cfg', m') \<and>
        images_val m' sl = Some imgs' \<and> images_apart m' sl \<and>
        images_val m' base = Some base' \<and> list_all2 (versions_touched (iu_ImageName iu)) imgs base'"
proof -
  let ?srcs = "filter_sources caps srcs"
  obtain reps where reps: "slice_elements the_Images m base = Some reps" "images_rel m reps imgs"
    using assms(1) by (auto simp: images_val_iff)
  have apart: "arrays_apart reps" using assms(2) reps(1) by (simp add: images_apart_def)
  obtain imgs1 i where loc: "locate_image (iu_ImageName iu) imgs = (imgs1, i)" by fastforce
  obtain vs where vs: "update_versions L iu ?srcs (mi_Versions (imgs1 ! i)) = Some vs"
    using update_versions_total by blast
  obtain sl m' reps' imgs' where u: "update_images_mem spare spare_images L iu m base ?srcs = Some (sl, m')"
    "slice_elements the_Images m' (Some sl) = Some reps'"
    "images_rel m' reps' (imgs1[i := (imgs1 ! i)\<lparr>mi_Versions := vs\<rparr>])" "arrays_apart reps'"
    "slice_elements the_Images m' base = Some reps" "images_rel m' reps imgs'"
    "list_all2 (versions_touched (iu_ImageName iu)) imgs imgs'"
    using update_images_on_memory [OF reps apart loc vs] by blast
  have val: "images_val m' (Some sl) = Some (imgs1[i := (imgs1 ! i)\<lparr>mi_Versions := vs\<rparr>])"
    "images_val m' base = Some imgs'" "images_apart m' (Some sl)"
    using u(2-6) by (auto simp: images_val_iff images_apart_def)
  show ?thesis
  proof (cases "iu_Provider iu")
    case None
    with loc vs u(1,7) val show ?thesis by (simp add: Apply_def Apply_mem_def Let_def)
  next
    case (Some configure)
    with loc vs u(1,7) val show ?thesis
      by (cases "configure cfg ?srcs") (simp_all add: Apply_def Apply_mem_def Let_def)
  qed
qed

text \<open>C16 Apply_on_memory. Run on the memory, where it writes into the arrays of versions of the images that it was passed,
  Apply gives what it gives on values: the same error, or the same provider config and a slice that reads as the same
  images, with an array of versions of its own for every image, so that it can be passed to the next Apply. The slice
  of the caller still has the same images with versions of the same names, and the other images are as they were.\<close>

theorem Apply_on_memory:
  assumes "images_val m base = Some imgs" "images_apart m base"
  shows "case Apply L iu caps imgs cfg srcs of
      Panic \<Rightarrow> Apply_mem spare spare_images L iu caps m base cfg srcs = Panic
    | Fail e \<Rightarrow> Apply_mem spare spare_images L iu caps m base cfg srcs = Fail e
    | Ok (imgs', cfg') \<Rightarrow> \<exists>sl m' base'.
        Apply_mem spare spare_images L iu caps m base cfg srcs = Ok (sl, cfg', m') \<and>
        images_val m' sl = Some imgs' \<and> images_apart m' sl \<and>
        images_val m' base = Some base' \<and> list_all2 (versions_touched (iu_ImageName iu)) imgs base'"
  by (rule Apply_refines_values [OF assms])

end
