(* ===== verification/Startup.thy ===== *)
theory Startup
  imports ReconcilerProps
begin

section \<open>The process: flags, scheme, manager\<close>

text \<open>
  \<^verbatim>\<open>main.go\<close>, \<^verbatim>\<open>api/v1alpha1/groupversion_info.go\<close> and \<^verbatim>\<open>SetupWithManager\<close>: how the command line,
  the environment and the libraries' answers become the reconciler that the manager runs, and with which exit code the
  process ends. The standard library's \<^verbatim>\<open>flag\<close> package is modelled as far as it parses; the flags that other
  packages add to the command line (zap, controller-runtime) are given by \<open>others\<close>: whether the flag is
  boolean, and which values it takes. The scheme and the manager are parameters.
\<close>

subsection \<open>The command line\<close>

record flags =
  fl_kubecontext :: string
  fl_enableMachineImageCapabilities :: bool
  fl_others :: "(string \<times> string) list"

datatype arg = Operand | Terminator | BadSyntax | Named string "string option"

text \<open>One argument: \<^verbatim>\<open>-name\<close>, \<^verbatim>\<open>--name\<close>, \<^verbatim>\<open>-name=value\<close>; \<^verbatim>\<open>--\<close> and what does not start with a dash end the flags.\<close>

definition named_arg :: "string \<Rightarrow> arg" where
  "named_arg name =
     (if name = [] \<or> hd name = CHR ''-'' \<or> hd name = CHR ''='' then BadSyntax
      else case str_Cut CHR ''='' name of None \<Rightarrow> Named name None | Some (n, v) \<Rightarrow> Named n (Some v))"

fun parse_arg :: "string \<Rightarrow> arg" where
  "parse_arg [] = Operand"
| "parse_arg [c] = Operand"
| "parse_arg (c # d # s) =
     (if c \<noteq> CHR ''-'' then Operand
      else if d \<noteq> CHR ''-'' then named_arg (d # s)
      else if s = [] then Terminator else named_arg s)"

definition ParseBool :: "string \<Rightarrow> bool option" where
  "ParseBool s =
     (if s \<in> {''1'', ''t'', ''T'', ''true'', ''TRUE'', ''True''} then Some True
      else if s \<in> {''0'', ''f'', ''F'', ''false'', ''FALSE'', ''False''} then Some False else None)"

type_synonym other_flags = "string \<Rightarrow> (bool \<times> (string \<Rightarrow> bool)) option"

text \<open>Whether a flag is boolean; \<^const>\<open>None\<close>: there is no such flag.\<close>

definition is_bool_flag :: "other_flags \<Rightarrow> string \<Rightarrow> bool option" where
  "is_bool_flag others name =
     (if name = ''kubecontext'' then Some False
      else if name = ''enable-machine-image-capabilities'' then Some True
      else map_option fst (others name))"

definition set_flag :: "other_flags \<Rightarrow> string \<Rightarrow> string \<Rightarrow> flags \<Rightarrow> flags option" where
  "set_flag others name v fl =
     (if name = ''kubecontext'' then Some (fl\<lparr>fl_kubecontext := v\<rparr>)
      else if name = ''enable-machine-image-capabilities''
      then map_option (\<lambda>b. fl\<lparr>fl_enableMachineImageCapabilities := b\<rparr>) (ParseBool v)
      else case others name of
          None \<Rightarrow> None
        | Some (b, accepts) \<Rightarrow> if accepts v then Some (fl\<lparr>fl_others := fl_others fl @ [(name, v)]\<rparr>) else None)"

text \<open>
  \<^verbatim>\<open>flag.Parse\<close> of the command line, which exits on an error: with 0 when help was asked for, else with 2.
\<close>

fun parse_flags :: "other_flags \<Rightarrow> string list \<Rightarrow> flags \<Rightarrow> nat + flags" where
  "parse_flags others [] fl = Inr fl"
| "parse_flags others (s # args) fl =
     (case parse_arg s of
        Operand \<Rightarrow> Inr fl
      | Terminator \<Rightarrow> Inr fl
      | BadSyntax \<Rightarrow> Inl 2
      | Named name value \<Rightarrow>
          (case is_bool_flag others name of
             None \<Rightarrow> if name = ''help'' \<or> name = ''h'' then Inl 0 else Inl 2
           | Some True \<Rightarrow>
               (case set_flag others name (case value of None \<Rightarrow> ''true'' | Some v \<Rightarrow> v) fl of
                  None \<Rightarrow> Inl 2 | Some fl \<Rightarrow> parse_flags others args fl)
           | Some False \<Rightarrow>
               (case value of
                  Some v \<Rightarrow>
                    (case set_flag others name v fl of None \<Rightarrow> Inl 2 | Some fl \<Rightarrow> parse_flags others args fl)
                | None \<Rightarrow>
                    (case args of
                       [] \<Rightarrow> Inl 2
                     | v # args \<Rightarrow>
                         (case set_flag others name v fl of
                            None \<Rightarrow> Inl 2 | Some fl \<Rightarrow> parse_flags others args fl)))))"

definition default_flags :: flags where
  "default_flags = \<lparr>fl_kubecontext = [], fl_enableMachineImageCapabilities = False, fl_others = []\<rparr>"

subsection \<open>The scheme\<close>

definition GroupVersion :: "string \<times> string" where
  "GroupVersion = (''cloudprofilesync.cobaltcore.dev'', ''v1alpha1'')"

text \<open>The libraries: the scheme, the configuration of the client, the manager.\<close>

record ('s, 'r, 'v) libraries =
  lb_flags :: other_flags
  lb_NewScheme :: 's
  lb_clientgo :: "'s \<Rightarrow> goerror + 's" \<comment> \<open>\<^verbatim>\<open>AddToScheme\<close> of client-go\<close>
  lb_gardener :: "'s \<Rightarrow> goerror + 's"
  lb_AddKnownTypes :: "string \<times> string \<Rightarrow> string list \<Rightarrow> 's \<Rightarrow> 's" \<comment> \<open>the kinds, which it reads off the types\<close>
  lb_AddToGroupVersion :: "string \<times> string \<Rightarrow> 's \<Rightarrow> 's"
  lb_GetConfigWithContext :: "string \<Rightarrow> goerror + 'r"
  lb_NewManager :: "'r \<Rightarrow> 's \<Rightarrow> bool \<Rightarrow> goerror + 'v env" \<comment> \<open>the manager's client, in its record; leader election\<close>
  lb_Complete :: "string \<Rightarrow> string \<Rightarrow> string list \<Rightarrow> goerror option" \<comment> \<open>\<^verbatim>\<open>For\<close>, its predicate, \<^verbatim>\<open>Owns\<close>\<close>
  lb_Start :: "goerror option" \<comment> \<open>\<^const>\<open>None\<close> once a signal has stopped the manager\<close>
  lb_factory :: OCISourceFactory \<comment> \<open>the default one\<close>
  lb_http :: http
  lb_unicode :: "string \<Rightarrow> string"

definition addKnownTypes :: "('s, 'r, 'v) libraries \<Rightarrow> 's \<Rightarrow> goerror + 's" where
  "addKnownTypes L s =
     Inr (lb_AddToGroupVersion L GroupVersion
       (lb_AddKnownTypes L GroupVersion [''ManagedCloudProfile'', ''ManagedCloudProfileList''] s))"

text \<open>\<^verbatim>\<open>init\<close> panics on an error (\<^verbatim>\<open>utilruntime.Must\<close>).\<close>

definition init_scheme :: "('s, 'r, 'v) libraries \<Rightarrow> 's outcome" where
  "init_scheme L =
     (let must = (\<lambda>r. case r of Inl err \<Rightarrow> Panic | Inr s \<Rightarrow> Ok s)
      in bindO (must (lb_clientgo L (lb_NewScheme L)))
           (\<lambda>s. bindO (must (lb_gardener L s)) (\<lambda>s. must (addKnownTypes L s))))"

subsection \<open>main\<close>

datatype ending = ExitCode nat | InitPanic

text \<open>What the process came to: the configuration, the scheme and the reconciler that were running, if any, and the end.\<close>

record ('s, 'r, 'v) process =
  pr_running :: "('r \<times> 's \<times> 'v env) option"
  pr_ending :: ending

abbreviation exits :: "nat \<Rightarrow> ('s, 'r, 'v) process" where
  "exits n \<equiv> \<lparr>pr_running = None, pr_ending = ExitCode n\<rparr>"

definition SetupWithManager ::
  "('s, 'r, 'v) libraries \<Rightarrow> 'v env \<Rightarrow> OCISourceFactory option \<Rightarrow> (string \<Rightarrow> RegistryClient outcome) option
   \<Rightarrow> 'v env \<times> goerror option" where
  "SetupWithManager L r factory registry =
     (setup_defaults r factory registry (lb_factory L) (lb_http L) (lb_unicode L),
      lb_Complete L ''ManagedCloudProfile'' ''GenerationChangedPredicate'' [''CloudProfile''])"

text \<open>The context of the flag, or else of the environment; \<^verbatim>\<open>os.Exit(1)\<close> when there is no configuration.\<close>

definition getKubeconfigOrDie :: "('s, 'r, 'v) libraries \<Rightarrow> (string \<Rightarrow> string) \<Rightarrow> string \<Rightarrow> nat + 'r" where
  "getKubeconfigOrDie L getenv kubecontext =
     (let kubecontext = (if kubecontext = [] then getenv ''KUBECONTEXT'' else kubecontext)
      in case lb_GetConfigWithContext L kubecontext of Inl err \<Rightarrow> Inl 1 | Inr restConfig \<Rightarrow> Inr restConfig)"

definition main :: "('s, 'r, 'v) libraries \<Rightarrow> (string \<Rightarrow> string) \<Rightarrow> string list \<Rightarrow> ('s, 'r, 'v) process" where
  "main L getenv args =
     (case init_scheme L of
        Ok scheme \<Rightarrow>
          (case parse_flags (lb_flags L) args default_flags of
             Inl code \<Rightarrow> exits code
           | Inr fl \<Rightarrow>
               (case getKubeconfigOrDie L getenv (fl_kubecontext fl) of
                  Inl code \<Rightarrow> exits code
                | Inr restConfig \<Rightarrow>
                    (case lb_NewManager L restConfig scheme False of
                       Inl err \<Rightarrow> exits 1
                     | Inr client \<Rightarrow>
                         (case SetupWithManager L
                             (client\<lparr>en_EnableCapabilities := fl_enableMachineImageCapabilities fl\<rparr>) None None of
                            (reconciler, Some err) \<Rightarrow> exits 1
                          | (reconciler, None) \<Rightarrow>
                              \<lparr>pr_running = Some (restConfig, scheme, reconciler),
                               pr_ending = ExitCode (if lb_Start L = None then 0 else 1)\<rparr>))))
      | _ \<Rightarrow> \<lparr>pr_running = None, pr_ending = InitPanic\<rparr>)"

subsection \<open>What the process runs\<close>

lemma parse_kubecontext:
  "parse_flags others ((''--kubecontext='' @ k) # args) fl = parse_flags others args (fl\<lparr>fl_kubecontext := k\<rparr>)"
  "parse_flags others (''-kubecontext'' # k # args) fl = parse_flags others args (fl\<lparr>fl_kubecontext := k\<rparr>)"
  by (simp_all add: named_arg_def is_bool_flag_def set_flag_def)

lemma parse_capabilities:
  "parse_flags others ((''--enable-machine-image-capabilities='' @ (if b then ''true'' else ''false'')) # args) fl =
     parse_flags others args (fl\<lparr>fl_enableMachineImageCapabilities := b\<rparr>)"
  by (simp add: named_arg_def is_bool_flag_def set_flag_def ParseBool_def)


end
