(* ===== verification/MemoryExamples.thy ===== *)
theory MemoryExamples
  imports StatusMemory ImageMemory Startup Examples ComponentExamples
begin

section \<open>The memory and the process at work\<close>

text \<open>
  The witnesses of the properties that are stated on the memory, at a ManagedCloudProfile with a certificate
  bundle, a garbage collection and a condition, and at machine images whose array of versions has room left; and
  of the property of the process.
\<close>

subsection \<open>A profile in memory\<close>

text \<open>Structs of other modules are represented by texts, which contain no pointers.\<close>

definition example_external :: "string external" where
  "example_external =
     \<lparr>ex_val = flat_val, ex_reach = no_reach, ex_copy = assign, ex_kubernetes = (\<lambda>s. \<lparr>ks_Versions = []\<rparr>),
      ex_image = (\<lambda>s. \<lparr>mi_Name = s, mi_Versions = [], mi_other = []\<rparr>),
      ex_capability = (\<lambda>s. \<lparr>cd_Name = s, cd_Values = []\<rparr>), ex_meta = (\<lambda>s. (s, 1)),
      ex_slice = (\<lambda>xs. case xs of None \<Rightarrow> [] | Some ys \<Rightarrow> concat ys), ex_pointer = (\<lambda>x. case x of None \<Rightarrow> [] | Some s \<Rightarrow> s)\<rparr>"

lemma example_external_copy: "external_copy example_external"
  by (simp add: example_external_def flat.deep_copy_axioms)

definition example_condition :: Condition where
  "example_condition = succeeded_condition example_mcp"

definition example_struct :: "string ManagedCloudProfile_rep" where
  "example_struct =
     \<lparr>r_mcp_TypeMeta = ''ManagedCloudProfile'', r_mcp_ObjectMeta = ''profile'',
      r_mcp_Spec =
        \<lparr>r_ms_CloudProfile =
           \<lparr>r_cs_CABundle = Some 2, r_cs_Kubernetes = ''kubernetes'', r_cs_MachineImages = None,
            r_cs_MachineTypes = None, r_cs_ProviderConfig = None, r_cs_Regions = None, r_cs_SeedSelector = None,
            r_cs_Type = ''openstack'', r_cs_VolumeTypes = None, r_cs_Bastion = None, r_cs_Limits = None,
            r_cs_MachineCapabilities = None, r_cs_ControlPlane = None\<rparr>,
         r_ms_MachineImagesPaused = False, r_ms_MachineImageUpdates = None, r_ms_GarbageCollection = Some 3,
         r_ms_KubernetesUpdate = None\<rparr>,
      r_mcp_Status = \<lparr>r_st_Status = FailedReconcileStatus, r_st_Conditions = Some (1, 1)\<rparr>\<rparr>"

definition example_memory :: "string cell mem" where
  "example_memory =
     \<lparr>me_cells = [0 \<mapsto> ManagedCloudProfileCell example_struct, 1 \<mapsto> ConditionsCell [example_condition, zero_Condition],
        2 \<mapsto> StringCell ''bundle'', 3 \<mapsto> GarbageCollectionConfigCell \<lparr>gc_Enabled = True, gc_MaxAge = 500\<rparr>],
      me_next = 4\<rparr>"

lemma example_profile: "\<exists>mcp. profile_val example_external example_memory 0 = Some (''ManagedCloudProfile'', mcp)"
proof -
  have "map_option fst (profile_val example_external example_memory 0) = Some ''ManagedCloudProfile''" by code_simp
  then show ?thesis by auto
qed

lemma example_owns: "owns_status example_external example_memory 0"
proof -
  have "deref the_ManagedCloudProfile example_memory 0 = Some example_struct"
    by (simp add: deref_def example_memory_def the_ManagedCloudProfile_def)
  moreover have "rest_reach example_external example_memory example_struct = {3, 2}"
    by (simp add: rest_reach_def ManagedCloudProfileSpec_reach_def ManagedCloudProfileSpec_fields_def CloudProfileSpec_reach_def
        CloudProfileSpec_fields_def pair_reach_def ptr_reach_def no_reach_def example_struct_def example_external_def
        example_memory_def deref_def)
  ultimately show ?thesis by (simp add: owns_status_def array_of_def example_struct_def)
qed

theorem DeepCopy_separates_witness:
  "\<exists>q m' v. ManagedCloudProfile_DeepCopy example_external example_memory (Some 0) = Some (Some q, m') \<and>
     profile_val example_external (store 0 (StringCell []) m') q = Some (''ManagedCloudProfile'', v)"
proof -
  obtain v where v: "profile_val example_external example_memory 0 = Some (''ManagedCloudProfile'', v)"
    using example_profile by blast
  from DeepCopy_separates [OF example_external_copy v] obtain q m' where
    "ManagedCloudProfile_DeepCopy example_external example_memory (Some 0) = Some (Some q, m')"
    "\<forall>a c. a \<in> profile_reach example_external m' 0 \<longrightarrow>
       profile_val example_external (store a c m') q = Some (''ManagedCloudProfile'', v)" by blast
  moreover have "0 \<in> profile_reach example_external m' 0" by (simp add: ptr_reach_def)
  ultimately show ?thesis by blast
qed

theorem patch_refines_witness:
  "\<exists>m' mcp' issued err. patchStatusAndCondition_mem example_external [] (en_status example_env) example_memory 0
       SucceededReconcileStatus example_condition = Some (m', issued, err) \<and>
     profile_val example_external m' 0 = Some (''ManagedCloudProfile'', mcp') \<and> st_Status (mcp_Status mcp') = SucceededReconcileStatus"
proof -
  obtain v where v: "profile_val example_external example_memory 0 = Some (''ManagedCloudProfile'', v)"
    using example_profile by blast
  obtain mcp' issued err where p: "patchStatusAndCondition (en_status example_env) v SucceededReconcileStatus example_condition =
      (mcp', issued, err)"
    using prod_cases3 by blast
  moreover have "co_Type example_condition \<noteq> []"
    by (simp add: example_condition_def succeeded_condition_def CloudProfileAppliedConditionType_def)
  ultimately have "st_Status (mcp_Status mcp') = SucceededReconcileStatus" using patchStatus_fields by blast
  with patch_refines [OF example_external_copy v example_owns p] show ?thesis by blast
qed

subsection \<open>Machine images in memory\<close>

definition example_image_memory :: "image_cell mem" where
  "example_image_memory =
     \<lparr>me_cells = [0 \<mapsto> ImagesCell
          [\<lparr>r_mi_Name = ''gardenlinux'', r_mi_Versions = Some (1, 1), r_mi_other = []\<rparr>,
           \<lparr>r_mi_Name = ''flatcar'', r_mi_Versions = Some (2, 1), r_mi_other = []\<rparr>],
        1 \<mapsto> VersionsCell [example_version, blank_version []], 2 \<mapsto> VersionsCell [example_version]],
      me_next = 3\<rparr>"

theorem Apply_on_memory_witness:
  "\<exists>imgs sl m'. Apply_mem (\<lambda>n. []) [] plain_semver example_updater example_caps example_image_memory (Some (0, 2)) None example_srcs =
       Ok (sl, None, m') \<and> images_val m' sl = Some imgs \<and>
     Apply plain_semver example_updater example_caps
       [\<lparr>mi_Name = ''gardenlinux'', mi_Versions = [example_version], mi_other = []\<rparr>,
        \<lparr>mi_Name = ''flatcar'', mi_Versions = [example_version], mi_other = []\<rparr>] None example_srcs = Ok (imgs, None)"
proof -
  let ?imgs = "[\<lparr>mi_Name = ''gardenlinux'', mi_Versions = [example_version], mi_other = []\<rparr>,
    \<lparr>mi_Name = ''flatcar'', mi_Versions = [example_version], mi_other = []\<rparr>]"
  have v: "images_val example_image_memory (Some (0, 2)) = Some ?imgs" "images_apart example_image_memory (Some (0, 2))"
    by (simp_all add: example_image_memory_def images_val_def images_apart_def slice_elements_def elements_def deref_def
        image_val_def arrays_apart_def array_of_def)
  obtain imgs where A: "Apply plain_semver example_updater example_caps ?imgs None example_srcs = Ok (imgs, None)"
    using example_Apply by blast
  from Apply_on_memory [OF v, where L = plain_semver and iu = example_updater and caps = example_caps and cfg = None and
      srcs = example_srcs and spare = "\<lambda>n. []" and spare_images = "[]"]
  show ?thesis unfolding A outcome.case prod.case using A by blast
qed

subsection \<open>The process\<close>

definition example_libraries :: "(string list, string, nat list) libraries" where
  "example_libraries =
     \<lparr>lb_flags = (\<lambda>name. None), lb_NewScheme = [], lb_clientgo = Inr, lb_gardener = Inr,
      lb_AddKnownTypes = (\<lambda>gv kinds s. s @ kinds), lb_AddToGroupVersion = (\<lambda>gv s. s),
      lb_GetConfigWithContext = Inr, lb_NewManager = (\<lambda>config s leader. Inr example_env), lb_Complete = (\<lambda>f p owns. None),
      lb_Start = None, lb_factory = example_factory,
      lb_http = \<lparr>ht_NewRequest = (\<lambda>url. None), ht_Do = (\<lambda>url. Inl (ExtErr ''down'')), ht_Decode = (\<lambda>body. Inr [])\<rparr>,
      lb_unicode = (\<lambda>s. s)\<rparr>"


end
