(* ===== verification/Spec2Isabelle.thy ===== *)
theory Spec2Isabelle
  imports Examples ComponentExamples MemoryExamples
begin

text \<open>
  A model of cloud-profile-sync, a Kubernetes controller that keeps Gardener CloudProfiles in step with machine image
  registries and with the Kubernetes versions of a landscape. Paths are relative to \<^verbatim>\<open>src/\<close>.

  \<^bold>\<open>The program.\<close> A ManagedCloudProfile names a CloudProfile, the sources of its machine images and the
  providers whose configuration lists them. \<^verbatim>\<open>Reconcile\<close> reads one, prepares each image update in turn
  (\<^verbatim>\<open>prepareMachineImageUpdate\<close>: a source delivers images; garbage collection makes a filter of the
  registry's push times and of the versions that Shoots run; \<^verbatim>\<open>Fetch\<close> validates, sorts and filters;
  \<^verbatim>\<open>Apply\<close> enters the images into the machine images and calls \<^verbatim>\<open>Configure\<close> of the provider), prepares the
  Kubernetes versions, writes the CloudProfile by \<^verbatim>\<open>CreateOrPatch\<close>, and records the result in the
  status. The images and the provider configuration are threaded through the updates.

  \<^bold>\<open>Theories and sources.\<close>
  \<^item> \<open>GoBase\<close>, \<open>GoStrings\<close>, \<open>KeyedList\<close>: the prelude. Errors, the three ways a call ends
    (\<open>Ok\<close>, \<open>Fail\<close>, \<open>Panic\<close>), maps, \<^verbatim>\<open>slices\<close>, \<^verbatim>\<open>cmp\<close> and \<^verbatim>\<open>strings\<close>; the locale \<open>comparator\<close> with what
    sorting by one gives; lists with a map from a key to a position, and their specification by key.
  \<^item> \<open>Semver\<close>: the library \<^verbatim>\<open>blang/semver\<close> as a parameter, its laws as named predicates, and a plain
    instance.
  \<^item> \<open>ApiTypes\<close>: \<^verbatim>\<open>api/v1alpha1/managedcloudprofile.go\<close> and the parts of Gardener's types that are used.
  \<^item> \<open>Capabilities\<close>: \<^verbatim>\<open>cloudprofilesync/ossync/capabilities.go\<close>.
  \<^item> \<open>ImageUpdater\<close>, \<open>ImageUpdaterFacts\<close>, \<open>ImageUpdaterProps\<close>: \<^verbatim>\<open>cloudprofilesync/ossync/os_image_updater.go\<close>;
    the locale \<open>version_filter\<close> is its interface to garbage collection.
  \<^item> \<open>GarbageCollection\<close>: \<^verbatim>\<open>cloudprofilesync/ossync/gc/gc.go\<close> and \<^verbatim>\<open>controllers/garbage_collection.go\<close>.
  \<^item> \<open>SourceContract\<close>: the locale \<open>image_source\<close>, the interface \<^verbatim>\<open>ossync.Source\<close>, interpreted by both
    sources.
  \<^item> \<open>Fanout\<close>: the goroutines, the weighted semaphore and the channel of both sources, as a step relation.
  \<^item> \<open>OciSource\<close>: \<^verbatim>\<open>cloudprofilesync/ossync/source/oci/os_source.go\<close> and \<^verbatim>\<open>cloudprofilesync/ocirepo/ocirepo.go\<close>.
  \<^item> \<open>GlanceSource\<close>: \<^verbatim>\<open>cloudprofilesync/ossync/source/glance/os_source.go\<close>.
  \<^item> \<open>ProviderContract\<close>: the locale \<open>image_provider\<close>, the interface \<^verbatim>\<open>ossync.Provider\<close>, interpreted by
    both providers.
  \<^item> \<open>OpenStackProvider\<close>, \<open>IroncoreProvider\<close>: the two \<^verbatim>\<open>provider.go\<close> under \<^verbatim>\<open>cloudprofilesync/ossync/provider/\<close>.
  \<^item> \<open>K8sUpdater\<close>, \<open>Landscape\<close>: \<^verbatim>\<open>cloudprofilesync/k8ssync/k8s_image_updater.go\<close> with the locale
    \<open>kubernetes_source\<close>, and \<^verbatim>\<open>source/landscape/landscape_source.go\<close> beside it, which interprets it.
  \<^item> \<open>Status\<close>, \<open>Reconciler\<close>: \<^verbatim>\<open>controllers/managedcloudprofile_controller.go\<close>, \<^verbatim>\<open>controllers/cloud_profile.go\<close>
    and \<^verbatim>\<open>controllers/cloud_profile_helpers.go\<close>; the record \<open>env\<close> holds every client of the reconciler.
  \<^item> \<open>ReconcilerProps\<close>, \<open>UpdatePipeline\<close>: the properties of a reconciliation, and the lemmas on the
    composition of source, filter, updater and provider that this theory draws on.
  \<^item> \<open>Memory\<close>: a memory of cells, slices with their arrays, and the locale \<open>deep_copy\<close>, the contract of a
    deep copy, with the combinators of the generated code, each shown to keep the contract.
  \<^item> \<open>DeepCopy\<close>, \<open>DeepCopyProfile\<close>: \<^verbatim>\<open>api/v1alpha1/zz_generated.deepcopy.go\<close> and \<^verbatim>\<open>deepCopyMachineImages\<close> of
    \<^verbatim>\<open>controllers/cloud_profile.go\<close>; the locale is interpreted on the module's own structs.
  \<^item> \<open>StatusMemory\<close>, \<open>ImageMemory\<close>: the functions that write through a slice, \<^verbatim>\<open>patchStatusAndCondition\<close> with
    \<^verbatim>\<open>applyCondition\<close>, and \<^verbatim>\<open>Apply\<close> with both upserts, on the memory, and that they refine the models on values.
  \<^item> \<open>Startup\<close>: \<^verbatim>\<open>main.go\<close>, \<^verbatim>\<open>api/v1alpha1/groupversion_info.go\<close>, \<^verbatim>\<open>SetupWithManager\<close>.
  \<^item> \<open>PlainCodec\<close>, \<open>ExampleEnv\<close>, \<open>Examples\<close>, \<open>ComponentExamples\<close>, \<open>MemoryExamples\<close>: an environment in
    which every hypothesis holds, and the witnesses.

  \<^bold>\<open>State and operations.\<close> A Go struct is a record with the fields in order, prefixed by two or three letters;
  a nil pointer is \<^const>\<open>None\<close>, and dereferencing one, or an index out of range, is \<open>Panic\<close>. A Go map is an
  association list in the order of one \<^verbatim>\<open>range\<close> loop; where the order could be seen, another
  permutation is a parameter. A Go \<^verbatim>\<open>int\<close> and a duration are 64-bit words, points in time are integers, in
  nanoseconds. The position maps of the three loops that write through an index are modelled as they
  are. A loop is a recursive function with the loop's variables as arguments, named after the function that holds it.

  \<^bold>\<open>Values and memory.\<close> Apart from the theories on the memory a struct, a slice or a map is the value that it denotes. Three
  places of the code depend on what is shared. A status patch is computed against a deep copy that is taken
  before the conditions are written in place: \<open>patch_refines\<close>, which rests on the deep copies being separate
  (\<open>DeepCopy_separates\<close>). \<^verbatim>\<open>Apply\<close> clones the slice of images but not the versions in them, and so writes into the
  images of the specification that it starts from: \<open>Apply_on_memory\<close> shows that the result is nevertheless the one
  of the model on values, for one update after the other, and what the specification in memory looks like
  afterwards; it is not read again, since the base images go into the CloudProfile only while updates are
  paused, and not sent, since the patch is of the status. The architectures and flavors of a version are values also there: an
  \<^verbatim>\<open>append\<close> to them writes behind the slices that others hold, if at all, as every source image has arrays of its own.

  \<^bold>\<open>What is shown.\<close> Across components: a used version survives every update, a listed version can be
  resolved, an update makes progress, a reconciliation never panics, what it writes, and that the status tells how
  it ended. Per component: \<^verbatim>\<open>Apply\<close> refines an update by key, is idempotent, keeps dates and other
  images; \<^verbatim>\<open>Fetch\<close> returns valid images in order; garbage collection drops exactly the old unused images;
  a deep copy shares nothing with its original; the fan-out always completes within its semaphore, and its scheduling cannot be seen in what \<^verbatim>\<open>Fetch\<close>
  returns; which images the sources describe and select; which entries the providers write; which tag a
  landscape source uses. \<open>glance_window_overflow\<close>, \<open>openstack_mixed_entry\<close> and \<open>clean_version_unresolved\<close> show inputs on
  which the code does not do what its comments promise.

  \<^bold>\<open>Bounds.\<close> No function runs on fuel; every recursion terminates by structure or by a measure. A fan-out of \<open>n\<close>
  goroutines has at most \<open>5 n\<close> steps. Where a sum of machine integers matters (the window of the Glance source)
  the bound is a hypothesis, and the overflow a property of its own.

  \<^bold>\<open>Parameters.\<close> Code outside the repository is a field of a record: the registry clients and their decoders, HTTP,
  gophercloud, the tar reader, the JSON codecs of the provider types, the Kubernetes client,
  \<^verbatim>\<open>SetControllerReference\<close>, the Gardener defaults, the clock. Hypotheses on them state documented
  behaviour: comparison is an order, printing a parsed version gives a version, decoding undoes
  encoding, \<^verbatim>\<open>CreateOrPatch\<close> returns what the callback made of the stored object.

  \<^bold>\<open>Choices.\<close> \<^verbatim>\<open>slices.SortFunc\<close> is insertion sort; the properties do not depend on the order of
  elements that compare as equal. A feature map that gives two values the same capability depends on the order of a
  Go map; the property on capabilities excludes it. The results a Glance source collects are a field of \<open>env\<close>:
  that they come from the fan-out is a lemma of \<open>GlanceSource\<close>, for OCI it is a property.

  \<^bold>\<open>Not modelled.\<close> Logging, what controller-runtime does with the registration (its queue, the watches and the
  predicate), and metadata of Kubernetes objects that the program only hands on. What is left of the sources beside that
  are import lists, interface declarations, comments and the JSON tags.
\<close>

section \<open>Properties across components\<close>

subsection \<open>The update of a machine image\<close>





text \<open>C3 update_succeeds. An update makes progress: when its source delivers, its minimal version is one, a provider is
  configured and can read the provider configuration, the update succeeds. A registry that garbage
  collection cannot reach, a wrong maximal age, or source images that are no versions do not
  hold it back.\<close>

theorem update_succeeds:
  assumes "\<forall>v. mu_MinVersionForUpdate update = Some v \<longrightarrow> sv_valid (en_semver r) v"
    and "selectSource r (mu_Source update) = Ok (Ok raw)"
    and "up_IroncoreMetal (mu_Provider update) \<noteq> None \<or> up_OpenStack (mu_Provider update) \<noteq> None"
    and "codec_ok (en_ironcore_codec r)" "codec_ok (en_openstack_codec r)" "config_readable r update pc"
    and "registry_quiet r"
  shows "\<exists>imgs pc'. prepareMachineImageUpdate r mcp (Some shoots) base pc update = Ok (imgs, pc')"
proof -
  obtain configure where p: "selectProvider r update = Ok configure"
    using assms(3) by (cases "up_IroncoreMetal (mu_Provider update)") (auto simp: selectProvider_def)
  have "buildGCFilter (en_RegistryProviderFunc r) (en_clock r (GCClock update)) mcp (Some shoots) update \<noteq> Panic"
    by (rule buildGCFilter_quiet [OF assms(7)]) simp
  with Configure_succeeds [OF assms(4,5) p assms(6)] show ?thesis
    by (rule prepare_succeeds [OF assms(1,2) p, rotated])
qed

theorem update_succeeds_witness:
  "\<exists>imgs pc'. prepareMachineImageUpdate (example_env\<lparr>en_RegistryProviderFunc := \<lambda>registry. Fail (ExtErr ''down'')\<rparr>)
     example_mcp (Some [example_shoot]) [] None ironcore_update = Ok (imgs, pc')"
proof -
  let ?r = "example_env\<lparr>en_RegistryProviderFunc := \<lambda>registry. Fail (ExtErr ''down'')\<rparr>"
  have "selectSource ?r (mu_Source ironcore_update) = selectSource example_env (mu_Source ironcore_update)"
    by (simp add: selectSource_def getCredential_def newOCISource_def openstack_update_def)
  then have src: "selectSource ?r (mu_Source ironcore_update) =
      Ok (Ok [example_delivered ''1.0.0'', example_delivered ''2.0.0''])" using example_selectSource by simp
  have h: "\<forall>v. mu_MinVersionForUpdate ironcore_update = Some v \<longrightarrow> sv_valid (en_semver ?r) v"
    "up_IroncoreMetal (mu_Provider ironcore_update) \<noteq> None \<or> up_OpenStack (mu_Provider ironcore_update) \<noteq> None"
    "codec_ok (en_ironcore_codec ?r)" "codec_ok (en_openstack_codec ?r)" "registry_quiet ?r"
    by (simp_all add: sv_valid_def im_codec_ok os_codec_ok registry_quiet_def)
  show ?thesis by (rule update_succeeds [OF h(1) src h(2-4) config_readable_None h(5)])
qed

text \<open>
  An image that the IronCore provider does not write a flavor for: capabilities are enabled and the image has a
  clean version other than its tag, but the profile declares no capabilities.
\<close>

definition unwritten_source :: SourceImage where
  "unwritten_source = (example_delivered ''1.0.0'')\<lparr>si_CleanVersion := ''2.0.0''\<rparr>"

definition unwritten_provider :: IroncoreProvider where
  "unwritten_provider =
     \<lparr>ip_Registry = ''registry'', ip_Repository = ''images'', ip_ImageName = ''gardenlinux'', ip_EnableCapabilities = True\<rparr>"

definition unwritten_updater :: ImageUpdater where
  "unwritten_updater =
     \<lparr>iu_Source = Ok [unwritten_source], iu_Provider = Some (ironcore_Configure im_codec unwritten_provider),
      iu_ImageName = ''gardenlinux'', iu_EnableCapabilities = True, iu_MinVersionForUpdate = None, iu_Filter = None\<rparr>"


subsection \<open>The update of the Kubernetes versions\<close>



end
